(* ===== verification/Go_Base.thy ===== *)
theory Go_Base
  imports Main "HOL-Library.Word" "HOL-Library.Char_ord" "HOL-Library.List_Lexorder"
    "HOL-Library.Sublist"
begin

section \<open>The part of Go's language and standard library the module uses\<close>

text \<open>
  A Go string is a sequence of bytes, so it is a \<^typ>\<open>string\<close> (each \<^typ>\<open>char\<close> has
  eight bits). This theory models the functions of \<open>strings\<close> and \<open>strconv\<close> that the
  sources call, with their behaviour on every byte sequence, and the generic lemmas about
  them that the component theories share. The collection \<open>go_str\<close> holds the
  simplification rules about strings.
\<close>

named_theorems go_str \<open>simplification rules about Go strings\<close>

type_synonym go_string = string

subsection \<open>Prefixes and suffixes\<close>

definition HasPrefix :: "go_string \<Rightarrow> go_string \<Rightarrow> bool" where
  "HasPrefix s p = prefix p s"

definition HasSuffix :: "go_string \<Rightarrow> go_string \<Rightarrow> bool" where
  "HasSuffix s p = suffix p s"

lemma HasPrefix_append [go_str]: "HasPrefix (p @ s) p"
  by (simp add: HasPrefix_def)

lemma HasSuffix_append [go_str]: "HasSuffix (s @ p) p"
  by (simp add: HasSuffix_def suffix_def)

text \<open>\<open>strings.Contains\<close>: some suffix of the string starts with the substring.\<close>

fun Contains :: "go_string \<Rightarrow> go_string \<Rightarrow> bool" where
  "Contains [] sub = (sub = [])"
| "Contains (c # s) sub = (prefix sub (c # s) \<or> Contains s sub)"

lemma Contains_prefix: "prefix sub s \<Longrightarrow> Contains s sub"
  by (cases s) auto

lemma Contains_append: "Contains s sub \<Longrightarrow> Contains (xs @ s) sub"
  by (induction xs) auto

lemma Contains_infix: "Contains (xs @ sub @ ys) sub"
  by (simp add: Contains_append Contains_prefix)

subsection \<open>Splitting and joining\<close>

text \<open>\<open>strings.Split\<close> for a separator of one byte: never an empty list.\<close>

fun Split :: "char \<Rightarrow> go_string \<Rightarrow> go_string list" where
  "Split c [] = [[]]"
| "Split c (x # xs) =
     (if x = c then [] # Split c xs
      else (case Split c xs of [] \<Rightarrow> [[x]] | p # ps \<Rightarrow> (x # p) # ps))"

fun Join :: "go_string \<Rightarrow> go_string list \<Rightarrow> go_string" where
  "Join sep [] = []"
| "Join sep [x] = x"
| "Join sep (x # y # xs) = x @ sep @ Join sep (y # xs)"

lemma Split_nonempty [simp]: "Split c s \<noteq> []"
  by (cases s) (auto split: list.splits)

lemma Split_no_sep: "x \<in> set (Split c s) \<Longrightarrow> c \<notin> set x"
proof (induction s arbitrary: x)
  case Nil
  then show ?case by simp
next
  case (Cons a s)
  obtain y ys where "Split c s = y # ys"
    by (cases "Split c s") auto
  with Cons show ?case
    by (auto split: if_splits)
qed

lemma Split_absent: "c \<notin> set s \<Longrightarrow> Split c s = [s]"
  by (induction s) auto

lemma Split_append_sep: "c \<notin> set x \<Longrightarrow> Split c (x @ c # s) = x # Split c s"
  by (induction x) auto

lemma Split_Join: "xs \<noteq> [] \<Longrightarrow> (\<And>x. x \<in> set xs \<Longrightarrow> c \<notin> set x) \<Longrightarrow> Split c (Join [c] xs) = xs"
proof (induction "[c]" xs rule: Join.induct)
  case 1
  then show ?case by simp
next
  case (2 x)
  then show ?case by (simp add: Split_absent)
next
  case (3 x y xs)
  then show ?case by (simp add: Split_append_sep)
qed

lemma Join_Split: "Join [c] (Split c s) = s"
proof (induction s)
  case Nil
  then show ?case by simp
next
  case (Cons a s)
  obtain y ys where "Split c s = y # ys"
    by (cases "Split c s") auto
  with Cons.IH show ?case
    by (cases ys) auto
qed

text \<open>\<open>strings.Index\<close> and \<open>strings.Cut\<close> for a separator of one byte.\<close>

fun Cut :: "char \<Rightarrow> go_string \<Rightarrow> (go_string \<times> go_string) option" where
  "Cut c [] = None"
| "Cut c (x # xs) =
     (if x = c then Some ([], xs)
      else (case Cut c xs of None \<Rightarrow> None | Some (k, v) \<Rightarrow> Some (x # k, v)))"

lemma Cut_Some: "Cut c s = Some (k, v) \<Longrightarrow> s = k @ c # v \<and> c \<notin> set k"
  by (induction s arbitrary: k) (auto split: option.splits if_splits)

lemma Cut_None: "Cut c s = None \<longleftrightarrow> c \<notin> set s"
  by (induction s) (auto split: option.splits prod.splits)

text \<open>\<open>strings.ReplaceAll\<close> of one byte by a string.\<close>

definition ReplaceAll :: "go_string \<Rightarrow> char \<Rightarrow> go_string \<Rightarrow> go_string" where
  "ReplaceAll s c r = concat (map (\<lambda>x. if x = c then r else [x]) s)"

lemma ReplaceAll_Nil [go_str]: "ReplaceAll [] c r = []"
  by (simp add: ReplaceAll_def)

lemma ReplaceAll_Cons [go_str]:
  "ReplaceAll (x # s) c r = (if x = c then r else [x]) @ ReplaceAll s c r"
  by (simp add: ReplaceAll_def)

lemma ReplaceAll_absent: "c \<notin> set s \<Longrightarrow> ReplaceAll s c r = s"
  by (induction s) (auto simp: go_str)

subsection \<open>White space\<close>

text \<open>
  \<open>unicode.IsSpace\<close> holds for these runes; each is written as its UTF-8 bytes. No
  encoding is a proper part of another rune's encoding at a rune boundary, so stripping
  byte prefixes (suffixes) is what \<open>strings.TrimSpace\<close> does by decoding the first (last)
  rune: a malformed sequence decodes to the replacement rune, which is no space.
\<close>

definition space_runes :: "go_string list" where
  "space_runes =
    [[CHR 0x09], [CHR 0x0A], [CHR 0x0B], [CHR 0x0C], [CHR 0x0D], [CHR 0x20],
     [CHR 0xC2, CHR 0x85], [CHR 0xC2, CHR 0xA0], [CHR 0xE1, CHR 0x9A, CHR 0x80],
     [CHR 0xE2, CHR 0x80, CHR 0x80], [CHR 0xE2, CHR 0x80, CHR 0x81],
     [CHR 0xE2, CHR 0x80, CHR 0x82], [CHR 0xE2, CHR 0x80, CHR 0x83],
     [CHR 0xE2, CHR 0x80, CHR 0x84], [CHR 0xE2, CHR 0x80, CHR 0x85],
     [CHR 0xE2, CHR 0x80, CHR 0x86], [CHR 0xE2, CHR 0x80, CHR 0x87],
     [CHR 0xE2, CHR 0x80, CHR 0x88], [CHR 0xE2, CHR 0x80, CHR 0x89],
     [CHR 0xE2, CHR 0x80, CHR 0x8A], [CHR 0xE2, CHR 0x80, CHR 0xA8],
     [CHR 0xE2, CHR 0x80, CHR 0xA9], [CHR 0xE2, CHR 0x80, CHR 0xAF],
     [CHR 0xE2, CHR 0x81, CHR 0x9F], [CHR 0xE3, CHR 0x80, CHR 0x80]]"

text \<open>Strip the given non-empty prefixes from the front for as long as one is there.\<close>

function strip :: "go_string list \<Rightarrow> go_string \<Rightarrow> go_string" where
  "strip ps s =
     (case find (\<lambda>p. p \<noteq> [] \<and> prefix p s) ps of
        None \<Rightarrow> s
      | Some p \<Rightarrow> strip ps (drop (length p) s))"
  by pat_completeness auto
termination
  by (relation "measure (\<lambda>(ps, s). length s)") (auto simp: find_Some_iff prefix_def)

declare strip.simps [simp del]

definition TrimLeft :: "go_string \<Rightarrow> go_string" where
  "TrimLeft s = strip space_runes s"

definition TrimRight :: "go_string \<Rightarrow> go_string" where
  "TrimRight s = rev (strip (map rev space_runes) (rev s))"

definition TrimSpace :: "go_string \<Rightarrow> go_string" where
  "TrimSpace s = TrimRight (TrimLeft s)"

lemma strip_suffix: "suffix (strip ps s) s"
proof (induction ps s rule: strip.induct)
  case (1 ps s)
  show ?case
  proof (cases "find (\<lambda>p. p \<noteq> [] \<and> prefix p s) ps")
    case None
    then show ?thesis by (simp add: strip.simps [of ps s])
  next
    case (Some p)
    with 1 have "suffix (strip ps (drop (length p) s)) (drop (length p) s)" by simp
    with Some show ?thesis
      by (simp add: strip.simps [of ps s] suffix_order.trans [OF _ suffix_drop])
  qed
qed

lemma strip_no_prefix: "p \<in> set ps \<Longrightarrow> p \<noteq> [] \<Longrightarrow> \<not> prefix p (strip ps s)"
proof (induction ps s rule: strip.induct)
  case (1 ps s)
  show ?case
  proof (cases "find (\<lambda>p. p \<noteq> [] \<and> prefix p s) ps")
    case None
    then have "strip ps s = s" by (simp add: strip.simps [of ps s])
    with None "1.prems" show ?thesis by (auto simp: find_None_iff)
  next
    case (Some q)
    with 1 show ?thesis by (simp add: strip.simps [of ps s])
  qed
qed

lemma strip_id: "(\<And>p. p \<in> set ps \<Longrightarrow> p \<noteq> [] \<Longrightarrow> \<not> prefix p s) \<Longrightarrow> strip ps s = s"
  by (auto simp: strip.simps [of ps s] find_Some_iff split: option.splits)

lemma TrimRight_prefix: "prefix (TrimRight s) s"
  unfolding TrimRight_def
  by (metis strip_suffix suffix_to_prefix rev_rev_ident)

lemma TrimSpace_subset: "set (TrimSpace s) \<subseteq> set s"
proof -
  have "set (TrimRight (TrimLeft s)) \<subseteq> set (TrimLeft s)"
    by (rule set_mono_prefix [OF TrimRight_prefix])
  also have "\<dots> \<subseteq> set s"
    unfolding TrimLeft_def by (rule set_mono_suffix [OF strip_suffix])
  finally show ?thesis by (simp add: TrimSpace_def)
qed

text \<open>A string is trimmed when no space rune starts or ends it; \<open>TrimSpace\<close> produces such
  strings and leaves them alone.\<close>

definition trimmed :: "go_string \<Rightarrow> bool" where
  "trimmed s = list_all (\<lambda>p. \<not> prefix p s \<and> \<not> suffix p s) space_runes"

lemma space_runes_nonempty: "p \<in> set space_runes \<Longrightarrow> p \<noteq> []"
  by (auto simp: space_runes_def)

lemma TrimSpace_trimmed: "trimmed (TrimSpace s)"
  unfolding trimmed_def list_all_iff
proof (intro ballI conjI)
  fix p assume p: "p \<in> set space_runes"
  have "\<not> prefix p (TrimLeft s)"
    unfolding TrimLeft_def using p space_runes_nonempty [OF p] by (rule strip_no_prefix)
  then show "\<not> prefix p (TrimSpace s)"
    unfolding TrimSpace_def using TrimRight_prefix prefix_order.trans by blast
  have "\<not> prefix (rev p) (strip (map rev space_runes) (rev (TrimLeft s)))"
    using p space_runes_nonempty [OF p] by (intro strip_no_prefix) auto
  then show "\<not> suffix p (TrimSpace s)"
    by (simp add: TrimSpace_def TrimRight_def suffix_to_prefix)
qed

lemma trimmed_TrimSpace: "trimmed s \<Longrightarrow> TrimSpace s = s"
proof -
  assume t: "trimmed s"
  have l: "TrimLeft s = s"
    unfolding TrimLeft_def using t by (intro strip_id) (auto simp: trimmed_def list_all_iff)
  have "strip (map rev space_runes) (rev s) = rev s"
    using t by (intro strip_id) (auto simp: trimmed_def list_all_iff suffix_to_prefix)
  then show ?thesis by (simp add: TrimSpace_def TrimRight_def l)
qed

lemma TrimSpace_idem [simp]: "TrimSpace (TrimSpace s) = TrimSpace s"
  by (rule trimmed_TrimSpace [OF TrimSpace_trimmed])

lemma TrimSpace_Nil [simp]: "TrimSpace [] = []"
  by (rule trimmed_TrimSpace) (auto simp: trimmed_def list_all_iff dest: space_runes_nonempty)

text \<open>Splitting at a byte, trimming the parts and dropping the empty ones: the loop the
  module runs over every comma-separated annotation and every line-based file.\<close>

definition trimmed_fields :: "char \<Rightarrow> go_string \<Rightarrow> go_string list" where
  "trimmed_fields c s = filter (\<lambda>p. p \<noteq> []) (map TrimSpace (Split c s))"

lemma trimmed_fieldsD:
  assumes "p \<in> set (trimmed_fields c s)"
  shows "p \<noteq> []" and "trimmed p" and "c \<notin> set p"
proof -
  from assms obtain q where q: "q \<in> set (Split c s)" "p = TrimSpace q" "p \<noteq> []"
    by (auto simp: trimmed_fields_def)
  then show "p \<noteq> []" and "trimmed p" by (auto simp: TrimSpace_trimmed)
  from q Split_no_sep TrimSpace_subset show "c \<notin> set p" by fastforce
qed

lemma trimmed_fields_Join:
  assumes "\<And>x. x \<in> set xs \<Longrightarrow> trimmed x \<and> x \<noteq> [] \<and> c \<notin> set x"
  shows "trimmed_fields c (Join [c] xs) = xs"
proof (cases "xs = []")
  case True
  then show ?thesis by (simp add: trimmed_fields_def)
next
  case False
  have "map TrimSpace xs = xs"
    using assms by (simp add: map_idI trimmed_TrimSpace)
  moreover have "filter (\<lambda>p. p \<noteq> []) xs = xs"
    using assms by (simp add: filter_id_conv)
  ultimately show ?thesis
    using Split_Join [OF False, of c] assms by (simp add: trimmed_fields_def)
qed

subsection \<open>Letter case\<close>

definition ascii_lower :: "char \<Rightarrow> char" where
  "ascii_lower c = (let n = of_char c :: nat in if 65 \<le> n \<and> n \<le> 90 then char_of (n + 32) else c)"

text \<open>
  Map ASCII letters to lower case and the listed multi-byte runes to the given strings.
  The module compares the results with ASCII literals only, so the runes that matter
  beyond ASCII are those a mapping takes into ASCII: U+0130 and U+212A for
  \<open>strings.ToLower\<close>, U+017F and U+212A for the simple folding of \<open>strings.EqualFold\<close>.
  The other runes map to runes outside ASCII and are left as they are.
\<close>

fun map_runes :: "(go_string \<times> go_string) list \<Rightarrow> go_string \<Rightarrow> go_string" where
  "map_runes tbl [] = []"
| "map_runes tbl (c # s) =
     (case find (\<lambda>(r, t). prefix r (c # s)) tbl of
        Some (r, t) \<Rightarrow> t @ map_runes tbl (drop (length r - 1) s)
      | None \<Rightarrow> ascii_lower c # map_runes tbl s)"

definition ToLower :: "go_string \<Rightarrow> go_string" where
  "ToLower = map_runes [([CHR 0xC4, CHR 0xB0], ''i''), ([CHR 0xE2, CHR 0x84, CHR 0xAA], ''k'')]"

definition fold_case :: "go_string \<Rightarrow> go_string" where
  "fold_case = map_runes [([CHR 0xC5, CHR 0xBF], ''s''), ([CHR 0xE2, CHR 0x84, CHR 0xAA], ''k'')]"

definition EqualFold :: "go_string \<Rightarrow> go_string \<Rightarrow> bool" where
  "EqualFold s t = (fold_case s = fold_case t)"

lemma EqualFold_refl [simp]: "EqualFold s s"
  by (simp add: EqualFold_def)

subsection \<open>Trimmed strings\<close>

text \<open>Every space rune has a byte that is at most 32 or at least 128, so a string of
  printable ASCII characters is trimmed; so is a trimmed string with such a character put
  behind it.\<close>

definition printable :: "char \<Rightarrow> bool" where
  "printable c = (let n = of_char c :: int in 32 < n \<and> n < 128)"

lemma space_runes_unprintable: "p \<in> set space_runes \<Longrightarrow> list_all (\<lambda>c. \<not> printable c) p"
  by (auto simp: space_runes_def printable_def)

lemma trimmed_ends:
  assumes "s = [] \<or> printable (hd s) \<and> printable (last s)"
  shows "trimmed s"
  unfolding trimmed_def list_all_iff
proof (intro ballI)
  fix p assume p: "p \<in> set space_runes"
  have np: "p \<noteq> []" "\<not> printable (hd p)" "\<not> printable (last p)"
    using space_runes_nonempty [OF p] space_runes_unprintable [OF p]
    by (auto simp: list_all_iff)
  show "\<not> prefix p s \<and> \<not> suffix p s"
  proof (cases "s = []")
    case True
    with np show ?thesis by simp
  next
    case False
    with assms have "printable (hd s)" "printable (last s)" by auto
    with np show ?thesis by (auto simp: prefix_def suffix_def)
  qed
qed

lemma trimmed_printable: "list_all printable s \<Longrightarrow> trimmed s"
  by (rule trimmed_ends) (auto simp: list_all_iff)

lemma trimmed_snoc:
  assumes "trimmed s" "s \<noteq> []" "printable c"
  shows "trimmed (s @ [c])"
  unfolding trimmed_def list_all_iff
proof (intro ballI conjI)
  fix p assume p: "p \<in> set space_runes"
  have np: "p \<noteq> []" "\<not> printable (last p)"
    using space_runes_nonempty [OF p] space_runes_unprintable [OF p]
    by (auto simp: list_all_iff)
  have "\<not> prefix p s" using assms(1) p by (simp add: trimmed_def list_all_iff)
  then show "\<not> prefix p (s @ [c])"
    using np assms(3) by (auto simp: prefix_snoc)
  show "\<not> suffix p (s @ [c])"
    using np assms(3) by (metis last_appendR last_snoc suffix_def)
qed

lemma TrimSpace_printable [simp]: "list_all printable s \<Longrightarrow> TrimSpace s = s"
  by (rule trimmed_TrimSpace [OF trimmed_printable])

lemma prefix_before: "prefix p (k @ c # v) \<Longrightarrow> c \<notin> set p \<Longrightarrow> prefix p k"
  by (auto simp: prefix_append prefix_Cons)

lemma trimmed_around:
  assumes "trimmed k" "trimmed v" "printable c"
  shows "trimmed (k @ c # v)"
  unfolding trimmed_def list_all_iff
proof (intro ballI conjI)
  fix p assume p: "p \<in> set space_runes"
  have c: "c \<notin> set p" "c \<notin> set (rev p)"
    using space_runes_unprintable [OF p] assms(3) by (auto simp: list_all_iff)
  have k: "\<not> prefix p k" "\<not> prefix (rev p) (rev v)"
    using assms(1,2) p by (auto simp: trimmed_def list_all_iff suffix_to_prefix)
  show "\<not> prefix p (k @ c # v)"
    using prefix_before [OF _ c(1)] k(1) by blast
  have "\<not> prefix (rev p) (rev v @ c # rev k)"
    using prefix_before [OF _ c(2)] k(2) by blast
  then show "\<not> suffix p (k @ c # v)"
    by (simp add: suffix_to_prefix)
qed

subsection \<open>Collecting strings once\<close>

text \<open>The loops that append a string unless a set has seen it: each string once, in the order of
  its first occurrence.\<close>

definition append_unseen :: "go_string list \<Rightarrow> go_string \<Rightarrow> go_string list" where
  "append_unseen out h = (if h \<in> set out then out else out @ [h])"

definition collect_unique :: "go_string list \<Rightarrow> go_string list" where
  "collect_unique hs = foldl append_unseen [] hs"

lemma collect_unique_acc:
  "distinct out \<Longrightarrow> distinct (foldl append_unseen out hs) \<and> set (foldl append_unseen out hs) = set out \<union> set hs
     \<and> prefix out (foldl append_unseen out hs)"
proof (induction hs arbitrary: out)
  case (Cons h hs)
  have "distinct (append_unseen out h)" "set (append_unseen out h) = insert h (set out)" "prefix out (append_unseen out h)"
    using Cons.prems by (auto simp: append_unseen_def)
  with Cons.IH [of "append_unseen out h"] show ?case
    using prefix_order.trans by auto
qed simp

lemma distinct_collect_unique [simp]: "distinct (collect_unique hs)"
  by (simp add: collect_unique_def collect_unique_acc)

lemma set_collect_unique [simp]: "set (collect_unique hs) = set hs"
  by (simp add: collect_unique_def collect_unique_acc)

lemma collect_unique_distinct: "distinct hs \<Longrightarrow> collect_unique hs = hs"
proof -
  have "distinct (out @ hs) \<Longrightarrow> foldl append_unseen out hs = out @ hs" for out
    by (induction hs arbitrary: out) (auto simp: append_unseen_def)
  then show "distinct hs \<Longrightarrow> collect_unique hs = hs"
    by (simp add: collect_unique_def)
qed

end
