(* ===== verification/Go_Map.thy ===== *)
theory Go_Map
  imports Go_Base
begin

section \<open>Go maps\<close>

text \<open>
  A Go map from strings is an association list in ascending key order with one entry per
  key: two maps with the same lookups are then equal, \<open>encoding/json\<close> writes the keys of a
  map in this order, and everything is executable. A map literal is \<open>gomap_of\<close> of its
  entries in the order of the source; assignment is \<open>mput\<close>, \<open>delete\<close> is \<open>mdel\<close>, and an
  index expression is \<^const>\<open>map_of\<close>. Go leaves the iteration order over a map open: where
  it matters, the component takes it as an argument.

  The interface is the locale \<open>finite_map\<close>; the clients' facts about repeated updates are
  proved in it and reach the model through the interpretation \<open>gm\<close>.
\<close>

type_synonym 'v gomap = "(string \<times> 'v) list"

fun mput :: "string \<Rightarrow> 'v \<Rightarrow> 'v gomap \<Rightarrow> 'v gomap" where
  "mput k v [] = [(k, v)]"
| "mput k v ((k', v') # m) =
     (if k = k' then (k, v) # m
      else if k < k' then (k, v) # (k', v') # m
      else (k', v') # mput k v m)"

definition mdel :: "string \<Rightarrow> 'v gomap \<Rightarrow> 'v gomap" where
  "mdel k m = filter (\<lambda>(k', v). k' \<noteq> k) m"

definition gomap_of :: "(string \<times> 'v) list \<Rightarrow> 'v gomap" where
  "gomap_of kvs = fold (\<lambda>(k, v). mput k v) kvs []"

text \<open>Copying every entry of one map into another (\<open>for k, v := range m { d[k] = v }\<close>): the
  result does not depend on the order of iteration, since the keys are distinct.\<close>

definition mcopy :: "'v gomap \<Rightarrow> 'v gomap \<Rightarrow> 'v gomap" where
  "mcopy m d = fold (\<lambda>(k, v). mput k v) m d"

definition keys_sorted :: "'v gomap \<Rightarrow> bool" where
  "keys_sorted m = sorted_wrt (<) (map fst m)"

subsection \<open>The interface\<close>

locale finite_map =
  fixes empty :: "'m"
    and put :: "'k \<Rightarrow> 'v \<Rightarrow> 'm \<Rightarrow> 'm"
    and del :: "'k \<Rightarrow> 'm \<Rightarrow> 'm"
    and get :: "'m \<Rightarrow> 'k \<Rightarrow> 'v option"
    and inv :: "'m \<Rightarrow> bool"
  assumes get_empty: "get empty k = None"
    and get_put: "get (put k v m) k' = (if k' = k then Some v else get m k')"
    and get_del: "get (del k m) k' = (if k' = k then None else get m k')"
    and inv_empty: "inv empty"
    and inv_put: "inv m \<Longrightarrow> inv (put k v m)"
    and inv_del: "inv m \<Longrightarrow> inv (del k m)"
    and ext: "inv m \<Longrightarrow> inv m' \<Longrightarrow> (\<And>k. get m k = get m' k) \<Longrightarrow> m = m'"
begin

lemma put_put: "inv m \<Longrightarrow> put k v (put k v' m) = put k v m"
  by (rule ext) (auto simp: inv_put get_put)

lemma put_commute: "inv m \<Longrightarrow> k \<noteq> k' \<Longrightarrow> put k v (put k' v' m) = put k' v' (put k v m)"
  by (rule ext) (auto simp: inv_put get_put)

lemma put_same: "inv m \<Longrightarrow> get m k = Some v \<Longrightarrow> put k v m = m"
  by (rule ext) (auto simp: inv_put get_put)

lemma del_put: "inv m \<Longrightarrow> del k (put k v m) = del k m"
  by (rule ext) (auto simp: inv_put inv_del get_put get_del)

lemma del_absent: "inv m \<Longrightarrow> get m k = None \<Longrightarrow> del k m = m"
  by (rule ext) (auto simp: inv_del get_del)

lemma inv_fold: "inv m \<Longrightarrow> inv (fold (\<lambda>(k, v). put k v) kvs m)"
  by (induction kvs arbitrary: m) (auto simp: inv_put)

lemma get_fold:
  "get (fold (\<lambda>(k, v). put k v) kvs m) k = (case map_of (rev kvs) k of None \<Rightarrow> get m k | Some v \<Rightarrow> Some v)"
  by (induction kvs arbitrary: m) (auto simp: get_put map_add_def split: option.splits)

end

subsection \<open>Sorted association lists provide it\<close>

lemma keys_sorted_Nil [simp]: "keys_sorted []"
  by (simp add: keys_sorted_def)

lemma keys_sorted_Cons:
  "keys_sorted ((k, v) # m) \<longleftrightarrow> (\<forall>k' \<in> fst ` set m. k < k') \<and> keys_sorted m"
  by (auto simp: keys_sorted_def)

lemma keys_mput [simp]: "fst ` set (mput k v m) = insert k (fst ` set m)"
  by (induction k v m rule: mput.induct) auto

lemma set_mput_subset: "set (mput k v m) \<subseteq> insert (k, v) (set m)"
  by (induction k v m rule: mput.induct) auto

lemma map_of_mput: "map_of (mput k v m) k' = (if k' = k then Some v else map_of m k')"
  by (induction k v m rule: mput.induct) auto

lemma map_of_mput_if:
  "map_of (if b then mput k v m else m) k' = (if b \<and> k' = k then Some v else map_of m k')"
  by (simp add: map_of_mput)

lemma map_of_mdel: "map_of (mdel k m) k' = (if k' = k then None else map_of m k')"
  by (induction m) (auto simp: mdel_def)

lemma keys_sorted_mput: "keys_sorted m \<Longrightarrow> keys_sorted (mput k v m)"
  by (induction k v m rule: mput.induct) (auto simp: keys_sorted_Cons)

lemma keys_sorted_mdel: "keys_sorted m \<Longrightarrow> keys_sorted (mdel k m)"
  by (induction m) (auto simp: mdel_def keys_sorted_Cons)

lemma keys_sorted_distinct: "keys_sorted m \<Longrightarrow> distinct (map fst m)"
  unfolding keys_sorted_def by (induction m) auto

lemma keys_sorted_set_eq:
  "keys_sorted m \<Longrightarrow> keys_sorted m' \<Longrightarrow> set m = set m' \<Longrightarrow> m = m'"
proof (induction m arbitrary: m')
  case Nil
  then show ?case by simp
next
  case (Cons p m)
  obtain k v where p: "p = (k, v)" by (cases p)
  from Cons.prems obtain q n where m': "m' = q # n" by (cases m') auto
  obtain k' v' where q: "q = (k', v')" by (cases q)
  from Cons.prems have s: "\<And>x. x \<in> fst ` set m \<Longrightarrow> k < x" "\<And>x. x \<in> fst ` set n \<Longrightarrow> k' < x"
    and sm: "keys_sorted m" "keys_sorted n"
    by (auto simp: p q m' keys_sorted_Cons)
  have e: "insert (k, v) (set m) = insert (k', v') (set n)"
    using Cons.prems by (simp add: p q m')
  have "(k, v) = (k', v')"
    using e s by (metis fst_conv image_eqI insert_iff less_asym)
  moreover have "(k, v) \<notin> set m" "(k', v') \<notin> set n"
    using s by force+
  ultimately have "set m = set n" using e by (metis insert_ident)
  with Cons.IH sm \<open>(k, v) = (k', v')\<close> show ?case by (simp add: p q m')
qed

lemma keys_sorted_ext:
  assumes "keys_sorted m" "keys_sorted m'" "\<And>k. map_of m k = map_of m' k"
  shows "m = m'"
proof (rule keys_sorted_set_eq [OF assms(1,2)])
  have "map_of m = map_of m'" using assms(3) by blast
  then show "set m = set m'"
    using map_of_eq_Some_iff keys_sorted_distinct [OF assms(1)] keys_sorted_distinct [OF assms(2)]
    by (metis subset_antisym subrelI)
qed

interpretation gm: finite_map "[]" mput mdel map_of keys_sorted
  by unfold_locales
    (auto simp: map_of_mput map_of_mdel keys_sorted_mput keys_sorted_mdel intro: keys_sorted_ext)

subsection \<open>Map literals\<close>

lemma keys_sorted_gomap_of [simp]: "keys_sorted (gomap_of kvs)"
  unfolding gomap_of_def by (rule gm.inv_fold) simp

lemma map_of_gomap_of [simp]: "map_of (gomap_of kvs) k = map_of (rev kvs) k"
  unfolding gomap_of_def by (simp add: gm.get_fold split: option.splits)

lemma keys_sorted_mcopy: "keys_sorted d \<Longrightarrow> keys_sorted (mcopy m d)"
  unfolding mcopy_def by (rule gm.inv_fold)

lemma map_of_rev_distinct: "distinct (map fst kvs) \<Longrightarrow> map_of (rev kvs) = map_of kvs"
  by (rule map_of_inject_set [THEN iffD2]) (auto simp: rev_map [symmetric])

lemma map_of_mcopy:
  "keys_sorted m \<Longrightarrow> map_of (mcopy m d) k = (case map_of m k of None \<Rightarrow> map_of d k | Some v \<Rightarrow> Some v)"
  unfolding mcopy_def by (simp add: gm.get_fold map_of_rev_distinct keys_sorted_distinct)

text \<open>A property of every entry, stated by lookups.\<close>

lemma list_all_gomap:
  "keys_sorted m \<Longrightarrow> list_all P m \<longleftrightarrow> (\<forall>k v. map_of m k = Some v \<longrightarrow> P (k, v))"
  by (auto simp: list_all_iff keys_sorted_distinct)

lemma set_fold_mput: "set (fold (\<lambda>(k, v). mput k v) kvs m) \<subseteq> set m \<union> set kvs"
  by (induction kvs arbitrary: m) (use set_mput_subset in fastforce)+

lemma set_gomap_of: "set (gomap_of kvs) \<subseteq> set kvs"
  unfolding gomap_of_def using set_fold_mput [of kvs "[]"] by simp

lemma gomap_of_distinct:
  "keys_sorted kvs \<Longrightarrow> gomap_of kvs = kvs"
  by (rule gm.ext) (auto simp: map_of_rev_distinct keys_sorted_distinct)

lemma gomap_of_eq_Nil [simp]: "gomap_of kvs = [] \<longleftrightarrow> kvs = []"
proof
  assume "gomap_of kvs = []"
  then have "fst ` set (rev kvs) = {}"
    by (metis map_of_eq_None_iff map_of_gomap_of map_of.simps(1) equals0I)
  then show "kvs = []" by simp
qed (simp add: gomap_of_def)

end
