(* ===== verification/Go_Num.thy ===== *)
theory Go_Num
  imports Go_Base
begin

section \<open>Numbers and their text\<close>

text \<open>
  \<open>strconv.ParseInt\<close> (base 10, 64 bits) with \<open>strconv.Atoi\<close>, which computes the same on a
  64-bit platform, \<open>strconv.Itoa\<close>, and Go's wrapping \<open>int64\<close>. The round trip between
  printing and parsing is \<open>ParseInt_Itoa\<close>.
\<close>

datatype num_error = ErrSyntax | ErrRange

type_synonym int64 = "64 word"

definition is_digit :: "char \<Rightarrow> bool" where
  "is_digit c = (let n = of_char c :: int in 48 \<le> n \<and> n \<le> 57)"

definition digit_val :: "char \<Rightarrow> int" where
  "digit_val c = of_char c - 48"

definition digit_char :: "int \<Rightarrow> char" where
  "digit_char d = char_of (48 + d)"

lemma digit_char_range: "0 \<le> d \<Longrightarrow> d < 10 \<Longrightarrow> (of_char (digit_char d) :: int) = 48 + d"
  by (simp add: digit_char_def)

lemma is_digit_char [simp]: "0 \<le> d \<Longrightarrow> d < 10 \<Longrightarrow> is_digit (digit_char d)"
  by (simp add: is_digit_def digit_char_range)

lemma digit_val_char [simp]: "0 \<le> d \<Longrightarrow> d < 10 \<Longrightarrow> digit_val (digit_char d) = d"
  by (simp add: digit_val_def digit_char_range)

text \<open>\<open>strconv.ParseUint\<close>: the digits left to right; the first character that is no digit is
  a syntax error, the first prefix that does not fit 64 bits (2 to the power 64) a range
  error.\<close>

definition two63 :: int where
  "two63 = 9223372036854775808"

definition two64 :: int where
  "two64 = 18446744073709551616"

lemma two63_eq: "two63 = 2 ^ 63"
  by (simp add: two63_def)

lemma two64_eq: "two64 = 2 ^ 64"
  by (simp add: two64_def)

fun uint_loop :: "int \<Rightarrow> go_string \<Rightarrow> num_error + int" where
  "uint_loop n [] = Inr n"
| "uint_loop n (c # s) =
     (if \<not> is_digit c then Inl ErrSyntax
      else if two64 \<le> 10 * n + digit_val c then Inl ErrRange
      else uint_loop (10 * n + digit_val c) s)"

definition ParseUint :: "go_string \<Rightarrow> num_error + int" where
  "ParseUint s = (if s = [] then Inl ErrSyntax else uint_loop 0 s)"

definition signed_value :: "bool \<Rightarrow> go_string \<Rightarrow> num_error + int" where
  "signed_value neg s =
     (case ParseUint s of
        Inl e \<Rightarrow> Inl e
      | Inr un \<Rightarrow>
          if \<not> neg \<and> two63 \<le> un then Inl ErrRange
          else if neg \<and> two63 < un then Inl ErrRange
          else Inr (if neg then - un else un))"

definition ParseInt :: "go_string \<Rightarrow> num_error + int" where
  "ParseInt s =
     (case s of
        [] \<Rightarrow> Inl ErrSyntax
      | c # r \<Rightarrow>
          if c = CHR ''+'' then signed_value False r
          else if c = CHR ''-'' then signed_value True r
          else signed_value False s)"

abbreviation Atoi :: "go_string \<Rightarrow> num_error + int" where
  "Atoi \<equiv> ParseInt"

text \<open>\<open>strconv.Itoa\<close>, and \<open>fmt\<close>'s \<open>%d\<close>.\<close>

function digits :: "int \<Rightarrow> go_string" where
  "digits n = (if n < 10 then [digit_char n] else digits (n div 10) @ [digit_char (n mod 10)])"
  by pat_completeness auto
termination
  by (relation "measure nat") auto

declare digits.simps [simp del]

definition Itoa :: "int \<Rightarrow> go_string" where
  "Itoa i = (if i < 0 then CHR ''-'' # digits (- i) else digits i)"

lemma digits_nonempty [simp]: "digits n \<noteq> []"
  by (subst digits.simps) simp

lemma digits_are_digits: "0 \<le> n \<Longrightarrow> list_all is_digit (digits n)"
proof (induction n rule: digits.induct)
  case (1 n)
  then show ?case by (cases "n < 10") (simp_all add: digits.simps [of n])
qed

lemma Itoa_nonempty [simp]: "Itoa i \<noteq> []"
  by (simp add: Itoa_def)

lemma uint_loop_append:
  "uint_loop n (s @ t) = (case uint_loop n s of Inl e \<Rightarrow> Inl e | Inr m \<Rightarrow> uint_loop m t)"
  by (induction n s rule: uint_loop.induct) auto

lemma uint_loop_digits: "0 \<le> n \<Longrightarrow> n < two64 \<Longrightarrow> uint_loop 0 (digits n) = Inr n"
proof (induction n rule: digits.induct)
  case (1 n)
  show ?case
  proof (cases "n < 10")
    case True
    with "1.prems" show ?thesis by (simp add: digits.simps [of n])
  next
    case False
    have "10 * (n div 10) + n mod 10 = n" by simp
    moreover from "1.prems" have "n div 10 < two64" by (simp add: two64_def)
    ultimately show ?thesis
      using False 1 by (simp add: digits.simps [of n] uint_loop_append)
  qed
qed

lemma digit_val_nonneg: "is_digit c \<Longrightarrow> 0 \<le> digit_val c"
  by (simp add: is_digit_def digit_val_def Let_def)

lemma uint_loop_bounds: "uint_loop n s = Inr m \<Longrightarrow> 0 \<le> n \<Longrightarrow> n < two64 \<Longrightarrow> 0 \<le> m \<and> m < two64"
  by (induction n s rule: uint_loop.induct) (auto split: if_splits simp: digit_val_nonneg)

lemma ParseUint_digits: "0 \<le> n \<Longrightarrow> n < two64 \<Longrightarrow> ParseUint (digits n) = Inr n"
  by (simp add: ParseUint_def uint_loop_digits)

lemma digits_head: "0 \<le> n \<Longrightarrow> digits n = c # s \<Longrightarrow> is_digit c"
  using digits_are_digits [of n] by simp

lemma not_sign_digit: "is_digit c \<Longrightarrow> c \<noteq> CHR ''+'' \<and> c \<noteq> CHR ''-''"
  by (auto simp: is_digit_def)

theorem ParseInt_Itoa: "- two63 \<le> i \<Longrightarrow> i < two63 \<Longrightarrow> ParseInt (Itoa i) = Inr i"
proof (cases "i < 0")
  case True
  assume "- two63 \<le> i"
  with True show ?thesis
    by (simp add: ParseInt_def Itoa_def signed_value_def ParseUint_digits two63_def two64_def)
next
  case False
  assume "i < two63"
  with False have n: "0 \<le> i" "i < two63" "i < two64" by (auto simp: two63_def two64_def)
  obtain c s where t: "digits i = c # s" by (cases "digits i") auto
  then have "c \<noteq> CHR ''+'' \<and> c \<noteq> CHR ''-''"
    using digits_head [OF n(1)] not_sign_digit by blast
  moreover have "ParseUint (c # s) = Inr i"
    using ParseUint_digits [of i] n t by simp
  ultimately show ?thesis
    using False n t by (simp add: ParseInt_def Itoa_def signed_value_def)
qed

lemma signed_value_bounds: "signed_value neg s = Inr i \<Longrightarrow> - two63 \<le> i \<and> i < two63"
  by (auto simp: signed_value_def ParseUint_def two63_def two64_def
      dest!: uint_loop_bounds split: if_splits sum.splits)

lemma ParseInt_bounds: "ParseInt s = Inr i \<Longrightarrow> - two63 \<le> i \<and> i < two63"
  by (auto simp: ParseInt_def dest!: signed_value_bounds split: list.splits if_splits)

lemma digits_inj: "0 \<le> m \<Longrightarrow> 0 \<le> n \<Longrightarrow> digits m = digits n \<Longrightarrow> m = n"
proof (induction m arbitrary: n rule: digits.induct)
  case (1 m)
  have inj: "digit_char a = digit_char b \<Longrightarrow> 0 \<le> a \<Longrightarrow> a < 10 \<Longrightarrow> 0 \<le> b \<Longrightarrow> b < 10 \<Longrightarrow> a = b" for a b
    by (metis digit_val_char)
  have ne: "[] \<noteq> digits k" for k
    using digits_nonempty [of k] by metis
  show ?case
  proof (cases "m < 10 \<or> n < 10")
    case True
    with "1.prems" inj show ?thesis
      by (auto simp: ne digits.simps [of m] digits.simps [of n] split: if_splits)
  next
    case False
    with "1.prems" have "digits (m div 10) = digits (n div 10)" "digit_char (m mod 10) = digit_char (n mod 10)"
      by (auto simp: digits.simps [of m] digits.simps [of n])
    with False 1 inj [of "m mod 10" "n mod 10"] have "m div 10 = n div 10" "m mod 10 = n mod 10"
      by auto
    then show ?thesis by (metis div_mult_mod_eq)
  qed
qed

end
