(* ===== verification/Json.thy ===== *)
theory Json
  imports Go_Map Go_Num
begin

section \<open>JSON values\<close>

text \<open>
  The values the module builds as \<open>map[string]interface{}\<close>, \<open>[]interface{}\<close> and structs
  with JSON tags. A struct stored in an interface value is represented by the JSON value
  that \<open>encoding/json\<close> writes for it; an object has its keys in ascending order, as the
  encoder writes the keys of a map. Numbers are the integers the program itself writes.
  The collection \<open>json_simps\<close> reduces lookups in object literals.
\<close>

named_theorems json_simps \<open>lookups in JSON object literals\<close>

datatype json =
    JNull
  | JBool bool
  | JNum int
  | JStr string
  | JArr "json list"
  | JObj "(string \<times> json) list"

text \<open>An object literal, with the entries in the order of the source.\<close>

definition obj :: "(string \<times> json) list \<Rightarrow> json" where
  "obj kvs = JObj (gomap_of kvs)"

abbreviation JStrs :: "string list \<Rightarrow> json" where
  "JStrs xs \<equiv> JArr (map JStr xs)"

text \<open>A header map \<open>map[string][]string\<close>.\<close>

definition jheaders :: "(string list) gomap \<Rightarrow> json" where
  "jheaders h = JObj (map (\<lambda>(k, vs). (k, JStrs vs)) h)"

fun jget :: "string \<Rightarrow> json \<Rightarrow> json option" where
  "jget k (JObj m) = map_of m k"
| "jget k _ = None"

fun jpath :: "string list \<Rightarrow> json \<Rightarrow> json option" where
  "jpath [] j = Some j"
| "jpath (k # ks) j = (case jget k j of None \<Rightarrow> None | Some j' \<Rightarrow> jpath ks j')"

text \<open>Every object in a value has sorted, distinct keys.\<close>

fun canonical :: "json \<Rightarrow> bool" where
  "canonical (JArr js) = list_all canonical js"
| "canonical (JObj m) = (keys_sorted m \<and> list_all (\<lambda>(k, j). canonical j) m)"
| "canonical _ = True"

lemma jget_obj [json_simps, simp]: "jget k (obj kvs) = map_of (rev kvs) k"
  by (simp add: obj_def)

lemma obj_neq [simp]: "obj kvs \<noteq> JNull" "obj kvs \<noteq> JArr js" "obj kvs \<noteq> JStr s"
  by (simp_all add: obj_def)

lemma canonical_obj: "list_all (\<lambda>(k, j). canonical j) kvs \<Longrightarrow> canonical (obj kvs)"
  using set_gomap_of [of kvs] by (auto simp: obj_def list_all_iff)

lemma canonical_JStrs [simp]: "canonical (JStrs xs)"
  by (simp add: list_all_iff)

lemma map_of_map_snd: "map_of (map (\<lambda>(k, v). (k, f v)) m) k = map_option f (map_of m k)"
  by (induction m) auto

lemma keys_sorted_map_snd [simp]: "keys_sorted (map (\<lambda>(k, v). (k, f v)) m) = keys_sorted m"
  by (simp add: keys_sorted_def case_prod_beta comp_def)

lemma canonical_jheaders [simp]: "keys_sorted h \<Longrightarrow> canonical (jheaders h)"
  by (simp add: jheaders_def list_all_iff case_prod_beta)

lemma jget_jheaders [json_simps, simp]: "jget k (jheaders h) = map_option JStrs (map_of h k)"
  by (simp add: jheaders_def map_of_map_snd)

end
