(* ===== verification/Kube.thy ===== *)
theory Kube
  imports Json
begin

section \<open>Kubernetes objects and the world outside\<close>

text \<open>
  The fields of the Kubernetes API types the module reads
  (\<open>networkingv1.Ingress\<close>, \<open>corev1.Secret\<close>, \<open>corev1.ConfigMap\<close>), and the record \<open>env\<close> of
  what the module calls outside its own sources: the HTTP transport to Caddy's admin
  endpoint, the Kubernetes client, and \<open>encoding/json\<close>. These are parameters of the model:
  every effectful definition takes an \<open>env\<close> and threads the state \<open>'w\<close> of the outside
  world through its calls in the order the code makes them. What a theorem relies on of
  them is a hypothesis of that theorem.
\<close>

type_synonym go_error = string

subsection \<open>Ingress\<close>

datatype path_type = PathTypeExact | PathTypePrefix | PathTypeImplementationSpecific

record service_backend =
  svc_name :: string
  svc_port :: int

record http_path =
  path :: string
  pathType :: "path_type option"
  backendService :: "service_backend option"

record ingress_rule =
  host :: string
  http_paths :: "http_path list option"

record ingress_tls =
  tls_hosts :: "string list"
  secretName :: string

record ingress =
  ing_namespace :: string
  ing_name :: string
  ing_uid :: string
  annotations :: "string gomap"
  ingressClassName :: "string option"
  ing_tls :: "ingress_tls list"
  rules :: "ingress_rule list"

text \<open>Reading a map of strings with an index expression: a missing key reads as the empty
  string.\<close>

definition mindex :: "string gomap \<Rightarrow> string \<Rightarrow> string" where
  "mindex m k = (case map_of m k of None \<Rightarrow> [] | Some v \<Rightarrow> v)"

lemma mindex_mput: "mindex (mput k v m) k' = (if k' = k then v else mindex m k')"
  by (simp add: mindex_def map_of_mput)

subsection \<open>Secrets, ConfigMaps, API errors\<close>

record secret =
  secret_type :: string
  secret_data :: "string gomap"

record owner_reference =
  or_apiVersion :: string
  or_kind :: string
  or_name :: string
  or_uid :: string
  or_controller :: bool
  or_blockOwnerDeletion :: bool

record configmap =
  cm_name :: string
  cm_namespace :: string
  cm_labels :: "string gomap"
  cm_owners :: "owner_reference list"
  cm_data :: "string gomap"

text \<open>What an informer hands to its handlers, an \<open>interface{}\<close>: an object of one of the watched
  types, or something else, such as the tombstone client-go delivers for a deletion it only
  noticed when it listed again.\<close>

datatype informer_object = IngressObject ingress | ConfigMapObject configmap | OtherObject

datatype kube_error = NotFound string | AlreadyExists string | KubeError string

fun kube_text :: "kube_error \<Rightarrow> go_error" where
  "kube_text (NotFound t) = t"
| "kube_text (AlreadyExists t) = t"
| "kube_text (KubeError t) = t"

fun IsNotFound :: "kube_error \<Rightarrow> bool" where
  "IsNotFound (NotFound t) = True"
| "IsNotFound _ = False"

fun IsAlreadyExists :: "kube_error \<Rightarrow> bool" where
  "IsAlreadyExists (AlreadyExists t) = True"
| "IsAlreadyExists _ = False"

subsection \<open>HTTP\<close>

record request =
  rq_method :: string
  rq_url :: string
  rq_body :: "string option"
  rq_ctype :: "string option"

record response =
  status :: int
  resp_body :: string

subsection \<open>The environment\<close>

text \<open>
  \<^item> \<open>new_request\<close>: the error of \<open>http.NewRequestWithContext\<close> for a method and URL, if any;
  \<^item> \<open>http_do\<close>: one exchange, a transport error or a response whose body has been read;
  \<^item> \<open>backoff\<close>: the \<open>select\<close> between the context and a timer; an error when the context is done;
  \<^item> \<open>json_marshal\<close>, \<open>json_unmarshal\<close>: \<open>encoding/json\<close>;
  \<^item> \<open>range_keys\<close>: the order in which \<open>range\<close> visits a map with the given keys, which Go leaves open;
  \<^item> \<open>get_secret\<close>, \<open>get_configmap\<close>, \<open>create_configmap\<close>, \<open>patch_ingress\<close>: the Kubernetes client;
  \<^item> \<open>redis_ping\<close>, \<open>redis_set\<close>, \<open>redis_get\<close>, \<open>redis_del\<close>, \<open>redis_keys\<close>: the Redis client.
\<close>

record 'w env =
  new_request :: "string \<Rightarrow> string \<Rightarrow> go_error option"
  http_do :: "request \<Rightarrow> 'w \<Rightarrow> (go_error + response) \<times> 'w"
  backoff :: "nat \<Rightarrow> 'w \<Rightarrow> go_error option \<times> 'w"
  json_marshal :: "json \<Rightarrow> go_error + string"
  json_unmarshal :: "string \<Rightarrow> go_error + json"
  range_keys :: "string list \<Rightarrow> 'w \<Rightarrow> string list \<times> 'w"
  get_secret :: "string \<Rightarrow> string \<Rightarrow> 'w \<Rightarrow> (kube_error + secret) \<times> 'w"
  get_configmap :: "string \<Rightarrow> string \<Rightarrow> 'w \<Rightarrow> (kube_error + configmap) \<times> 'w"
  create_configmap :: "string \<Rightarrow> configmap \<Rightarrow> 'w \<Rightarrow> kube_error option \<times> 'w"
  patch_ingress :: "string \<Rightarrow> string \<Rightarrow> string \<Rightarrow> 'w \<Rightarrow> kube_error option \<times> 'w"
  redis_ping :: "string \<Rightarrow> 'w \<Rightarrow> go_error option \<times> 'w"
  redis_set :: "string \<Rightarrow> string \<Rightarrow> 'w \<Rightarrow> go_error option \<times> 'w"
  redis_get :: "string \<Rightarrow> 'w \<Rightarrow> (go_error + string) \<times> 'w"
  redis_del :: "string \<Rightarrow> 'w \<Rightarrow> go_error option \<times> 'w"
  redis_keys :: "string \<Rightarrow> 'w \<Rightarrow> (go_error + string list) \<times> 'w"

text \<open>An environment in which nothing answers: every call fails and the world does not change.
  The witnesses of the theorems about errors use it, or override single fields of it.\<close>

definition offline :: "'w env" where
  "offline =
     \<lparr>new_request = (\<lambda>m u. None),
      http_do = (\<lambda>rq w. (Inl ''connection refused'', w)),
      backoff = (\<lambda>n w. (None, w)),
      json_marshal = (\<lambda>j. Inl ''unsupported''),
      json_unmarshal = (\<lambda>s. Inl ''unsupported''),
      range_keys = (\<lambda>ks w. (ks, w)),
      get_secret = (\<lambda>ns nm w. (Inl (NotFound ''not found''), w)),
      get_configmap = (\<lambda>ns nm w. (Inl (NotFound ''not found''), w)),
      create_configmap = (\<lambda>ns cm w. (Some (KubeError ''refused''), w)),
      patch_ingress = (\<lambda>ns nm p w. (Some (KubeError ''refused''), w)),
      redis_ping = (\<lambda>addr w. (Some ''connection refused'', w)),
      redis_set = (\<lambda>k v w. (Some ''connection refused'', w)),
      redis_get = (\<lambda>k w. (Inl ''connection refused'', w)),
      redis_del = (\<lambda>k w. (Some ''connection refused'', w)),
      redis_keys = (\<lambda>p w. (Inl ''connection refused'', w))\<rparr>"

end
