(* ===== verification/Annotation_Keys.thy ===== *)
theory Annotation_Keys
  imports Kube
begin

section \<open>The annotation names (annotations.go)\<close>

text \<open>
  The constants of \<open>annotations.go\<close>, under their Go names. \<open>annotation_key_defs\<close> unfolds
  them all; \<open>annotation_keys\<close> lists them in the order of the source.
\<close>

named_theorems annotation_key_defs \<open>definitions of the annotation names\<close>

definition annotationWhitelist :: string where [annotation_key_defs]:
  "annotationWhitelist = ''caddy.ingress/whitelist-source-range''"

definition annotationBlocklist :: string where [annotation_key_defs]:
  "annotationBlocklist = ''caddy.ingress/blocklist-source-range''"

definition annotationSSLRedirect :: string where [annotation_key_defs]:
  "annotationSSLRedirect = ''caddy.ingress/ssl-redirect''"

definition annotationProxyReadTimeout :: string where [annotation_key_defs]:
  "annotationProxyReadTimeout = ''caddy.ingress/proxy-read-timeout''"

definition annotationProxySendTimeout :: string where [annotation_key_defs]:
  "annotationProxySendTimeout = ''caddy.ingress/proxy-send-timeout''"

definition annotationProxyConnectTimeout :: string where [annotation_key_defs]:
  "annotationProxyConnectTimeout = ''caddy.ingress/proxy-connect-timeout''"

definition annotationProxyBodySize :: string where [annotation_key_defs]:
  "annotationProxyBodySize = ''caddy.ingress/proxy-body-size''"

definition annotationBackendProtocol :: string where [annotation_key_defs]:
  "annotationBackendProtocol = ''caddy.ingress/backend-protocol''"

definition annotationBackendTLSInsecure :: string where [annotation_key_defs]:
  "annotationBackendTLSInsecure = ''caddy.ingress/backend-tls-insecure-skip-verify''"

definition annotationPermanentRedirect :: string where [annotation_key_defs]:
  "annotationPermanentRedirect = ''caddy.ingress/permanent-redirect''"

definition annotationTemporalRedirect :: string where [annotation_key_defs]:
  "annotationTemporalRedirect = ''caddy.ingress/temporal-redirect''"

definition annotationRedirectCode :: string where [annotation_key_defs]:
  "annotationRedirectCode = ''caddy.ingress/redirect-code''"

definition annotationRewriteTarget :: string where [annotation_key_defs]:
  "annotationRewriteTarget = ''caddy.ingress/rewrite-target''"

definition annotationUpstreamVhost :: string where [annotation_key_defs]:
  "annotationUpstreamVhost = ''caddy.ingress/upstream-vhost''"

definition annotationXForwardedPrefix :: string where [annotation_key_defs]:
  "annotationXForwardedPrefix = ''caddy.ingress/x-forwarded-prefix''"

definition annotationServerAlias :: string where [annotation_key_defs]:
  "annotationServerAlias = ''caddy.ingress/server-alias''"

definition annotationLimitRPS :: string where [annotation_key_defs]:
  "annotationLimitRPS = ''caddy.ingress/limit-rps''"

definition annotationProxyNextUpstreamTries :: string where [annotation_key_defs]:
  "annotationProxyNextUpstreamTries = ''caddy.ingress/proxy-next-upstream-tries''"

definition annotationProxyHTTPVersion :: string where [annotation_key_defs]:
  "annotationProxyHTTPVersion = ''caddy.ingress/proxy-http-version''"

definition annotationWAF :: string where [annotation_key_defs]:
  "annotationWAF = ''caddy.ingress/waf''"

definition annotationEnableCORS :: string where [annotation_key_defs]:
  "annotationEnableCORS = ''caddy.ingress/enable-cors''"

definition annotationCORSAllowOrigin :: string where [annotation_key_defs]:
  "annotationCORSAllowOrigin = ''caddy.ingress/cors-allow-origin''"

definition annotationCORSAllowMethods :: string where [annotation_key_defs]:
  "annotationCORSAllowMethods = ''caddy.ingress/cors-allow-methods''"

definition annotationCORSAllowHeaders :: string where [annotation_key_defs]:
  "annotationCORSAllowHeaders = ''caddy.ingress/cors-allow-headers''"

definition annotationCORSExposeHeaders :: string where [annotation_key_defs]:
  "annotationCORSExposeHeaders = ''caddy.ingress/cors-expose-headers''"

definition annotationCORSAllowCredentials :: string where [annotation_key_defs]:
  "annotationCORSAllowCredentials = ''caddy.ingress/cors-allow-credentials''"

definition annotationCORSMaxAge :: string where [annotation_key_defs]:
  "annotationCORSMaxAge = ''caddy.ingress/cors-max-age''"

definition annotationAccessLog :: string where [annotation_key_defs]:
  "annotationAccessLog = ''caddy.ingress/access-log''"

definition annotationRequestHeaders :: string where [annotation_key_defs]:
  "annotationRequestHeaders = ''caddy.ingress/request-headers''"

definition annotationResponseHeaders :: string where [annotation_key_defs]:
  "annotationResponseHeaders = ''caddy.ingress/response-headers''"

definition annotationTLSHandler :: string where [annotation_key_defs]:
  "annotationTLSHandler = ''caddy.ingress/tls''"

definition annotationTLSOnDemand :: string where [annotation_key_defs]:
  "annotationTLSOnDemand = ''caddy.ingress/tls-ondemand''"

definition annotationTLSCA :: string where [annotation_key_defs]:
  "annotationTLSCA = ''caddy.ingress/tls-ca''"

definition annotationTLSCASecret :: string where [annotation_key_defs]:
  "annotationTLSCASecret = ''caddy.ingress/tls-ca-secret''"

definition annotationWAFRulesConfigMap :: string where [annotation_key_defs]:
  "annotationWAFRulesConfigMap = ''caddy.ingress/waf-rules-configmap''"

definition annotationBasicAuthSecret :: string where [annotation_key_defs]:
  "annotationBasicAuthSecret = ''caddy.ingress/basic-auth-secret''"

definition annotationBasicAuthRealm :: string where [annotation_key_defs]:
  "annotationBasicAuthRealm = ''caddy.ingress/basic-auth-realm''"

definition annotationAuthPolicy :: string where [annotation_key_defs]:
  "annotationAuthPolicy = ''caddy.ingress/auth-policy''"

definition annotation_keys :: "string list" where
  "annotation_keys =
    [annotationWhitelist,
     annotationBlocklist,
     annotationSSLRedirect,
     annotationProxyReadTimeout,
     annotationProxySendTimeout,
     annotationProxyConnectTimeout,
     annotationProxyBodySize,
     annotationBackendProtocol,
     annotationBackendTLSInsecure,
     annotationPermanentRedirect,
     annotationTemporalRedirect,
     annotationRedirectCode,
     annotationRewriteTarget,
     annotationUpstreamVhost,
     annotationXForwardedPrefix,
     annotationServerAlias,
     annotationLimitRPS,
     annotationProxyNextUpstreamTries,
     annotationProxyHTTPVersion,
     annotationWAF,
     annotationEnableCORS,
     annotationCORSAllowOrigin,
     annotationCORSAllowMethods,
     annotationCORSAllowHeaders,
     annotationCORSExposeHeaders,
     annotationCORSAllowCredentials,
     annotationCORSMaxAge,
     annotationAccessLog,
     annotationRequestHeaders,
     annotationResponseHeaders,
     annotationTLSHandler,
     annotationTLSOnDemand,
     annotationTLSCA,
     annotationTLSCASecret,
     annotationWAFRulesConfigMap,
     annotationBasicAuthSecret,
     annotationBasicAuthRealm,
     annotationAuthPolicy]"

lemma annotation_keys_prefix: "list_all (\<lambda>k. HasPrefix k ''caddy.ingress/'') annotation_keys"
  by code_simp

lemma annotation_keys_distinct: "distinct annotation_keys"
  by code_simp

end
