(* ===== verification/Annotations.thy ===== *)
theory Annotations
  imports Annotation_Keys
begin

section \<open>Parsing and resolving annotations (annotations.go)\<close>

text \<open>
  The types and functions of \<open>annotations.go\<close>: the value parsers, the three fetches from the
  Kubernetes API, and \<open>resolveAnnotations\<close>, which turns the annotations of an Ingress into
  an \<open>ingressAnnotations\<close> record. Logging is left out. A nil slice is the empty list, a nil
  interface value is \<^const>\<open>JNull\<close>, a nil pointer is \<^const>\<open>None\<close>.
\<close>

subsection \<open>Types\<close>

record headerConfig =
  hdr_set :: "string gomap"
  hdr_delete :: "string list"

definition headerConfig_empty :: "headerConfig \<Rightarrow> bool" where
  "headerConfig_empty h = (hdr_set h = [] \<and> hdr_delete h = [])"

record corsConfig =
  origins :: "string list"
  allowMethods :: string
  allowHeaders :: string
  exposeHeaders :: string
  allowCreds :: bool
  maxAge :: int

definition isWildcard :: "corsConfig \<Rightarrow> bool" where
  "isWildcard c = (length (origins c) = 1 \<and> origins c ! 0 = ''*'')"

record basicAuthAccount =
  Username :: string
  Password :: string

record basicAuthConfig =
  realm :: string
  accounts :: "basicAuthAccount list"

record proxyConfig =
  readTimeout :: string
  sendTimeout :: string
  connectTimeout :: string
  maxBodySize :: int64
  backendTLS :: bool
  backendTLSInsecure :: bool
  httpVersion :: string
  upstreamVhost :: string
  xForwardedPrefix :: string
  retries :: int

record ingressAnnotations =
  ann_namespace :: string
  ann_name :: string
  whitelist :: "string list"
  blocklist :: "string list"
  sslRedirect :: bool
  permanentRedirect :: string
  temporalRedirect :: string
  redirectCode :: int
  rewriteTarget :: string
  serverAliases :: "string list"
  limitRPS :: int
  cors :: "corsConfig option"
  accessLogDisabled :: bool
  requestHeaders :: headerConfig
  responseHeaders :: headerConfig
  tlsHandler :: string
  tlsOnDemand :: bool
  tlsCA :: string
  tlsCASecret :: string
  wafOverride :: "bool option"
  wafModeOverride :: string
  wafDirectives :: "string list"
  proxy :: proxyConfig
  basicAuth :: "basicAuthConfig option"
  authPolicyHandler :: json

text \<open>Go's zero values.\<close>

definition zero_headers :: headerConfig where
  "zero_headers = \<lparr>hdr_set = [], hdr_delete = []\<rparr>"

definition zero_proxy :: proxyConfig where
  "zero_proxy = \<lparr>readTimeout = [], sendTimeout = [], connectTimeout = [], maxBodySize = 0,
     backendTLS = False, backendTLSInsecure = False, httpVersion = [], upstreamVhost = [],
     xForwardedPrefix = [], retries = 0\<rparr>"

definition new_annotations :: "ingress \<Rightarrow> ingressAnnotations" where
  "new_annotations ing =
     \<lparr>ann_namespace = ing_namespace ing, ann_name = ing_name ing, whitelist = [], blocklist = [],
      sslRedirect = False, permanentRedirect = [], temporalRedirect = [], redirectCode = 0,
      rewriteTarget = [], serverAliases = [], limitRPS = 0, cors = None,
      accessLogDisabled = False, requestHeaders = zero_headers, responseHeaders = zero_headers,
      tlsHandler = [], tlsOnDemand = False, tlsCA = [], tlsCASecret = [], wafOverride = None,
      wafModeOverride = [], wafDirectives = [], proxy = zero_proxy, basicAuth = None,
      authPolicyHandler = JNull\<rparr>"

subsection \<open>Value parsers\<close>

definition parseCIDRList :: "string \<Rightarrow> string list" where
  "parseCIDRList s = trimmed_fields CHR '','' s"

text \<open>One round of the loop of \<open>parseHeaderAnnotation\<close>.\<close>

definition header_part :: "headerConfig \<Rightarrow> string \<Rightarrow> headerConfig" where
  "header_part cfg raw_part =
     (let part = TrimSpace raw_part in
      if part = [] then cfg
      else if HasPrefix part ''-'' then
        (let name = TrimSpace (tl part) in
         if name \<noteq> [] then cfg\<lparr>hdr_delete := hdr_delete cfg @ [name]\<rparr> else cfg)
      else
        (case Cut CHR ''='' part of
           Some (k, v) \<Rightarrow> cfg\<lparr>hdr_set := mput (TrimSpace k) (TrimSpace v) (hdr_set cfg)\<rparr>
         | None \<Rightarrow> cfg))"

definition parseHeaderAnnotation :: "string \<Rightarrow> headerConfig" where
  "parseHeaderAnnotation raw = foldl header_part zero_headers (Split CHR '','' raw)"

definition parseTimeoutSeconds :: "string \<Rightarrow> string" where
  "parseTimeoutSeconds raw =
     (let s = TrimSpace raw in
      if s = [] \<or> s = ''0'' then []
      else if \<not> is_digit (last s) then s
      else s @ ''s'')"

datatype size_error = EmptyValue | ParseError string num_error

text \<open>The unit suffix: the multiplier and the string without it.\<close>

definition size_suffix :: "string \<Rightarrow> int64 \<times> string" where
  "size_suffix s =
     (if last s = CHR ''k'' \<or> last s = CHR ''K'' then (1024, butlast s)
      else if last s = CHR ''m'' \<or> last s = CHR ''M'' then (1024 * 1024, butlast s)
      else if last s = CHR ''g'' \<or> last s = CHR ''G'' then (1024 * 1024 * 1024, butlast s)
      else (1, s))"

definition parseBodySize :: "string \<Rightarrow> size_error + int64" where
  "parseBodySize raw =
     (let s = TrimSpace raw in
      if s = ''0'' then Inr 0
      else if s = [] then Inl EmptyValue
      else
        (case size_suffix s of
           (multiplier, num) \<Rightarrow>
             (case ParseInt (TrimSpace num) of
                Inl err \<Rightarrow> Inl (ParseError num err)
              | Inr n \<Rightarrow> Inr (word_of_int n * multiplier))))"

subsection \<open>Fetching from the Kubernetes API\<close>

definition fetchAuthPolicyHandler ::
    "'w env \<Rightarrow> string \<Rightarrow> string \<Rightarrow> 'w \<Rightarrow> (go_error + json) \<times> 'w" where
  "fetchAuthPolicyHandler e ns cmName w =
     (case get_configmap e ns cmName w of
        (Inl err, w') \<Rightarrow> (Inl (''get configmap '' @ ns @ ''/'' @ cmName @ '': '' @ kube_text err), w')
      | (Inr cm, w') \<Rightarrow>
          (case map_of (cm_data cm) ''handler'' of
             None \<Rightarrow> (Inl (''configmap '' @ ns @ ''/'' @ cmName @ '' has no 'handler' key''), w')
           | Some raw \<Rightarrow>
               (case json_unmarshal e raw of
                  Inl err \<Rightarrow>
                    (Inl (''configmap '' @ ns @ ''/'' @ cmName
                          @ '': invalid JSON in 'handler' key: '' @ err), w')
                | Inr h \<Rightarrow> (Inr h, w'))))"

text \<open>The lines that are neither blank nor comments, trimmed.\<close>

definition content_lines :: "string \<Rightarrow> string list" where
  "content_lines raw = filter (\<lambda>l. \<not> HasPrefix l ''#'') (trimmed_fields CHR 0x0A raw)"

definition fetchWAFDirectives ::
    "'w env \<Rightarrow> string \<Rightarrow> string \<Rightarrow> 'w \<Rightarrow> (go_error + string list) \<times> 'w" where
  "fetchWAFDirectives e ns cmName w =
     (case get_configmap e ns cmName w of
        (Inl err, w') \<Rightarrow> (Inl (''get configmap '' @ ns @ ''/'' @ cmName @ '': '' @ kube_text err), w')
      | (Inr cm, w') \<Rightarrow>
          (case map_of (cm_data cm) ''directives'' of
             None \<Rightarrow> (Inl (''configmap '' @ ns @ ''/'' @ cmName @ '' has no 'directives' key''), w')
           | Some raw \<Rightarrow> (Inr (content_lines raw), w')))"

text \<open>One line of the htpasswd file: an account, or nothing when the line has no colon or a
  hash that is not bcrypt.\<close>

definition htpasswd_line :: "string \<Rightarrow> basicAuthAccount option" where
  "htpasswd_line line =
     (case Cut CHR '':'' line of
        None \<Rightarrow> None
      | Some (username, hash) \<Rightarrow>
          if \<not> HasPrefix hash ''$2y$'' \<and> \<not> HasPrefix hash ''$2a$'' then None
          else Some \<lparr>Username = username, Password = hash\<rparr>)"

definition fetchBasicAuthAccounts ::
    "'w env \<Rightarrow> string \<Rightarrow> string \<Rightarrow> 'w \<Rightarrow> (go_error + basicAuthAccount list) \<times> 'w" where
  "fetchBasicAuthAccounts e ns name w =
     (case get_secret e ns name w of
        (Inl err, w') \<Rightarrow> (Inl (''get secret '' @ ns @ ''/'' @ name @ '': '' @ kube_text err), w')
      | (Inr sec, w') \<Rightarrow>
          (case map_of (secret_data sec) ''auth'' of
             None \<Rightarrow> (Inl (''secret '' @ ns @ ''/'' @ name @ '' has no 'auth' key''), w')
           | Some raw \<Rightarrow>
               (let accs = List.map_filter htpasswd_line (content_lines raw) in
                if accs = [] then
                  (Inl (''secret '' @ ns @ ''/'' @ name @ '': no valid bcrypt accounts found''), w')
                else (Inr accs, w'))))"

subsection \<open>resolveAnnotations\<close>

text \<open>
  The body of \<open>resolveAnnotations\<close>, one definition per section of the source. Each takes
  the annotation map \<open>a\<close> and the record built so far. An invalid value leaves the field as
  it was (the source logs a warning).
\<close>

definition resolve_access :: "string gomap \<Rightarrow> ingressAnnotations \<Rightarrow> ingressAnnotations" where
  "resolve_access a out =
     (let out = (let v = mindex a annotationWhitelist in
                 if v \<noteq> [] then out\<lparr>whitelist := parseCIDRList v\<rparr> else out);
          out = (let v = mindex a annotationBlocklist in
                 if v \<noteq> [] then out\<lparr>blocklist := parseCIDRList v\<rparr> else out);
          out = (let v = mindex a annotationSSLRedirect in
                 if v \<noteq> [] then out\<lparr>sslRedirect := EqualFold v ''true''\<rparr> else out)
      in out)"

definition resolve_timeouts :: "string gomap \<Rightarrow> proxyConfig \<Rightarrow> proxyConfig" where
  "resolve_timeouts a p =
     (let p = (let v = mindex a annotationProxyReadTimeout in
               if v \<noteq> [] then p\<lparr>readTimeout := parseTimeoutSeconds v\<rparr> else p);
          p = (let v = mindex a annotationProxySendTimeout in
               if v \<noteq> [] then p\<lparr>sendTimeout := parseTimeoutSeconds v\<rparr> else p);
          p = (let v = mindex a annotationProxyConnectTimeout in
               if v \<noteq> [] then p\<lparr>connectTimeout := parseTimeoutSeconds v\<rparr> else p)
      in p)"

definition resolve_body_size :: "string gomap \<Rightarrow> proxyConfig \<Rightarrow> proxyConfig" where
  "resolve_body_size a p =
     (let v = mindex a annotationProxyBodySize in
      if v \<noteq> [] then
        (case parseBodySize v of Inl err \<Rightarrow> p | Inr n \<Rightarrow> p\<lparr>maxBodySize := n\<rparr>)
      else p)"

definition resolve_backend :: "string gomap \<Rightarrow> proxyConfig \<Rightarrow> proxyConfig" where
  "resolve_backend a p =
     (let p = (if EqualFold (mindex a annotationBackendProtocol) ''https''
               then p\<lparr>backendTLS := True\<rparr> else p);
          p = (if EqualFold (mindex a annotationBackendTLSInsecure) ''true''
               then p\<lparr>backendTLSInsecure := True\<rparr> else p)
      in p)"

definition resolve_redirects :: "string gomap \<Rightarrow> ingressAnnotations \<Rightarrow> ingressAnnotations" where
  "resolve_redirects a out =
     (let out = (let v = mindex a annotationPermanentRedirect in
                 if v \<noteq> [] then out\<lparr>permanentRedirect := TrimSpace v\<rparr> else out);
          out = (let v = mindex a annotationTemporalRedirect in
                 if v \<noteq> [] then out\<lparr>temporalRedirect := TrimSpace v\<rparr> else out);
          out = (let v = mindex a annotationRedirectCode in
                 if v \<noteq> [] then
                   (case Atoi (TrimSpace v) of
                      Inl err \<Rightarrow> out
                    | Inr n \<Rightarrow> if 300 \<le> n \<and> n < 400 then out\<lparr>redirectCode := n\<rparr> else out)
                 else out)
      in out)"

definition resolve_rewrite :: "string gomap \<Rightarrow> ingressAnnotations \<Rightarrow> ingressAnnotations" where
  "resolve_rewrite a out =
     (let v = mindex a annotationRewriteTarget in
      if v \<noteq> [] then out\<lparr>rewriteTarget := TrimSpace v\<rparr> else out)"

definition resolve_upstream_headers :: "string gomap \<Rightarrow> proxyConfig \<Rightarrow> proxyConfig" where
  "resolve_upstream_headers a p =
     (let p = (let v = mindex a annotationUpstreamVhost in
               if v \<noteq> [] then p\<lparr>upstreamVhost := TrimSpace v\<rparr> else p);
          p = (let v = mindex a annotationXForwardedPrefix in
               if v \<noteq> [] then p\<lparr>xForwardedPrefix := TrimSpace v\<rparr> else p)
      in p)"

definition resolve_aliases :: "string gomap \<Rightarrow> ingressAnnotations \<Rightarrow> ingressAnnotations" where
  "resolve_aliases a out =
     (let v = mindex a annotationServerAlias in
      if v \<noteq> [] then out\<lparr>serverAliases := serverAliases out @ trimmed_fields CHR '','' v\<rparr> else out)"

text \<open>\<open>strconv.Atoi\<close> of a trimmed value, accepted when positive.\<close>

definition positive_int :: "string \<Rightarrow> int option" where
  "positive_int v =
     (case Atoi (TrimSpace v) of Inl err \<Rightarrow> None | Inr n \<Rightarrow> if 0 < n then Some n else None)"

definition resolve_limit :: "string gomap \<Rightarrow> ingressAnnotations \<Rightarrow> ingressAnnotations" where
  "resolve_limit a out =
     (let v = mindex a annotationLimitRPS in
      if v \<noteq> [] then
        (case positive_int v of None \<Rightarrow> out | Some n \<Rightarrow> out\<lparr>limitRPS := n\<rparr>)
      else out)"

definition resolve_retries :: "string gomap \<Rightarrow> proxyConfig \<Rightarrow> proxyConfig" where
  "resolve_retries a p =
     (let v = mindex a annotationProxyNextUpstreamTries in
      if v \<noteq> [] then
        (case positive_int v of None \<Rightarrow> p | Some n \<Rightarrow> p\<lparr>retries := n\<rparr>)
      else p)"

definition default_cors :: corsConfig where
  "default_cors =
     \<lparr>origins = [],
      allowMethods = ''GET, PUT, POST, DELETE, PATCH, OPTIONS'',
      allowHeaders = ''DNT,Keep-Alive,User-Agent,X-Requested-With,If-Modified-Since,Cache-Control,Content-Type,Range,Authorization'',
      exposeHeaders = [], allowCreds = False, maxAge = 1728000\<rparr>"

definition cors_origins :: "string gomap \<Rightarrow> string list" where
  "cors_origins a =
     (let v = mindex a annotationCORSAllowOrigin;
          os = (if v \<noteq> [] then trimmed_fields CHR '','' v else [])
      in if os = [] then [''*''] else os)"

definition resolve_cors_config :: "string gomap \<Rightarrow> corsConfig" where
  "resolve_cors_config a =
     (let cfg = default_cors\<lparr>origins := cors_origins a\<rparr>;
          cfg = (if EqualFold (mindex a annotationCORSAllowCredentials) ''true'' then
                   (if isWildcard cfg then cfg else cfg\<lparr>allowCreds := True\<rparr>)
                 else cfg);
          cfg = (let v = mindex a annotationCORSAllowMethods in
                 if v \<noteq> [] then cfg\<lparr>allowMethods := TrimSpace v\<rparr> else cfg);
          cfg = (let v = mindex a annotationCORSAllowHeaders in
                 if v \<noteq> [] then cfg\<lparr>allowHeaders := TrimSpace v\<rparr> else cfg);
          cfg = (let v = mindex a annotationCORSExposeHeaders in
                 if v \<noteq> [] then cfg\<lparr>exposeHeaders := TrimSpace v\<rparr> else cfg);
          cfg = (let v = mindex a annotationCORSMaxAge in
                 if v \<noteq> [] then
                   (case Atoi (TrimSpace v) of
                      Inl err \<Rightarrow> cfg
                    | Inr n \<Rightarrow> if 0 \<le> n then cfg\<lparr>maxAge := n\<rparr> else cfg)
                 else cfg)
      in cfg)"

definition resolve_cors :: "string gomap \<Rightarrow> ingressAnnotations \<Rightarrow> ingressAnnotations" where
  "resolve_cors a out =
     (if EqualFold (mindex a annotationEnableCORS) ''true''
      then out\<lparr>cors := Some (resolve_cors_config a)\<rparr> else out)"

definition resolve_http_version :: "string gomap \<Rightarrow> proxyConfig \<Rightarrow> proxyConfig" where
  "resolve_http_version a p =
     (let v = mindex a annotationProxyHTTPVersion in
      if v \<noteq> [] then p\<lparr>httpVersion := TrimSpace v\<rparr> else p)"

definition resolve_waf :: "string gomap \<Rightarrow> ingressAnnotations \<Rightarrow> ingressAnnotations" where
  "resolve_waf a out =
     (let v = ToLower (TrimSpace (mindex a annotationWAF)) in
      if v = ''off'' then out\<lparr>wafOverride := Some False\<rparr>
      else if v = ''on'' then out\<lparr>wafOverride := Some True, wafModeOverride := ''On''\<rparr>
      else if v = ''detection'' then
        out\<lparr>wafOverride := Some True, wafModeOverride := ''DetectionOnly''\<rparr>
      else out)"

definition resolve_waf_rules ::
    "'w env \<Rightarrow> ingress \<Rightarrow> ingressAnnotations \<times> 'w \<Rightarrow> ingressAnnotations \<times> 'w" where
  "resolve_waf_rules e ing = (\<lambda>(out, w).
     (let cmName = TrimSpace (mindex (annotations ing) annotationWAFRulesConfigMap) in
      if cmName \<noteq> [] then
        (case fetchWAFDirectives e (ing_namespace ing) cmName w of
           (Inl err, w') \<Rightarrow> (out, w')
         | (Inr directives, w') \<Rightarrow> (out\<lparr>wafDirectives := directives\<rparr>, w'))
      else (out, w)))"

definition resolve_log_headers_tls ::
    "string gomap \<Rightarrow> ingressAnnotations \<Rightarrow> ingressAnnotations" where
  "resolve_log_headers_tls a out =
     (let out = (if EqualFold (TrimSpace (mindex a annotationAccessLog)) ''false''
                 then out\<lparr>accessLogDisabled := True\<rparr> else out);
          out = (let raw = mindex a annotationRequestHeaders in
                 if raw \<noteq> [] then out\<lparr>requestHeaders := parseHeaderAnnotation raw\<rparr> else out);
          out = (let raw = mindex a annotationResponseHeaders in
                 if raw \<noteq> [] then out\<lparr>responseHeaders := parseHeaderAnnotation raw\<rparr> else out);
          out = out\<lparr>tlsHandler := ToLower (TrimSpace (mindex a annotationTLSHandler))\<rparr>;
          out = (if EqualFold (TrimSpace (mindex a annotationTLSOnDemand)) ''true''
                 then out\<lparr>tlsOnDemand := True\<rparr> else out);
          out = out\<lparr>tlsCA := TrimSpace (mindex a annotationTLSCA)\<rparr>;
          out = out\<lparr>tlsCASecret := TrimSpace (mindex a annotationTLSCASecret)\<rparr>
      in out)"

definition resolve_auth_policy ::
    "'w env \<Rightarrow> ingress \<Rightarrow> ingressAnnotations \<times> 'w \<Rightarrow> ingressAnnotations \<times> 'w" where
  "resolve_auth_policy e ing = (\<lambda>(out, w).
     (let cmName = TrimSpace (mindex (annotations ing) annotationAuthPolicy) in
      if cmName \<noteq> [] then
        (case fetchAuthPolicyHandler e (ing_namespace ing) cmName w of
           (Inl err, w') \<Rightarrow> (out, w')
         | (Inr handler, w') \<Rightarrow> (out\<lparr>authPolicyHandler := handler\<rparr>, w'))
      else (out, w)))"

definition resolve_basic_auth ::
    "'w env \<Rightarrow> ingress \<Rightarrow> ingressAnnotations \<times> 'w \<Rightarrow> ingressAnnotations \<times> 'w" where
  "resolve_basic_auth e ing = (\<lambda>(out, w).
     (let name = mindex (annotations ing) annotationBasicAuthSecret in
      if name \<noteq> [] then
        (let r = mindex (annotations ing) annotationBasicAuthRealm;
             r = (if r = [] then ''Restricted'' else r) in
         case fetchBasicAuthAccounts e (ing_namespace ing) name w of
           (Inl err, w') \<Rightarrow> (out, w')
         | (Inr accs, w') \<Rightarrow> (out\<lparr>basicAuth := Some \<lparr>realm = r, accounts = accs\<rparr>\<rparr>, w'))
      else (out, w)))"

text \<open>The proxy settings and the other settings that no fetch changes.\<close>

definition resolve_proxy :: "string gomap \<Rightarrow> proxyConfig" where
  "resolve_proxy a =
     resolve_http_version a (resolve_retries a (resolve_upstream_headers a
       (resolve_backend a (resolve_body_size a (resolve_timeouts a zero_proxy)))))"

definition resolve_pure :: "ingress \<Rightarrow> ingressAnnotations" where
  "resolve_pure ing =
     (let a = annotations ing in
      resolve_waf a (resolve_cors a (resolve_limit a (resolve_aliases a (resolve_rewrite a
        (resolve_redirects a (resolve_access a
          ((new_annotations ing)\<lparr>proxy := resolve_proxy a\<rparr>))))))))"

definition resolveAnnotations :: "'w env \<Rightarrow> ingress \<Rightarrow> 'w \<Rightarrow> ingressAnnotations \<times> 'w" where
  "resolveAnnotations e ing w =
     (let (out, w) = resolve_waf_rules e ing (resolve_pure ing, w);
          out = resolve_log_headers_tls (annotations ing) out
      in resolve_basic_auth e ing (resolve_auth_policy e ing (out, w)))"

section \<open>What the annotation code guarantees\<close>

subsection \<open>The value parsers\<close>

text \<open>The elements of a comma-separated list: trimmed, not empty, no comma inside.\<close>

definition list_item :: "char \<Rightarrow> string \<Rightarrow> bool" where
  "list_item c s = (s \<noteq> [] \<and> trimmed s \<and> c \<notin> set s)"

lemma trimmed_fields_items [simp]: "list_all (list_item c) (trimmed_fields c s)"
  by (auto simp: list_all_iff list_item_def dest: trimmed_fieldsD)

lemma parseCIDRList_items [simp]: "list_all (list_item CHR '','') (parseCIDRList s)"
  by (simp add: parseCIDRList_def)

lemma parseCIDRList_Join:
  "list_all (list_item CHR '','') xs \<Longrightarrow> parseCIDRList (Join '','' xs) = xs"
  unfolding parseCIDRList_def
  by (rule trimmed_fields_Join) (auto simp: list_all_iff list_item_def)

lemma printable_s: "printable CHR ''s''" and not_digit_s: "\<not> is_digit CHR ''s''"
  by (simp_all add: printable_def is_digit_def)

text \<open>A duration with a unit, as Caddy's \<open>time.Duration\<close> syntax wants it.\<close>

definition has_unit :: "string \<Rightarrow> bool" where
  "has_unit t = (t \<noteq> [] \<and> trimmed t \<and> \<not> is_digit (last t))"

lemma parseTimeoutSeconds_cases: "parseTimeoutSeconds s \<in> insert [] {t. has_unit t}"
proof (cases "TrimSpace s = [] \<or> TrimSpace s = ''0''")
  case True
  then show ?thesis by (auto simp: parseTimeoutSeconds_def Let_def)
next
  case False
  then have "trimmed (TrimSpace s @ ''s'')"
    by (intro trimmed_snoc TrimSpace_trimmed printable_s) simp
  with False show ?thesis
    by (auto simp: parseTimeoutSeconds_def Let_def TrimSpace_trimmed not_digit_s has_unit_def)
qed

lemma parseTimeoutSeconds_fixed: "has_unit t \<Longrightarrow> parseTimeoutSeconds t = t"
  by (auto simp: parseTimeoutSeconds_def has_unit_def trimmed_TrimSpace is_digit_def)

text \<open>The timeout an annotation yields is empty (no timeout is configured) or a trimmed
  string that ends in a unit rather than a digit, and normalising it again changes nothing.\<close>

theorem parseTimeoutSeconds_unit:
  "parseTimeoutSeconds s \<in> insert [] {t. has_unit t}
   \<and> parseTimeoutSeconds (parseTimeoutSeconds s) = parseTimeoutSeconds s"
  using parseTimeoutSeconds_cases [of s] parseTimeoutSeconds_fixed
  by (auto simp: parseTimeoutSeconds_def [of "[]"])

subsubsection \<open>Body sizes\<close>

text \<open>The number of bytes a suffix stands for.\<close>

definition size_unit :: "string \<Rightarrow> int" where
  "size_unit u =
     (if u = ''k'' \<or> u = ''K'' then 1024
      else if u = ''m'' \<or> u = ''M'' then 1048576
      else if u = ''g'' \<or> u = ''G'' then 1073741824
      else 1)"

definition size_units :: "string list" where
  "size_units = [[], ''k'', ''K'', ''m'', ''M'', ''g'', ''G'']"

lemma is_digit_printable: "is_digit c \<Longrightarrow> printable c"
  by (simp add: is_digit_def printable_def Let_def)

lemma printable_digits: "0 \<le> n \<Longrightarrow> list_all printable (digits n)"
  using digits_are_digits [of n] by (auto simp: list_all_iff is_digit_printable)

lemma printable_Itoa [simp]: "list_all printable (Itoa n)"
  using printable_digits [of n] printable_digits [of "- n"]
  by (simp add: Itoa_def) (simp add: printable_def)

lemma last_Itoa_digit: "is_digit (last (Itoa n))"
proof -
  have "is_digit (last (digits m))" if "0 \<le> m" for m
    using digits_are_digits [OF that] digits_nonempty [of m] by (auto simp: list_all_iff)
  then show ?thesis by (simp add: Itoa_def)
qed

lemma size_suffix_Itoa:
  assumes "u \<in> set size_units"
  shows "size_suffix (Itoa n @ u) = (word_of_int (size_unit u), Itoa n)"
proof -
  have "last (Itoa n) \<noteq> c" if "\<not> is_digit c" for c
    using last_Itoa_digit [of n] that by blast
  then have "last (Itoa n) \<notin> set ''kKmMgG''"
    by (auto simp: is_digit_def)
  with assms show ?thesis
    by (auto simp: size_units_def size_suffix_def size_unit_def)
qed

lemma Itoa_0: "Itoa n @ u = ''0'' \<Longrightarrow> u \<in> set size_units \<Longrightarrow> n = 0 \<and> u = []"
proof -
  assume e: "Itoa n @ u = ''0''" and u: "u \<in> set size_units"
  have "u = []" using e u Itoa_nonempty [of n]
    by (auto simp: size_units_def append_eq_Cons_conv)
  with e have "Itoa n = ''0''" by simp
  moreover have "Itoa 0 = ''0''" by code_simp
  ultimately have "n = 0"
    by (auto simp: Itoa_def split: if_splits intro: digits_inj)
  with \<open>u = []\<close> show ?thesis by simp
qed

lemma parseBodySize_Itoa:
  assumes "- two63 \<le> n" "n < two63" "u \<in> set size_units"
  shows "parseBodySize (Itoa n @ u) = Inr (word_of_int (n * size_unit u))"
proof -
  have p: "list_all printable (Itoa n @ u)"
    using assms(3) by (auto simp: size_units_def printable_def)
  have 0: "Itoa n @ u = ''0'' \<Longrightarrow> n = 0" using Itoa_0 assms(3) by blast
  show ?thesis
    using p 0 assms(3)
    by (auto simp: parseBodySize_def Let_def size_suffix_Itoa ParseInt_Itoa assms(1,2))
qed

text \<open>C40: A decimal number of bytes, kibibytes, mebibytes or gibibytes parses to the number of
  bytes it stands for, exactly when the product fits \<open>int64\<close>: the sign-interpreted result
  is the product wrapped to 64 bits.\<close>

theorem parseBodySize_value:
  assumes "- two63 \<le> n" "n < two63" "u \<in> set size_units"
  shows "\<exists>w. parseBodySize (Itoa n @ u) = Inr w \<and> sint w = signed_take_bit 63 (n * size_unit u)
             \<and> (sint w = n * size_unit u \<longleftrightarrow> - two63 \<le> n * size_unit u \<and> n * size_unit u < two63)"
proof -
  let ?p = "n * size_unit u"
  have s: "sint (word_of_int ?p :: int64) = signed_take_bit 63 ?p"
    unfolding sint_sbintrunc' by simp
  have "signed_take_bit 63 ?p = ?p \<longleftrightarrow> - two63 \<le> ?p \<and> ?p < two63"
    by (simp add: signed_take_bit_int_eq_self_iff two63_def)
  with s parseBodySize_Itoa [OF assms] show ?thesis by auto
qed

theorem parseBodySize_value_witness:
  "\<exists>w. parseBodySize (Itoa 20 @ ''m'') = Inr w \<and> sint w = 20 * 1048576"
  using parseBodySize_value [of 20 "''m''"] by (auto simp: two63_def size_units_def size_unit_def)

subsubsection \<open>Header lists\<close>

text \<open>The annotation text of a header configuration, in the format the annotation documents:
  \<open>Key=Value\<close> to set, \<open>-Name\<close> to delete; and the configurations the format can express.\<close>

definition header_text :: "headerConfig \<Rightarrow> string" where
  "header_text cfg =
     Join '','' (map (\<lambda>(k, v). k @ ''='' @ v) (hdr_set cfg) @ map (\<lambda>n. ''-'' @ n) (hdr_delete cfg))"

definition header_name :: "string \<Rightarrow> bool" where
  "header_name k = (list_item CHR '','' k \<and> CHR ''='' \<notin> set k \<and> \<not> HasPrefix k ''-'')"

definition header_value :: "string \<Rightarrow> bool" where
  "header_value v = (trimmed v \<and> CHR '','' \<notin> set v)"

definition expressible :: "headerConfig \<Rightarrow> bool" where
  "expressible cfg =
     (keys_sorted (hdr_set cfg)
      \<and> list_all (\<lambda>(k, v). header_name k \<and> header_value v) (hdr_set cfg)
      \<and> list_all (list_item CHR '','') (hdr_delete cfg))"

lemma Cut_append: "c \<notin> set k \<Longrightarrow> Cut c (k @ c # v) = Some (k, v)"
  by (induction k) auto

lemma header_part_set:
  assumes "header_name k" "header_value v"
  shows "header_part cfg (k @ ''='' @ v) = cfg\<lparr>hdr_set := mput k v (hdr_set cfg)\<rparr>"
proof -
  have t: "TrimSpace (k @ CHR ''='' # v) = k @ CHR ''='' # v"
    using assms by (intro trimmed_TrimSpace trimmed_around)
      (auto simp: header_name_def header_value_def list_item_def printable_def)
  have "\<not> HasPrefix (k @ CHR ''='' # v) ''-''"
    using assms by (cases k) (auto simp: header_name_def list_item_def HasPrefix_def)
  with t assms show ?thesis
    by (simp add: header_part_def Cut_append header_name_def header_value_def list_item_def
        trimmed_TrimSpace)
qed

lemma header_part_delete:
  assumes "list_item CHR '','' n"
  shows "header_part cfg (''-'' @ n) = cfg\<lparr>hdr_delete := hdr_delete cfg @ [n]\<rparr>"
proof -
  have "TrimSpace (CHR ''-'' # n) = CHR ''-'' # n"
    using trimmed_around [of "[]" n "CHR ''-''"] assms
    by (intro trimmed_TrimSpace) (auto simp: list_item_def printable_def trimmed_printable)
  with assms show ?thesis
    by (simp add: header_part_def HasPrefix_def list_item_def trimmed_TrimSpace)
qed

lemma header_parts_set:
  "list_all (\<lambda>(k, v). header_name k \<and> header_value v) kvs \<Longrightarrow>
   foldl header_part cfg (map (\<lambda>(k, v). k @ ''='' @ v) kvs)
   = cfg\<lparr>hdr_set := fold (\<lambda>(k, v). mput k v) kvs (hdr_set cfg)\<rparr>"
proof (induction kvs arbitrary: cfg)
  case (Cons p kvs)
  then show ?case
    by (cases p) (simp add: header_part_set del: append.simps)
qed simp

lemma header_parts_delete:
  "list_all (list_item CHR '','') ns \<Longrightarrow>
   foldl header_part cfg (map (\<lambda>n. ''-'' @ n) ns) = cfg\<lparr>hdr_delete := hdr_delete cfg @ ns\<rparr>"
  by (induction ns arbitrary: cfg) (simp_all add: header_part_delete del: append.simps)

lemma header_part_Nil: "header_part cfg [] = cfg"
  by (simp add: header_part_def)

text \<open>C39: Printing a header configuration in the documented annotation format and parsing the
  text gives the configuration back, headers to set and headers to delete alike.\<close>

theorem parseHeaderAnnotation_text:
  assumes "expressible cfg"
  shows "parseHeaderAnnotation (header_text cfg) = cfg"
proof -
  let ?parts = "map (\<lambda>(k, v). k @ ''='' @ v) (hdr_set cfg) @ map (\<lambda>n. ''-'' @ n) (hdr_delete cfg)"
  have nc: "CHR '','' \<notin> set x" if "x \<in> set ?parts" for x
    using that assms
    by (auto simp: expressible_def list_all_iff header_name_def header_value_def list_item_def)
  have f: "foldl header_part zero_headers ?parts = cfg"
    using assms
    by (simp add: expressible_def header_parts_set header_parts_delete zero_headers_def
        gomap_of_def [symmetric] gomap_of_distinct del: append.simps)
  show ?thesis
  proof (cases "?parts = []")
    case True
    then have "parseHeaderAnnotation (header_text cfg) = zero_headers"
      by (simp add: parseHeaderAnnotation_def header_text_def header_part_Nil)
    with f True show ?thesis by simp
  next
    case False
    then show ?thesis
      using Split_Join [OF False nc] f by (simp only: parseHeaderAnnotation_def header_text_def)
  qed
qed

theorem parseHeaderAnnotation_text_witness:
  "parseHeaderAnnotation ''X-A=1,X-B={client_ip},-Server''
   = \<lparr>hdr_set = [(''X-A'', ''1''), (''X-B'', ''{client_ip}'')], hdr_delete = [''Server'']\<rparr>"
proof -
  let ?cfg = "\<lparr>hdr_set = [(''X-A'', ''1''), (''X-B'', ''{client_ip}'')], hdr_delete = [''Server'']\<rparr>"
  have e: "expressible ?cfg" by code_simp
  have "header_text ?cfg = ''X-A=1,X-B={client_ip},-Server''" by code_simp
  with parseHeaderAnnotation_text [OF e] show ?thesis by simp
qed

subsection \<open>The resolved annotations are well formed\<close>

named_theorems ann_wf_intros \<open>preservation of well-formedness by the resolve steps\<close>

definition cors_wf :: "corsConfig \<Rightarrow> bool" where
  "cors_wf c =
     (origins c \<noteq> [] \<and> list_all (list_item CHR '','') (origins c) \<and> 0 \<le> maxAge c
      \<and> (isWildcard c \<longrightarrow> \<not> allowCreds c))"

definition bcrypt_account :: "basicAuthAccount \<Rightarrow> bool" where
  "bcrypt_account ac =
     ((HasPrefix (Password ac) ''$2y$'' \<or> HasPrefix (Password ac) ''$2a$'')
      \<and> CHR '':'' \<notin> set (Username ac))"

definition basic_auth_wf :: "basicAuthConfig \<Rightarrow> bool" where
  "basic_auth_wf b = (realm b \<noteq> [] \<and> accounts b \<noteq> [] \<and> list_all bcrypt_account (accounts b))"

definition directive_line :: "string \<Rightarrow> bool" where
  "directive_line l = (list_item CHR 0x0A l \<and> \<not> HasPrefix l ''#'')"

definition headers_wf :: "headerConfig \<Rightarrow> bool" where
  "headers_wf h = (keys_sorted (hdr_set h) \<and> list_all (\<lambda>n. n \<noteq> [] \<and> trimmed n) (hdr_delete h))"

definition proxy_wf :: "proxyConfig \<Rightarrow> bool" where
  "proxy_wf p =
     (list_all (\<lambda>t. t = [] \<or> has_unit t) [readTimeout p, sendTimeout p, connectTimeout p]
      \<and> 0 \<le> retries p)"

definition ann_wf :: "ingressAnnotations \<Rightarrow> bool" where
  "ann_wf r =
     ((redirectCode r = 0 \<or> 300 \<le> redirectCode r \<and> redirectCode r < 400)
      \<and> 0 \<le> limitRPS r \<and> proxy_wf (proxy r)
      \<and> list_all (list_item CHR '','') (whitelist r @ blocklist r @ serverAliases r)
      \<and> list_all directive_line (wafDirectives r)
      \<and> headers_wf (requestHeaders r) \<and> headers_wf (responseHeaders r)
      \<and> (wafOverride r, wafModeOverride r)
          \<in> {(None, []), (Some False, []), (Some True, ''On''), (Some True, ''DetectionOnly'')}
      \<and> pred_option cors_wf (cors r) \<and> pred_option basic_auth_wf (basicAuth r))"

lemma ann_wf_new [simp]: "proxy_wf p \<Longrightarrow> ann_wf ((new_annotations ing)\<lparr>proxy := p\<rparr>)"
  by (simp add: ann_wf_def new_annotations_def headers_wf_def zero_headers_def)

lemma positive_int_Some: "positive_int v = Some n \<Longrightarrow> 0 < n"
  by (auto simp: positive_int_def split: sum.splits if_splits)

lemma proxy_wf_zero: "proxy_wf zero_proxy"
  by (simp add: proxy_wf_def zero_proxy_def)

lemma proxy_wf_resolve: "proxy_wf (resolve_proxy a)"
proof -
  have t: "parseTimeoutSeconds v = [] \<or> has_unit (parseTimeoutSeconds v)" for v
    using parseTimeoutSeconds_cases [of v] by simp
  have 1: "proxy_wf (resolve_timeouts a zero_proxy)"
    using proxy_wf_zero t by (auto simp: resolve_timeouts_def proxy_wf_def Let_def)
  have 2: "proxy_wf p \<Longrightarrow> proxy_wf (resolve_body_size a p)"
    and 3: "proxy_wf p \<Longrightarrow> proxy_wf (resolve_backend a p)"
    and 4: "proxy_wf p \<Longrightarrow> proxy_wf (resolve_upstream_headers a p)"
    and 5: "proxy_wf p \<Longrightarrow> proxy_wf (resolve_http_version a p)"
    and 6: "proxy_wf p \<Longrightarrow> proxy_wf (resolve_retries a p)" for p
    by (auto simp: resolve_body_size_def resolve_backend_def resolve_upstream_headers_def
        resolve_http_version_def resolve_retries_def proxy_wf_def Let_def
        dest: positive_int_Some split: option.splits sum.splits)
  show ?thesis unfolding resolve_proxy_def by (intro 1 2 3 4 5 6)
qed

lemma ann_wf_access [ann_wf_intros]: "ann_wf r \<Longrightarrow> ann_wf (resolve_access a r)"
  by (simp add: resolve_access_def ann_wf_def Let_def)

lemma ann_wf_redirects [ann_wf_intros]: "ann_wf r \<Longrightarrow> ann_wf (resolve_redirects a r)"
  by (simp add: resolve_redirects_def ann_wf_def Let_def split: sum.splits)

lemma ann_wf_rewrite [ann_wf_intros]: "ann_wf r \<Longrightarrow> ann_wf (resolve_rewrite a r)"
  by (simp add: resolve_rewrite_def ann_wf_def Let_def)

lemma ann_wf_aliases [ann_wf_intros]: "ann_wf r \<Longrightarrow> ann_wf (resolve_aliases a r)"
  by (simp add: resolve_aliases_def ann_wf_def Let_def)

lemma ann_wf_limit [ann_wf_intros]: "ann_wf r \<Longrightarrow> ann_wf (resolve_limit a r)"
  by (auto simp: resolve_limit_def ann_wf_def Let_def dest: positive_int_Some split: option.splits)

lemma cors_origins_items: "cors_origins a \<noteq> [] \<and> list_all (list_item CHR '','') (cors_origins a)"
  by (simp add: cors_origins_def Let_def list_item_def trimmed_printable printable_def)

lemma origins_resolve [simp]: "origins (resolve_cors_config a) = cors_origins a"
  by (simp add: resolve_cors_config_def Let_def split: sum.splits)

lemma allowCreds_resolve:
  "allowCreds (resolve_cors_config a) =
     (EqualFold (mindex a annotationCORSAllowCredentials) ''true'' \<and> cors_origins a \<noteq> [''*''])"
proof -
  have "(length xs = 1 \<and> xs ! 0 = ''*'') = (xs = [''*''])" for xs :: "string list"
    by (cases xs) auto
  then show ?thesis
    by (simp add: resolve_cors_config_def Let_def default_cors_def isWildcard_def split: sum.splits)
qed

lemma cors_wf_resolve: "cors_wf (resolve_cors_config a)"
proof -
  have "0 \<le> maxAge (resolve_cors_config a)"
    by (simp add: resolve_cors_config_def Let_def default_cors_def split: sum.splits)
  moreover have "isWildcard (resolve_cors_config a) \<longleftrightarrow> cors_origins a = [''*'']"
    by (cases "cors_origins a") (auto simp: isWildcard_def)
  ultimately show ?thesis
    by (simp add: cors_wf_def cors_origins_items allowCreds_resolve)
qed

lemma ann_wf_cors [ann_wf_intros]: "ann_wf r \<Longrightarrow> ann_wf (resolve_cors a r)"
  by (simp add: resolve_cors_def ann_wf_def cors_wf_resolve)

lemma ann_wf_waf [ann_wf_intros]:
  "ann_wf r \<Longrightarrow> wafModeOverride r = [] \<Longrightarrow> ann_wf (resolve_waf a r)"
  by (auto simp: resolve_waf_def ann_wf_def Let_def)

lemma content_lines_ok [simp]: "list_all directive_line (content_lines raw)"
  using trimmed_fields_items [of "CHR 0x0A" raw]
  by (auto simp: content_lines_def directive_line_def list_all_iff)

lemma fetchWAFDirectives_ok:
  "fetchWAFDirectives e ns nm w = (Inr ds, w') \<Longrightarrow> list_all directive_line ds"
  by (auto simp: fetchWAFDirectives_def split: prod.splits sum.splits option.splits)

lemma ann_wf_waf_rules [ann_wf_intros]:
  "ann_wf (fst rw) \<Longrightarrow> ann_wf (fst (resolve_waf_rules e ing rw))"
  by (cases rw)
    (auto simp: resolve_waf_rules_def ann_wf_def Let_def split: prod.splits sum.splits
      dest: fetchWAFDirectives_ok)

lemma keys_sorted_header_part: "headers_wf cfg \<Longrightarrow> headers_wf (header_part cfg p)"
  by (auto simp: header_part_def headers_wf_def Let_def keys_sorted_mput TrimSpace_trimmed
      split: option.splits)

lemma headers_wf_parse [simp]: "headers_wf (parseHeaderAnnotation raw)"
proof -
  have "headers_wf cfg \<Longrightarrow> headers_wf (foldl header_part cfg ps)" for cfg ps
    by (induction ps arbitrary: cfg) (auto simp: keys_sorted_header_part)
  then show ?thesis
    by (simp add: parseHeaderAnnotation_def headers_wf_def zero_headers_def)
qed

lemma ann_wf_log_headers_tls [ann_wf_intros]:
  "ann_wf r \<Longrightarrow> ann_wf (resolve_log_headers_tls a r)"
  by (simp add: resolve_log_headers_tls_def ann_wf_def Let_def)

lemma ann_wf_auth_policy [ann_wf_intros]:
  "ann_wf (fst rw) \<Longrightarrow> ann_wf (fst (resolve_auth_policy e ing rw))"
  by (cases rw) (auto simp: resolve_auth_policy_def ann_wf_def Let_def split: prod.splits sum.splits)

lemma htpasswd_line_bcrypt: "htpasswd_line l = Some ac \<Longrightarrow> bcrypt_account ac"
  by (auto simp: htpasswd_line_def bcrypt_account_def dest!: Cut_Some split: option.splits if_splits)

lemma map_filter_bcrypt: "list_all bcrypt_account (List.map_filter htpasswd_line ls)"
  by (induction ls) (auto simp: List.map_filter_simps dest: htpasswd_line_bcrypt split: option.splits)

lemma fetchBasicAuthAccounts_ok:
  "fetchBasicAuthAccounts e ns nm w = (Inr accs, w') \<Longrightarrow> accs \<noteq> [] \<and> list_all bcrypt_account accs"
  by (auto simp: fetchBasicAuthAccounts_def Let_def map_filter_bcrypt
      split: prod.splits sum.splits option.splits if_splits)

lemma ann_wf_basic_auth [ann_wf_intros]:
  "ann_wf (fst rw) \<Longrightarrow> ann_wf (fst (resolve_basic_auth e ing rw))"
  by (cases rw)
    (auto simp: resolve_basic_auth_def ann_wf_def basic_auth_wf_def Let_def
      split: prod.splits sum.splits dest: fetchBasicAuthAccounts_ok)

lemma wafModeOverride_frame [simp]:
  "wafModeOverride (resolve_cors a r) = wafModeOverride r"
  "wafModeOverride (resolve_limit a r) = wafModeOverride r"
  "wafModeOverride (resolve_aliases a r) = wafModeOverride r"
  "wafModeOverride (resolve_rewrite a r) = wafModeOverride r"
  "wafModeOverride (resolve_redirects a r) = wafModeOverride r"
  "wafModeOverride (resolve_access a r) = wafModeOverride r"
  "wafModeOverride (new_annotations ing) = []"
  by (simp_all add: resolve_cors_def resolve_limit_def resolve_aliases_def resolve_rewrite_def
      resolve_redirects_def resolve_access_def new_annotations_def Let_def
      split: option.splits sum.splits)

lemma ann_wf_resolve_pure: "ann_wf (resolve_pure ing)"
  unfolding resolve_pure_def Let_def
  by (intro ann_wf_intros ann_wf_new proxy_wf_resolve) simp

lemma resolveAnnotations_ann_wf: "ann_wf (fst (resolveAnnotations e ing w))"
  unfolding resolveAnnotations_def Let_def case_prod_beta
  by (intro ann_wf_intros) (simp add: ann_wf_log_headers_tls ann_wf_waf_rules ann_wf_resolve_pure)

text \<open>C13: Whatever annotations an Ingress carries and whatever the API server answers, the
  resolved record is well formed: a redirect code is 3xx, limits and retries are not
  negative, timeouts carry a unit, list entries are trimmed and not empty, CORS has at least
  one origin (so taking the first never panics) and no credentials with the lone wildcard,
  basic auth has at least one account and only bcrypt hashes, and a WAF mode is only
  overridden together with enabling the WAF.\<close>

theorem resolveAnnotations_wf: "ann_wf (fst (resolveAnnotations e ing w))"
  by (rule resolveAnnotations_ann_wf)

subsection \<open>The htpasswd file\<close>

text \<open>The line \<open>htpasswd -B\<close> writes for an account, and the accounts it can be read back from.\<close>

definition htpasswd_text :: "basicAuthAccount \<Rightarrow> string" where
  "htpasswd_text ac = Username ac @ '':'' @ Password ac"

definition storable :: "basicAuthAccount \<Rightarrow> bool" where
  "storable ac = (bcrypt_account ac \<and> directive_line (htpasswd_text ac))"

lemma content_lines_Join:
  assumes "list_all directive_line ls"
  shows "content_lines (Join [CHR 0x0A] ls) = ls"
proof -
  have "trimmed_fields CHR 0x0A (Join [CHR 0x0A] ls) = ls"
    using assms by (intro trimmed_fields_Join) (auto simp: list_all_iff directive_line_def list_item_def)
  moreover have "filter (\<lambda>l. \<not> HasPrefix l ''#'') ls = ls"
    using assms by (auto simp: filter_id_conv list_all_iff directive_line_def)
  ultimately show ?thesis by (simp add: content_lines_def)
qed

lemma htpasswd_line_text: "storable ac \<Longrightarrow> htpasswd_line (htpasswd_text ac) = Some ac"
  by (auto simp: htpasswd_line_def htpasswd_text_def storable_def bcrypt_account_def Cut_append)

lemma map_filter_all_Some: "(\<And>x. x \<in> set xs \<Longrightarrow> f (g x) = Some x) \<Longrightarrow> List.map_filter f (map g xs) = xs"
  by (induction xs) (auto simp: List.map_filter_simps)

text \<open>Reading an htpasswd file of bcrypt accounts gives exactly these accounts, in order;
  a Secret that is missing, has no \<open>auth\<close> key or holds no bcrypt account is an error.\<close>

lemma fetchBasicAuthAccounts_text:
  assumes "get_secret e ns nm w = (Inr sec, w')"
    and "map_of (secret_data sec) ''auth'' = Some (Join [CHR 0x0A] (map htpasswd_text accs))"
    and "list_all storable accs"
  shows "fetchBasicAuthAccounts e ns nm w =
    ((if accs = [] then Inl (''secret '' @ ns @ ''/'' @ nm @ '': no valid bcrypt accounts found'')
      else Inr accs), w')"
proof -
  have l: "content_lines (Join [CHR 0x0A] (map htpasswd_text accs)) = map htpasswd_text accs"
    using assms(3) by (intro content_lines_Join) (auto simp: list_all_iff storable_def)
  have "List.map_filter htpasswd_line (map htpasswd_text accs) = accs"
    using assms(3) by (intro map_filter_all_Some htpasswd_line_text) (auto simp: list_all_iff)
  with l show ?thesis
    by (simp add: fetchBasicAuthAccounts_def assms(1,2))
qed

lemma fetchBasicAuthAccounts_text_instance:
  "fetchBasicAuthAccounts
     (offline\<lparr>get_secret := \<lambda>ns nm w. (Inr \<lparr>secret_type = ''Opaque'',
        secret_data = [(''auth'', ''bob:$2y$05$x'')]\<rparr>, w)\<rparr>) ''ns'' ''s'' ()
   = (Inr [\<lparr>Username = ''bob'', Password = ''$2y$05$x''\<rparr>], ())"
proof -
  let ?a = "[\<lparr>Username = ''bob'', Password = ''$2y$05$x''\<rparr>]"
  let ?s = "\<lparr>secret_type = ''Opaque'', secret_data = [(''auth'', ''bob:$2y$05$x'')]\<rparr>"
  have s: "list_all storable ?a" by code_simp
  show ?thesis
    using fetchBasicAuthAccounts_text
      [of "offline\<lparr>get_secret := \<lambda>ns nm w. (Inr ?s, w)\<rparr>" "''ns''" "''s''" "()" ?s "()" ?a] s
    by (simp add: htpasswd_text_def)
qed

text \<open>C14: A fetch that fails changes nothing but its own field: with an API server that
  answers every read with an error, the resolved record is the purely parsed one, with no
  extra WAF directives, no authorization handler and no basic auth.\<close>

theorem resolveAnnotations_fetch_errors:
  assumes "\<And>ns nm w. \<exists>err. get_secret e ns nm w = (Inl err, w)"
    and "\<And>ns nm w. \<exists>err. get_configmap e ns nm w = (Inl err, w)"
  shows "resolveAnnotations e ing w = (resolve_log_headers_tls (annotations ing) (resolve_pure ing), w)"
proof -
  have 1: "resolve_waf_rules e ing (r, v) = (r, v)" for r v
    using assms(2) [of "ing_namespace ing" _ v]
    by (auto simp: resolve_waf_rules_def fetchWAFDirectives_def Let_def split: prod.splits sum.splits)
      (metis Inl_Inr_False Pair_inject)+
  have 2: "resolve_auth_policy e ing (r, v) = (r, v)" for r v
    using assms(2) [of "ing_namespace ing" _ v]
    by (auto simp: resolve_auth_policy_def fetchAuthPolicyHandler_def Let_def
        split: prod.splits sum.splits) (metis Inl_Inr_False Pair_inject)+
  have 3: "resolve_basic_auth e ing (r, v) = (r, v)" for r v
    using assms(1) [of "ing_namespace ing" _ v]
    by (auto simp: resolve_basic_auth_def fetchBasicAuthAccounts_def Let_def
        split: prod.splits sum.splits) (metis Inl_Inr_False Pair_inject)+
  show ?thesis by (simp add: resolveAnnotations_def 1 2 3)
qed

text \<open>An Ingress that asks for basic auth from a Secret nobody can read.\<close>

definition auth_ingress :: ingress where
  "auth_ingress =
     \<lparr>ing_namespace = ''ns'', ing_name = ''app'', ing_uid = ''u1'',
      annotations = [(''caddy.ingress/basic-auth-secret'', ''users'')],
      ingressClassName = Some ''caddy'', ing_tls = [], rules = []\<rparr>"

theorem resolveAnnotations_fetch_errors_witness:
  "resolveAnnotations offline auth_ingress ()
   = (resolve_log_headers_tls (annotations auth_ingress) (resolve_pure auth_ingress), ())"
  by (rule resolveAnnotations_fetch_errors) (auto simp: offline_def)

end
