(* ===== verification/Routes.thy ===== *)
theory Routes
  imports Annotations
begin

section \<open>Generating Caddy routes (routes.go)\<close>

text \<open>
  The functions of \<open>routes.go\<close>, in the order of the source, over the security settings of
  \<open>app.go\<close> and the resolved annotations. A handler is the JSON value of the map the source
  builds; a route that the source stores inside a handler map is stored as the JSON value
  \<open>encoding/json\<close> writes for it (\<open>route_json\<close>). A nil slice is the empty list.
\<close>

subsection \<open>Types\<close>

record SecurityConfig =
  WAF :: bool
  WAFMode :: string
  SecurityHeaders :: bool
  InjectRealIP :: bool

record caddyRemoteIP =
  ranges :: "string list"

record caddyMatchInner =
  inner_remote_ip :: "caddyRemoteIP option"

record caddyMatch =
  m_host :: "string list"
  m_path :: "string list"
  m_method :: "string list"
  m_headers :: "(string list) gomap"
  m_remote_ip :: "caddyRemoteIP option"
  m_not :: "caddyMatchInner list"

definition no_match :: caddyMatch where
  "no_match = \<lparr>m_host = [], m_path = [], m_method = [], m_headers = [], m_remote_ip = None, m_not = []\<rparr>"

record caddyRoute =
  route_id :: string
  route_match :: "caddyMatch list"
  route_handle :: "json list"
  terminal :: bool

text \<open>An entry of a struct with \<open>omitempty\<close>: left out when the field has its zero value.\<close>

definition unless :: "bool \<Rightarrow> string \<Rightarrow> json \<Rightarrow> (string \<times> json) list" where
  "unless zero k j = (if zero then [] else [(k, j)])"

definition remote_ip_json :: "caddyRemoteIP \<Rightarrow> json" where
  "remote_ip_json r = obj [(''ranges'', JStrs (ranges r))]"

definition remote_ip_entry :: "caddyRemoteIP option \<Rightarrow> (string \<times> json) list" where
  "remote_ip_entry r = (case r of None \<Rightarrow> [] | Some ip \<Rightarrow> [(''remote_ip'', remote_ip_json ip)])"

definition inner_json :: "caddyMatchInner \<Rightarrow> json" where
  "inner_json m = obj (remote_ip_entry (inner_remote_ip m))"

definition match_json :: "caddyMatch \<Rightarrow> json" where
  "match_json m =
     obj (unless (m_host m = []) ''host'' (JStrs (m_host m))
          @ unless (m_path m = []) ''path'' (JStrs (m_path m))
          @ unless (m_method m = []) ''method'' (JStrs (m_method m))
          @ unless (m_headers m = []) ''header'' (jheaders (m_headers m))
          @ remote_ip_entry (m_remote_ip m)
          @ unless (m_not m = []) ''not'' (JArr (map inner_json (m_not m))))"

definition route_json :: "caddyRoute \<Rightarrow> json" where
  "route_json r =
     obj (unless (route_id r = []) ''@id'' (JStr (route_id r))
          @ unless (route_match r = []) ''match'' (JArr (map match_json (route_match r)))
          @ [(''handle'', if route_handle r = [] then JNull else JArr (route_handle r))]
          @ unless (\<not> terminal r) ''terminal'' (JBool True))"

subsection \<open>Route identifiers and paths\<close>

text \<open>\<open>pathIdx = None\<close> stands for the negative index of the host-level route.\<close>

definition routeID :: "string \<Rightarrow> string \<Rightarrow> string \<Rightarrow> nat option \<Rightarrow> string" where
  "routeID ns nm hst pathIdx =
     (let h = ReplaceAll hst CHR ''.'' ''-'';
          h = ReplaceAll h CHR ''*'' ''wildcard'';
          h = (if h = [] then ''any'' else h)
      in case pathIdx of
           None \<Rightarrow> ''caddy-k8s-'' @ ns @ ''-'' @ nm @ ''-'' @ h
         | Some i \<Rightarrow> ''caddy-k8s-'' @ ns @ ''-'' @ nm @ ''-'' @ h @ ''-p'' @ Itoa (int i))"

definition convertPath :: "string \<Rightarrow> path_type option \<Rightarrow> string list" where
  "convertPath p pt =
     (if p = [] \<or> p = ''/'' then []
      else if pt = Some PathTypeExact then [p]
      else if HasSuffix p ''/'' then [p @ ''*'']
      else [p, p @ ''/*''])"

subsection \<open>CORS\<close>

text \<open>The headers of a CORS response. For a request-independent value the source takes the
  first origin, which panics on an empty list; \<open>cors_wf\<close>, which every resolved configuration
  satisfies, excludes that.\<close>

definition buildCORSResponseHeaders :: "corsConfig \<Rightarrow> bool \<Rightarrow> (string list) gomap" where
  "buildCORSResponseHeaders c dynamic =
     (let origin = (if dynamic then ''{http.request.header.Origin}'' else origins c ! 0);
          h = gomap_of [(''Access-Control-Allow-Origin'', [origin])];
          h = (if origin \<noteq> ''*'' then mput ''Vary'' [''Origin''] h else h);
          h = (if allowMethods c \<noteq> [] then mput ''Access-Control-Allow-Methods'' [allowMethods c] h else h);
          h = (if allowHeaders c \<noteq> [] then mput ''Access-Control-Allow-Headers'' [allowHeaders c] h else h);
          h = (if exposeHeaders c \<noteq> [] then mput ''Access-Control-Expose-Headers'' [exposeHeaders c] h else h);
          h = (if allowCreds c then mput ''Access-Control-Allow-Credentials'' [''true''] h else h);
          h = (if 0 < maxAge c then mput ''Access-Control-Max-Age'' [Itoa (maxAge c)] h else h)
      in h)"

definition corsResponseHandler :: "corsConfig \<Rightarrow> bool \<Rightarrow> json" where
  "corsResponseHandler c dynamic =
     obj [(''handler'', JStr ''headers''),
          (''response'', obj [(''set'', jheaders (buildCORSResponseHeaders c dynamic))])]"

definition static_status :: "int \<Rightarrow> json" where
  "static_status code = obj [(''handler'', JStr ''static_response''), (''status_code'', JNum code)]"

definition static_redirect :: "int \<Rightarrow> string \<Rightarrow> json" where
  "static_redirect code loc =
     obj [(''handler'', JStr ''static_response''), (''status_code'', JNum code),
          (''headers'', jheaders (gomap_of [(''Location'', [loc])]))]"

definition corsPreflightRoute :: "corsConfig \<Rightarrow> caddyRoute" where
  "corsPreflightRoute c =
     (let match = (if isWildcard c then no_match\<lparr>m_method := [''OPTIONS'']\<rparr>
                   else no_match\<lparr>m_method := [''OPTIONS''],
                                 m_headers := gomap_of [(''Origin'', origins c)]\<rparr>);
          dynamic = (1 < length (origins c))
      in \<lparr>route_id = [], route_match = [match],
          route_handle = [corsResponseHandler c dynamic, static_status 204], terminal = True\<rparr>)"

subsection \<open>Handlers\<close>

definition rateLimitHandler :: "string \<Rightarrow> string \<Rightarrow> int \<Rightarrow> json" where
  "rateLimitHandler ns nm rps =
     obj [(''handler'', JStr ''rate_limit''),
          (''rate_limits'',
             obj [(''caddy-k8s-'' @ ns @ ''-'' @ nm,
                   obj [(''key'', JStr ''{client_ip}''), (''window'', JStr ''1s''),
                        (''max_events'', JNum rps)])])]"

definition account_json :: "basicAuthAccount \<Rightarrow> json" where
  "account_json ac = obj [(''username'', JStr (Username ac)), (''password'', JStr (Password ac))]"

definition basicAuthHandler :: "basicAuthConfig \<Rightarrow> json" where
  "basicAuthHandler cfg =
     obj [(''handler'', JStr ''authentication''),
          (''providers'',
             obj [(''http_basic'',
                   obj [(''realm'', JStr (realm cfg)),
                        (''accounts'', JArr (map account_json (accounts cfg)))])])]"

definition securityHeadersHandler :: json where
  "securityHeadersHandler =
     obj [(''handler'', JStr ''headers''),
          (''response'',
             obj [(''set'', jheaders (gomap_of
                     [(''Strict-Transport-Security'', [''max-age=31536000; includeSubDomains'']),
                      (''X-Content-Type-Options'', [''nosniff'']),
                      (''X-Frame-Options'', [''SAMEORIGIN'']),
                      (''Referrer-Policy'', [''strict-origin-when-cross-origin''])])),
                  (''delete'', JStrs [''Server''])])]"

text \<open>The header map with one value per name.\<close>

definition single_values :: "string gomap \<Rightarrow> (string list) gomap" where
  "single_values m = map (\<lambda>(k, v). (k, [v])) m"

definition responseHeadersHandler :: "headerConfig \<Rightarrow> json" where
  "responseHeadersHandler cfg =
     obj [(''handler'', JStr ''headers''),
          (''response'',
             obj ((if hdr_set cfg \<noteq> [] then [(''set'', jheaders (single_values (hdr_set cfg)))] else [])
                  @ (if hdr_delete cfg \<noteq> [] then [(''delete'', JStrs (hdr_delete cfg))] else [])))]"

definition waf_rule_engine :: "string \<Rightarrow> string" where
  "waf_rule_engine mode = (if EqualFold mode ''On'' then ''On'' else ''DetectionOnly'')"

definition waf_parts :: "string \<Rightarrow> string list \<Rightarrow> string list" where
  "waf_parts mode extraDirectives =
     [''Include @coraza.conf-recommended'',
      ''Include @crs-setup.conf.example'',
      ''Include @owasp_crs/*.conf'']
     @ extraDirectives
     @ [''SecRuleEngine '' @ waf_rule_engine mode,
        ''SecRequestBodyAccess On'',
        ''SecResponseBodyAccess Off'',
        ''SecRequestBodyLimit 13107200'']"

definition wafHandler :: "string \<Rightarrow> string list \<Rightarrow> json" where
  "wafHandler mode extraDirectives =
     obj [(''handler'', JStr ''waf''),
          (''load_owasp_crs'', JBool True),
          (''directives'', JStr (Join [CHR 0x0A] (waf_parts mode extraDirectives)))]"

text \<open>The entries the proxy settings add to the transport, which is sent when there is one.\<close>

definition transport_settings :: "proxyConfig \<Rightarrow> (string \<times> json) list" where
  "transport_settings p =
     (if backendTLS p
      then [(''tls'', obj (if backendTLSInsecure p then [(''insecure_skip_verify'', JBool True)] else []))]
      else [])
     @ (if httpVersion p \<noteq> [] then [(''versions'', JStrs [httpVersion p])] else [])
     @ (if readTimeout p \<noteq> [] then [(''response_header_timeout'', JStr (readTimeout p))] else [])
     @ (if sendTimeout p \<noteq> [] then [(''write_timeout'', JStr (sendTimeout p))] else [])
     @ (if connectTimeout p \<noteq> [] then [(''dial_timeout'', JStr (connectTimeout p))] else [])"

text \<open>The request headers of the upstream: real-IP headers, then the overrides, then the
  headers of the annotation, each replacing an earlier entry of the same name.\<close>

definition upstream_headers ::
    "bool \<Rightarrow> proxyConfig \<Rightarrow> bool \<Rightarrow> headerConfig \<Rightarrow> (string list) gomap" where
  "upstream_headers injectRealIP p plainHTTP reqHdrs =
     (let h = (if injectRealIP then
                 gomap_of [(''X-Real-IP'', [''{http.vars.client_ip}'']),
                           (''X-Forwarded-For'', [''{http.vars.client_ip}'']),
                           (''X-Forwarded-Proto'', [if plainHTTP then ''http'' else ''https'']),
                           (''X-Forwarded-Host'', [''{http.request.host}'']),
                           (''X-Forwarded-Port'', [if plainHTTP then ''80'' else ''443''])]
               else []);
          h = (if upstreamVhost p \<noteq> [] then mput ''Host'' [upstreamVhost p] h else h);
          h = (if xForwardedPrefix p \<noteq> [] then mput ''X-Forwarded-Prefix'' [xForwardedPrefix p] h else h)
      in mcopy (single_values (hdr_set reqHdrs)) h)"

definition reverseProxyHandler ::
    "string \<Rightarrow> bool \<Rightarrow> proxyConfig \<Rightarrow> bool \<Rightarrow> headerConfig \<Rightarrow> json" where
  "reverseProxyHandler upstream injectRealIP p plainHTTP reqHdrs =
     (let transport = transport_settings p;
          reqHeaders = upstream_headers injectRealIP p plainHTTP reqHdrs;
          reqSection = (if reqHeaders \<noteq> [] then [(''set'', jheaders reqHeaders)] else [])
                       @ (if hdr_delete reqHdrs \<noteq> [] then [(''delete'', JStrs (hdr_delete reqHdrs))] else [])
      in obj ([(''handler'', JStr ''reverse_proxy''),
               (''upstreams'', JArr [obj [(''dial'', JStr upstream)]])]
              @ (if transport \<noteq> [] then [(''transport'', obj ((''protocol'', JStr ''http'') # transport))] else [])
              @ (if reqSection \<noteq> [] then [(''headers'', obj [(''request'', obj reqSection)])] else [])
              @ (if 0 < retries p then [(''load_balancing'', obj [(''retries'', JNum (retries p))])] else [])))"

subsection \<open>Handler chains\<close>

definition waf_enabled :: "SecurityConfig \<Rightarrow> ingressAnnotations \<Rightarrow> bool" where
  "waf_enabled sec ann = (case wafOverride ann of Some b \<Rightarrow> b | None \<Rightarrow> WAF sec)"

definition waf_mode :: "SecurityConfig \<Rightarrow> ingressAnnotations \<Rightarrow> string" where
  "waf_mode sec ann =
     (case wafOverride ann of
        Some b \<Rightarrow> if wafModeOverride ann \<noteq> [] then wafModeOverride ann else WAFMode sec
      | None \<Rightarrow> WAFMode sec)"

definition buildCoreHandlers ::
    "string \<Rightarrow> SecurityConfig \<Rightarrow> ingressAnnotations \<Rightarrow> bool \<Rightarrow> bool \<Rightarrow> bool \<Rightarrow> json list" where
  "buildCoreHandlers upstream sec ann plainHTTP withCORS dynamic =
     (if withCORS then (case cors ann of None \<Rightarrow> [] | Some c \<Rightarrow> [corsResponseHandler c dynamic]) else [])
     @ (case basicAuth ann of None \<Rightarrow> [] | Some b \<Rightarrow> [basicAuthHandler b])
     @ (if 0 < sint (maxBodySize (proxy ann))
        then [obj [(''handler'', JStr ''request_body''),
                   (''max_size'', JNum (sint (maxBodySize (proxy ann))))]]
        else [])
     @ (if 0 < limitRPS ann
        then [rateLimitHandler (ann_namespace ann) (ann_name ann) (limitRPS ann)] else [])
     @ (if rewriteTarget ann \<noteq> []
        then [obj [(''handler'', JStr ''rewrite''), (''uri'', JStr (rewriteTarget ann))]] else [])
     @ (if SecurityHeaders sec \<and> \<not> plainHTTP then [securityHeadersHandler] else [])
     @ (if \<not> headerConfig_empty (responseHeaders ann)
        then [responseHeadersHandler (responseHeaders ann)] else [])
     @ (if waf_enabled sec ann then [wafHandler (waf_mode sec ann) (wafDirectives ann)] else [])
     @ (if authPolicyHandler ann \<noteq> JNull then [authPolicyHandler ann] else [])
     @ [reverseProxyHandler upstream (InjectRealIP sec) (proxy ann) plainHTTP (requestHeaders ann)]"

definition subroute :: "caddyRoute list \<Rightarrow> json" where
  "subroute rs = obj [(''handler'', JStr ''subroute''), (''routes'', JArr (map route_json rs))]"

text \<open>The two branches for several origins: requests from a listed origin, and the others.\<close>

definition cors_branches ::
    "corsConfig \<Rightarrow> string \<Rightarrow> SecurityConfig \<Rightarrow> ingressAnnotations \<Rightarrow> bool \<Rightarrow> caddyRoute list" where
  "cors_branches c upstream sec ann plainHTTP =
     [\<lparr>route_id = [],
       route_match = [no_match\<lparr>m_headers := gomap_of [(''Origin'', origins c)]\<rparr>],
       route_handle = buildCoreHandlers upstream sec ann plainHTTP True True,
       terminal = True\<rparr>,
      \<lparr>route_id = [], route_match = [],
       route_handle = buildCoreHandlers upstream sec ann plainHTTP False False,
       terminal = True\<rparr>]"

definition redirect_target :: "ingressAnnotations \<Rightarrow> string \<times> int" where
  "redirect_target ann =
     (let (url, code) = (if temporalRedirect ann \<noteq> [] then (temporalRedirect ann, 302)
                         else (permanentRedirect ann, 301))
      in (url, if 0 < redirectCode ann then redirectCode ann else code))"

definition buildHandlers ::
    "string \<Rightarrow> SecurityConfig \<Rightarrow> ingressAnnotations \<Rightarrow> bool \<Rightarrow> json list" where
  "buildHandlers upstream sec ann plainHTTP =
     (if permanentRedirect ann \<noteq> [] \<or> temporalRedirect ann \<noteq> [] then
        (case redirect_target ann of (url, code) \<Rightarrow> [static_redirect code url])
      else
        (case cors ann of
           None \<Rightarrow> buildCoreHandlers upstream sec ann plainHTTP False False
         | Some c \<Rightarrow>
             if 1 < length (origins c) then [subroute (cors_branches c upstream sec ann plainHTTP)]
             else buildCoreHandlers upstream sec ann plainHTTP True False))"

subsection \<open>Routes of an Ingress\<close>

definition deny_route :: "caddyMatch \<Rightarrow> caddyRoute" where
  "deny_route m =
     \<lparr>route_id = [], route_match = [m], route_handle = [static_status 403], terminal = True\<rparr>"

definition buildIPGuardRoutes :: "ingressAnnotations \<Rightarrow> caddyRoute list" where
  "buildIPGuardRoutes ann =
     (if whitelist ann \<noteq> []
      then [deny_route (no_match\<lparr>m_not := [\<lparr>inner_remote_ip = Some \<lparr>ranges = whitelist ann\<rparr>\<rparr>]\<rparr>)]
      else [])
     @ (if blocklist ann \<noteq> []
        then [deny_route (no_match\<lparr>m_remote_ip := Some \<lparr>ranges = blocklist ann\<rparr>\<rparr>)]
        else [])"

definition upstream_addr :: "string \<Rightarrow> service_backend \<Rightarrow> string" where
  "upstream_addr ns svc = svc_name svc @ ''.'' @ ns @ ''.svc.cluster.local:'' @ Itoa (svc_port svc)"

text \<open>The route of the \<open>i\<close>-th path of a rule; a path whose backend is no service has none.\<close>

definition path_route ::
    "ingress \<Rightarrow> SecurityConfig \<Rightarrow> ingressAnnotations \<Rightarrow> string \<Rightarrow> nat \<times> http_path \<Rightarrow> caddyRoute option" where
  "path_route ing sec ann hst = (\<lambda>(i, p).
     (case backendService p of
        None \<Rightarrow> None
      | Some svc \<Rightarrow>
          (let ps = convertPath (path p) (pathType p) in
           Some \<lparr>route_id = routeID (ing_namespace ing) (ing_name ing) hst (Some i),
                 route_match = (if ps \<noteq> [] then [no_match\<lparr>m_path := ps\<rparr>] else []),
                 route_handle = buildHandlers (upstream_addr (ing_namespace ing) svc) sec ann (ing_tls ing = []),
                 terminal = False\<rparr>)))"

definition rule_path_routes ::
    "ingress \<Rightarrow> SecurityConfig \<Rightarrow> ingressAnnotations \<Rightarrow> ingress_rule \<Rightarrow> caddyRoute list" where
  "rule_path_routes ing sec ann rule =
     (case http_paths rule of
        None \<Rightarrow> []
      | Some paths \<Rightarrow> List.map_filter (path_route ing sec ann (host rule)) (enumerate 0 paths))"

definition preflight_routes :: "ingressAnnotations \<Rightarrow> caddyRoute list" where
  "preflight_routes ann = (case cors ann of None \<Rightarrow> [] | Some c \<Rightarrow> [corsPreflightRoute c])"

definition rule_hosts :: "ingressAnnotations \<Rightarrow> ingress_rule \<Rightarrow> string list" where
  "rule_hosts ann rule = (if host rule \<noteq> [] then [host rule] else []) @ serverAliases ann"

definition rule_routes ::
    "ingress \<Rightarrow> SecurityConfig \<Rightarrow> ingressAnnotations \<Rightarrow> ingress_rule \<Rightarrow> caddyRoute list" where
  "rule_routes ing sec ann rule =
     (let pathRoutes = rule_path_routes ing sec ann rule in
      if pathRoutes = [] then []
      else
        (let guardRoutes = buildIPGuardRoutes ann;
             allRoutes = guardRoutes @ preflight_routes ann @ pathRoutes;
             handle = (if length allRoutes = 1 \<and> route_match (allRoutes ! 0) = [] \<and> guardRoutes = []
                       then route_handle (allRoutes ! 0)
                       else [subroute allRoutes]);
             match = (if host rule \<noteq> [] \<or> serverAliases ann \<noteq> []
                      then [no_match\<lparr>m_host := rule_hosts ann rule\<rparr>] else [])
         in [\<lparr>route_id = routeID (ing_namespace ing) (ing_name ing) (host rule) None,
              route_match = match, route_handle = handle, terminal = True\<rparr>]))"

definition convertIngress ::
    "ingress \<Rightarrow> SecurityConfig \<Rightarrow> ingressAnnotations \<Rightarrow> caddyRoute list" where
  "convertIngress ing sec ann = concat (map (rule_routes ing sec ann) (rules ing))"

definition httpRedirectRoutes :: "ingress \<Rightarrow> caddyRoute list" where
  "httpRedirectRoutes ing =
     map (\<lambda>rule. \<lparr>route_id = routeID (ing_namespace ing) (ing_name ing) (host rule) None @ ''-http-redirect'',
                  route_match = [no_match\<lparr>m_host := [host rule]\<rparr>],
                  route_handle = [static_redirect 301 ''https://{http.request.host}{http.request.uri}''],
                  terminal = True\<rparr>)
       (filter (\<lambda>rule. host rule \<noteq> []) (rules ing))"

end
