(* ===== verification/Route_Props.thy ===== *)
theory Route_Props
  imports Routes
begin

section \<open>What the generated routes guarantee\<close>

text \<open>
  Properties of \<open>routes.go\<close>. The central one is \<open>guards_enforced\<close>: whatever an Ingress
  configures as a gate (basic auth, body limit, rate limit, rewrite, WAF) stands before the
  proxy on every handler chain of every route that \<open>convertIngress\<close> returns, through the
  nested subroutes. The other sections are about the handler order, redirects, IP guards,
  CORS, WAF directives, upstream headers, paths and route identifiers.
\<close>

subsection \<open>Chains that reach the proxy unguarded\<close>

definition hname :: "json \<Rightarrow> string option" where
  "hname h = (case jget ''handler'' h of Some (JStr s) \<Rightarrow> Some s | _ \<Rightarrow> None)"

text \<open>The routes of a subroute handler and the handlers of a route, read off the JSON.\<close>

fun elements :: "json option \<Rightarrow> json list" where
  "elements (Some (JArr js)) = js"
| "elements _ = []"

definition sub_routes :: "json \<Rightarrow> json list" where
  "sub_routes h = elements (jget ''routes'' h)"

definition route_handlers :: "json \<Rightarrow> json list" where
  "route_handlers r = elements (jget ''handle'' r)"

lemma size_jget: "jget k j = Some j' \<Longrightarrow> size j' < size j"
proof (induction k j rule: jget.induct)
  case (1 k m)
  then have "(k, j') \<in> set m" by (auto dest: map_of_SomeD)
  then have "size_prod (\<lambda>_. 0) size (k, j') \<le> size_list (size_prod (\<lambda>_. 0) size) m"
    by (rule size_list_estimation') simp
  then show ?case by simp
qed auto

lemma size_elements: "jget k j = Some j' \<Longrightarrow> x \<in> set (elements (Some j')) \<Longrightarrow> size_list size (elements (Some j')) < size j"
  using size_jget [of k j j'] by (cases j') auto

lemma size_sub_route: "r \<in> set (sub_routes h) \<Longrightarrow> size r < size h"
  unfolding sub_routes_def
proof (cases "jget ''routes'' h")
  case (Some j)
  assume r: "r \<in> set (elements (jget ''routes'' h))"
  then have "size r \<le> size_list size (elements (Some j))"
    using Some by (intro size_list_estimation') auto
  with size_elements [OF Some] r Some show ?thesis by fastforce
qed simp

lemma size_route_handlers: "size_list size (route_handlers r) \<le> size r"
  using size_elements [of "''handle''" r] unfolding route_handlers_def
  by (cases "jget ''handle'' r"; cases "elements (jget ''handle'' r)") fastforce+

text \<open>
  \<open>unguarded g hs\<close>: a request that runs through the handlers \<open>hs\<close>, entering any of the
  routes of a subroute, can reach a \<open>reverse_proxy\<close> without having passed a handler \<open>g\<close>.
\<close>

function unguarded :: "string \<Rightarrow> json list \<Rightarrow> bool" where
  "unguarded g [] = False"
| "unguarded g (h # hs) =
     (hname h \<noteq> Some g
      \<and> (hname h = Some ''reverse_proxy''
         \<or> list_ex (\<lambda>r. unguarded g (route_handlers r)) (sub_routes h)
         \<or> unguarded g hs))"
  by pat_completeness auto
termination
proof (relation "measure (\<lambda>(g, hs). size_list size hs)")
  fix g :: string and h hs and z :: json
  assume z: "z \<in> set (sub_routes h)"
  have "size_list size (route_handlers z) < size h"
    using size_sub_route [OF z] size_route_handlers [of z] by simp
  then show "((g, route_handlers z), g, h # hs) \<in> measure (\<lambda>(g, hs). size_list size hs)"
    by simp
qed auto

lemma unguarded_append:
  "unguarded g (xs @ ys) \<Longrightarrow> unguarded g xs \<or> unguarded g ys"
  by (induction xs) auto

lemma guarded_append: "\<not> unguarded g xs \<Longrightarrow> \<not> unguarded g ys \<Longrightarrow> \<not> unguarded g (xs @ ys)"
  using unguarded_append by blast

text \<open>A guard behind handlers that do not proxy protects everything after it.\<close>

lemma guarded_by: "\<not> unguarded g xs \<Longrightarrow> hname h = Some g \<Longrightarrow> \<not> unguarded g (xs @ h # ys)"
proof (induction xs)
  case Nil
  then show ?case by simp
next
  case (Cons x xs)
  then show ?case by auto
qed

lemma elements_JArr [simp]: "elements (Some (JArr js)) = js"
  by simp

lemma route_handlers_json [simp]: "route_handlers (route_json r) = route_handle r"
  by (auto simp: route_handlers_def route_json_def unless_def)

lemma hname_subroute [simp]: "hname (subroute rs) = Some ''subroute''"
  by (simp add: hname_def subroute_def)

lemma sub_routes_subroute [simp]: "sub_routes (subroute rs) = map route_json rs"
  by (simp add: sub_routes_def subroute_def)

lemma unguarded_subroute:
  "unguarded g [subroute rs] \<longleftrightarrow> g \<noteq> ''subroute'' \<and> list_ex (\<lambda>r. unguarded g (route_handle r)) rs"
  by (auto simp: list_ex_iff)

subsection \<open>The handlers by name\<close>

named_theorems handler_names \<open>the name of each generated handler\<close>

lemma hname_obj [handler_names]: "hname (obj ((''handler'', JStr n) # kvs)) =
    (case map_of (rev kvs) ''handler'' of None \<Rightarrow> Some n | Some (JStr s) \<Rightarrow> Some s | _ \<Rightarrow> None)"
  by (auto simp: hname_def map_add_def split: option.splits json.splits)

lemma sub_routes_obj: "sub_routes (obj kvs) = elements (map_of (rev kvs) ''routes'')"
  by (simp add: sub_routes_def)

lemma hname_cors [handler_names]: "hname (corsResponseHandler c d) = Some ''headers''"
  by (simp add: corsResponseHandler_def hname_obj)

lemma hname_auth [handler_names]: "hname (basicAuthHandler b) = Some ''authentication''"
  by (simp add: basicAuthHandler_def hname_obj)

lemma hname_rate [handler_names]: "hname (rateLimitHandler ns nm n) = Some ''rate_limit''"
  by (simp add: rateLimitHandler_def hname_obj)

lemma hname_security [handler_names]: "hname securityHeadersHandler = Some ''headers''"
  by (simp add: securityHeadersHandler_def hname_obj)

lemma hname_response [handler_names]: "hname (responseHeadersHandler c) = Some ''headers''"
  by (simp add: responseHeadersHandler_def hname_obj)

lemma hname_waf [handler_names]: "hname (wafHandler m ds) = Some ''waf''"
  by (simp add: wafHandler_def hname_obj)

lemma map_of_transport: "map_of (rev (transport_settings p)) ''handler'' = None"
  by (auto simp: transport_settings_def map_of_eq_None_iff)

lemma hname_proxy [handler_names]: "hname (reverseProxyHandler u i p h r) = Some ''reverse_proxy''"
  by (auto simp: reverseProxyHandler_def hname_obj Let_def)

lemma hname_status [handler_names]: "hname (static_status code) = Some ''static_response''"
  by (simp add: static_status_def hname_obj)

lemma hname_redirect [handler_names]: "hname (static_redirect code loc) = Some ''static_response''"
  by (simp add: static_redirect_def hname_obj)

lemma sub_routes_none [simp]:
  "sub_routes (corsResponseHandler c d) = []"
  "sub_routes (basicAuthHandler b) = []"
  "sub_routes (rateLimitHandler ns nm n) = []"
  "sub_routes securityHeadersHandler = []"
  "sub_routes (responseHeadersHandler hc) = []"
  "sub_routes (wafHandler m ds) = []"
  "sub_routes (static_status code) = []"
  "sub_routes (static_redirect code loc) = []"
  by (simp_all add: sub_routes_obj corsResponseHandler_def basicAuthHandler_def rateLimitHandler_def
      securityHeadersHandler_def responseHeadersHandler_def wafHandler_def static_status_def
      static_redirect_def)

subsection \<open>Every configured gate stands before the proxy\<close>

text \<open>The gates an Ingress can configure, by the name of their handler.\<close>

definition gates :: "SecurityConfig \<Rightarrow> ingressAnnotations \<Rightarrow> string list" where
  "gates sec ann =
     (if basicAuth ann \<noteq> None then [''authentication''] else [])
     @ (if 0 < sint (maxBodySize (proxy ann)) then [''request_body''] else [])
     @ (if 0 < limitRPS ann then [''rate_limit''] else [])
     @ (if rewriteTarget ann \<noteq> [] then [''rewrite''] else [])
     @ (if waf_enabled sec ann then [''waf''] else [])"

text \<open>The chain up to the gates, and the gate handlers, split off the definition.\<close>

lemma core_guarded:
  assumes "g \<in> set (gates sec ann)"
  shows "\<not> unguarded g (buildCoreHandlers u sec ann pl c d)"
proof -
  define A where "A = (if c then (case cors ann of None \<Rightarrow> [] | Some cc \<Rightarrow> [corsResponseHandler cc d]) else [])"
  define B where "B = (case basicAuth ann of None \<Rightarrow> [] | Some b \<Rightarrow> [basicAuthHandler b])"
  define C where "C = (if 0 < sint (maxBodySize (proxy ann))
        then [obj [(''handler'', JStr ''request_body''),
                   (''max_size'', JNum (sint (maxBodySize (proxy ann))))]] else [])"
  define D where "D = (if 0 < limitRPS ann
        then [rateLimitHandler (ann_namespace ann) (ann_name ann) (limitRPS ann)] else [])"
  define E where "E = (if rewriteTarget ann \<noteq> []
        then [obj [(''handler'', JStr ''rewrite''), (''uri'', JStr (rewriteTarget ann))]] else [])"
  define F where "F = (if SecurityHeaders sec \<and> \<not> pl then [securityHeadersHandler] else [])
     @ (if \<not> headerConfig_empty (responseHeaders ann)
        then [responseHeadersHandler (responseHeaders ann)] else [])"
  define G where "G = (if waf_enabled sec ann then [wafHandler (waf_mode sec ann) (wafDirectives ann)] else [])"
  obtain R where core: "buildCoreHandlers u sec ann pl c d = A @ B @ C @ D @ E @ F @ G @ R"
    unfolding buildCoreHandlers_def A_def B_def C_def D_def E_def F_def G_def by simp
  have n: "\<not> unguarded g A" "\<not> unguarded g B" "\<not> unguarded g C" "\<not> unguarded g D"
      "\<not> unguarded g E" "\<not> unguarded g F"
    by (auto simp: A_def B_def C_def D_def E_def F_def handler_names sub_routes_obj split: option.splits)
  from assms consider
      "g = ''authentication''" "\<exists>h. B = [h] \<and> hname h = Some g"
    | "g = ''request_body''" "\<exists>h. C = [h] \<and> hname h = Some g"
    | "g = ''rate_limit''" "\<exists>h. D = [h] \<and> hname h = Some g"
    | "g = ''rewrite''" "\<exists>h. E = [h] \<and> hname h = Some g"
    | "g = ''waf''" "\<exists>h. G = [h] \<and> hname h = Some g"
    by (auto simp: gates_def B_def C_def D_def E_def G_def handler_names split: if_splits)
  then show ?thesis
  proof cases
    case 1
    then obtain h where "B = [h]" "hname h = Some g" by auto
    with core n guarded_by [of g "A" h "C @ D @ E @ F @ G @ R"] show ?thesis by (simp add: guarded_append)
  next
    case 2
    then obtain h where "C = [h]" "hname h = Some g" by auto
    with core n guarded_by [of g "A @ B" h "D @ E @ F @ G @ R"] show ?thesis by (simp add: guarded_append)
  next
    case 3
    then obtain h where "D = [h]" "hname h = Some g" by auto
    with core n guarded_by [of g "A @ B @ C" h "E @ F @ G @ R"] show ?thesis by (simp add: guarded_append)
  next
    case 4
    then obtain h where "E = [h]" "hname h = Some g" by auto
    with core n guarded_by [of g "A @ B @ C @ D" h "F @ G @ R"] show ?thesis by (simp add: guarded_append)
  next
    case 5
    then obtain h where "G = [h]" "hname h = Some g" by auto
    with core n guarded_by [of g "A @ B @ C @ D @ E @ F" h "R"] show ?thesis by (simp add: guarded_append)
  qed
qed

lemma gates_not_subroute: "g \<in> set (gates sec ann) \<Longrightarrow> g \<noteq> ''subroute''"
  by (auto simp: gates_def split: if_splits)

lemma buildHandlers_guarded:
  assumes "g \<in> set (gates sec ann)"
  shows "\<not> unguarded g (buildHandlers u sec ann pl)"
  using core_guarded [OF assms]
  by (auto simp: buildHandlers_def cors_branches_def list_ex_iff handler_names split: option.splits prod.splits)

lemma rule_path_routes_handle:
  "r \<in> set (rule_path_routes ing sec ann rule) \<Longrightarrow>
   \<exists>svc. route_handle r = buildHandlers (upstream_addr (ing_namespace ing) svc) sec ann (ing_tls ing = [])"
  unfolding rule_path_routes_def path_route_def List.map_filter_def Let_def
  by (auto split: option.splits) blast+

lemma rule_routes_guarded:
  assumes "g \<in> set (gates sec ann)" "r \<in> set (rule_routes ing sec ann rule)"
  shows "\<not> unguarded g (route_handle r)"
proof -
  let ?ps = "rule_path_routes ing sec ann rule"
  have p: "\<not> unguarded g (route_handle r')" if "r' \<in> set ?ps" for r'
    using rule_path_routes_handle [OF that] buildHandlers_guarded [OF assms(1)] by metis
  have "\<not> unguarded g (route_handle r')"
    if "r' \<in> set (buildIPGuardRoutes ann @ preflight_routes ann @ ?ps)" for r'
    using that p
    by (auto simp: buildIPGuardRoutes_def deny_route_def preflight_routes_def corsPreflightRoute_def
        Let_def handler_names split: if_splits option.splits)
  moreover have "?ps \<noteq> []" and "route_handle r = route_handle ((buildIPGuardRoutes ann @ preflight_routes ann @ ?ps) ! 0)
      \<or> route_handle r = [subroute (buildIPGuardRoutes ann @ preflight_routes ann @ ?ps)]"
    using assms(2) by (auto simp: rule_routes_def Let_def split: if_splits)
  moreover have "(buildIPGuardRoutes ann @ preflight_routes ann @ ?ps) ! 0
      \<in> set (buildIPGuardRoutes ann @ preflight_routes ann @ ?ps)"
    using \<open>?ps \<noteq> []\<close> by (intro nth_mem) simp
  ultimately show ?thesis
    by (metis (no_types, lifting) list_ex_iff unguarded_subroute)
qed

text \<open>A small Ingress for the instances below.\<close>

definition demo_ingress :: ingress where
  "demo_ingress = \<lparr>ing_namespace = ''shop'', ing_name = ''web'', ing_uid = ''u1'', annotations = [],
     ingressClassName = Some ''caddy'', ing_tls = [],
     rules = [\<lparr>host = ''shop.example'',
               http_paths = Some [\<lparr>path = ''/api'', pathType = Some PathTypePrefix,
                                   backendService = Some \<lparr>svc_name = ''api'', svc_port = 80\<rparr>\<rparr>]\<rparr>]\<rparr>"

definition demo_security :: SecurityConfig where
  "demo_security = \<lparr>WAF = False, WAFMode = ''DetectionOnly'', SecurityHeaders = True, InjectRealIP = True\<rparr>"

definition demo_annotations :: ingressAnnotations where
  "demo_annotations = new_annotations demo_ingress"

text \<open>C1: Every gate an Ingress configures (basic auth, body limit, rate limit, URI rewrite, WAF)
  stands before the proxy: no handler chain of a route that \<open>convertIngress\<close> returns, through
  whatever subroutes for guards, paths and CORS origins, reaches \<open>reverse_proxy\<close> without
  passing the gate's handler.\<close>

theorem guards_enforced:
  assumes "g \<in> set (gates sec ann)" "r \<in> set (convertIngress ing sec ann)"
  shows "\<not> unguarded g (route_handle r)"
  using assms rule_routes_guarded by (auto simp: convertIngress_def)

theorem guards_enforced_witness:
  "\<not> unguarded ''rate_limit''
     (route_handle (convertIngress demo_ingress demo_security (demo_annotations\<lparr>limitRPS := 5\<rparr>) ! 0))"
proof -
  have g: "''rate_limit'' \<in> set (gates demo_security (demo_annotations\<lparr>limitRPS := 5\<rparr>))"
    by code_simp
  have "length (convertIngress demo_ingress demo_security (demo_annotations\<lparr>limitRPS := 5\<rparr>)) = 1"
    by code_simp
  then have "convertIngress demo_ingress demo_security (demo_annotations\<lparr>limitRPS := 5\<rparr>) ! 0
      \<in> set (convertIngress demo_ingress demo_security (demo_annotations\<lparr>limitRPS := 5\<rparr>))"
    by simp
  then show ?thesis by (rule guards_enforced [OF g])
qed

subsection \<open>Clients the IP guards deny never reach the upstream\<close>

text \<open>
  What a request can reach when Caddy's matchers answer \<open>holds\<close> on it: a route is entered when
  it has no matchers or one of them holds, the routes of a list are tried in order, and a
  terminal route that is entered ends its list (the documented meaning of \<open>terminal\<close>).
\<close>

definition route_matchers :: "json \<Rightarrow> json list" where
  "route_matchers r = elements (jget ''match'' r)"

definition is_terminal :: "json \<Rightarrow> bool" where
  "is_terminal r = (jget ''terminal'' r = Some (JBool True))"

definition entered :: "(json \<Rightarrow> bool) \<Rightarrow> json \<Rightarrow> bool" where
  "entered holds r = (route_matchers r = [] \<or> list_ex holds (route_matchers r))"

lemma size_sub_routes: "size_list size (sub_routes h) < Suc (size h)"
  using size_elements [of "''routes''" h] unfolding sub_routes_def
  by (cases "jget ''routes'' h"; cases "elements (jget ''routes'' h)") fastforce+

function reaches :: "(json \<Rightarrow> bool) \<Rightarrow> json list \<Rightarrow> bool"
  and reaches_routes :: "(json \<Rightarrow> bool) \<Rightarrow> json list \<Rightarrow> bool" where
  "reaches holds [] = False"
| "reaches holds (h # hs) =
     (hname h = Some ''reverse_proxy'' \<or> reaches_routes holds (sub_routes h) \<or> reaches holds hs)"
| "reaches_routes holds [] = False"
| "reaches_routes holds (r # rs) =
     (entered holds r \<and> reaches holds (route_handlers r)
      \<or> \<not> (entered holds r \<and> is_terminal r) \<and> reaches_routes holds rs)"
  by pat_completeness auto

termination
proof (relation "measure (\<lambda>x. case x of Inl (_, hs) \<Rightarrow> 2 * size_list size hs | Inr (_, rs) \<Rightarrow> 2 * size_list size rs + 1)")
  fix holds :: "json \<Rightarrow> bool" and h :: json and hs
  show "(Inr (holds, sub_routes h), Inl (holds, h # hs)) \<in> measure (\<lambda>x. case x of Inl (_, hs) \<Rightarrow> 2 * size_list size hs | Inr (_, rs) \<Rightarrow> 2 * size_list size rs + 1)"
    using size_sub_routes [of h] by simp
next
  fix holds :: "json \<Rightarrow> bool" and r :: json and rs
  show "(Inl (holds, route_handlers r), Inr (holds, r # rs)) \<in> measure (\<lambda>x. case x of Inl (_, hs) \<Rightarrow> 2 * size_list size hs | Inr (_, rs) \<Rightarrow> 2 * size_list size rs + 1)"
    using size_route_handlers [of r] by simp
qed auto

lemma route_matchers_json [simp]: "route_matchers (route_json r) = map match_json (route_match r)"
  by (auto simp: route_matchers_def route_json_def unless_def)

lemma is_terminal_json [simp]: "is_terminal (route_json r) = terminal r"
  by (auto simp: is_terminal_def route_json_def unless_def)

text \<open>A terminal route without a proxy that is entered hides the routes behind it.\<close>

lemma reaches_denied:
  assumes "\<forall>r \<in> set gs. \<not> reaches holds (route_handle r)"
    and "\<exists>r \<in> set gs. terminal r \<and> entered holds (route_json r)"
  shows "\<not> reaches_routes holds (map route_json (gs @ rs))"
  using assms by (induction gs) auto

lemma rule_routes_guarded_first:
  assumes "r \<in> set (rule_routes ing sec ann rule)" "buildIPGuardRoutes ann \<noteq> []"
  shows "\<exists>rest. route_handle r = [subroute (buildIPGuardRoutes ann @ rest)]"
  using assms by (auto simp: rule_routes_def Let_def split: if_splits)

text \<open>Without a guard the same client does reach the upstream.\<close>

lemma demo_reaches:
  "reaches (\<lambda>m. True) (route_handle (convertIngress demo_ingress demo_security demo_annotations ! 0))"
  by code_simp

text \<open>C2: A client outside a configured whitelist, or inside a configured blocklist, reaches no
  upstream: when Caddy's matcher for the negated whitelist or for the blocklist holds on a
  request, no route that \<open>convertIngress\<close> returns leads it to a \<open>reverse_proxy\<close>.\<close>

theorem ip_guards_deny:
  assumes "r \<in> set (convertIngress ing sec ann)"
    and "whitelist ann \<noteq> [] \<and> holds (obj [(''not'', JArr [obj [(''remote_ip'', obj [(''ranges'', JStrs (whitelist ann))])]])])
      \<or> blocklist ann \<noteq> [] \<and> holds (obj [(''remote_ip'', obj [(''ranges'', JStrs (blocklist ann))])])"
  shows "\<not> reaches holds (route_handle r)"
proof -
  let ?gs = "buildIPGuardRoutes ann"
  have "?gs \<noteq> []" using assms(2) by (auto simp: buildIPGuardRoutes_def)
  then obtain rest where r: "route_handle r = [subroute (?gs @ rest)]"
    using assms(1) rule_routes_guarded_first by (fastforce simp: convertIngress_def)
  have "\<forall>r \<in> set ?gs. \<not> reaches holds (route_handle r)"
    by (auto simp: buildIPGuardRoutes_def deny_route_def handler_names)
  moreover have "\<exists>r \<in> set ?gs. terminal r \<and> entered holds (route_json r)"
    using assms(2)
    by (auto simp: buildIPGuardRoutes_def deny_route_def entered_def match_json_def no_match_def
        unless_def remote_ip_entry_def remote_ip_json_def inner_json_def)
  ultimately show ?thesis using r reaches_denied by simp
qed

theorem ip_guards_deny_witness:
  "\<not> reaches (\<lambda>m. jget ''remote_ip'' m \<noteq> None)
     (route_handle (convertIngress demo_ingress demo_security (demo_annotations\<lparr>blocklist := [''10.0.0.0/8'']\<rparr>) ! 0))"
proof -
  let ?ann = "demo_annotations\<lparr>blocklist := [''10.0.0.0/8'']\<rparr>"
  have "length (convertIngress demo_ingress demo_security ?ann) = 1"
    by code_simp
  then have "convertIngress demo_ingress demo_security ?ann ! 0 \<in> set (convertIngress demo_ingress demo_security ?ann)"
    by simp
  then show ?thesis by (rule ip_guards_deny) (simp add: demo_annotations_def)
qed

end
