(* ===== verification/Route_Content.thy ===== *)
theory Route_Content
  imports Route_Props
begin

section \<open>Redirects, CORS, WAF directives and upstream headers\<close>

text \<open>
  What the handlers of \<open>routes.go\<close> contain: that a redirect replaces the whole chain, that the
  CORS headers of a resolved configuration are safe, that the WAF mode is the last word of the
  generated directives, and which source wins for each upstream request header.
\<close>

subsection \<open>Redirects replace the chain\<close>

lemma redirect_target_code:
  assumes "ann_wf ann"
  shows "300 \<le> snd (redirect_target ann) \<and> snd (redirect_target ann) < 400"
  using assms by (auto simp: redirect_target_def ann_wf_def)

text \<open>C15: When the resolved annotations of an Ingress ask for a redirect, the chain of every path is one
  \<open>static_response\<close>: its code is 3xx, its Location is the temporal target when there is one and
  the permanent target otherwise, and no proxy is reachable.\<close>

theorem redirect_short_circuits:
  assumes wf: "ann_wf ann"
    and "permanentRedirect ann \<noteq> [] \<or> temporalRedirect ann \<noteq> []"
  shows "\<exists>code. 300 \<le> code \<and> code < 400
      \<and> buildHandlers upstream sec ann plainHTTP
        = [static_redirect code (if temporalRedirect ann \<noteq> [] then temporalRedirect ann else permanentRedirect ann)]
      \<and> \<not> reaches holds (buildHandlers upstream sec ann plainHTTP)"
proof -
  have "buildHandlers upstream sec ann plainHTTP
      = [static_redirect (snd (redirect_target ann)) (fst (redirect_target ann))]"
    using assms(2) by (simp add: buildHandlers_def case_prod_beta)
  moreover have "fst (redirect_target ann)
      = (if temporalRedirect ann \<noteq> [] then temporalRedirect ann else permanentRedirect ann)"
    by (simp add: redirect_target_def)
  ultimately show ?thesis
    using redirect_target_code [OF wf]
    by (intro exI [of _ "snd (redirect_target ann)"]) (simp add: handler_names)
qed

theorem redirect_short_circuits_witness:
  "\<exists>code. 300 \<le> code \<and> code < 400
     \<and> buildHandlers ''u'' demo_security (demo_annotations\<lparr>temporalRedirect := ''https://new.example''\<rparr>) False
       = [static_redirect code ''https://new.example'']"
proof -
  let ?ann = "demo_annotations\<lparr>temporalRedirect := ''https://new.example''\<rparr>"
  have "ann_wf ?ann" by code_simp simp
  then show ?thesis
    using redirect_short_circuits [of ?ann "''u''" demo_security False "\<lambda>m. True"]
    by (simp del: ann_wf_new) blast
qed

subsection \<open>CORS\<close>

lemma map_of_cors_headers:
  "map_of (buildCORSResponseHeaders c d) ''Access-Control-Allow-Origin''
     = Some [if d then ''{http.request.header.Origin}'' else origins c ! 0]"
  "map_of (buildCORSResponseHeaders c d) ''Access-Control-Allow-Credentials''
     = (if allowCreds c then Some [''true''] else None)"
  "map_of (buildCORSResponseHeaders c d) ''Vary''
     = (if d \<or> origins c ! 0 \<noteq> ''*'' then Some [''Origin''] else None)"
  by (simp_all add: buildCORSResponseHeaders_def Let_def map_of_mput_if)

text \<open>C16: The CORS headers that a resolved configuration produces never combine the wildcard
  origin with credentials, name the one allowed origin literally or, with several, the
  request's origin inside the branch that matches the list, and carry \<open>Vary: Origin\<close> whenever
  the answer depends on the origin.\<close>

theorem cors_headers_safe:
  "let c = resolve_cors_config a;
       h = buildCORSResponseHeaders c (1 < length (origins c))
   in \<not> (map_of h ''Access-Control-Allow-Origin'' = Some [''*'']
          \<and> map_of h ''Access-Control-Allow-Credentials'' \<noteq> None)
      \<and> map_of h ''Access-Control-Allow-Origin''
         = Some [case origins c of [orig] \<Rightarrow> orig | _ \<Rightarrow> ''{http.request.header.Origin}'']
      \<and> (map_of h ''Vary'' = Some [''Origin'']) = (origins c \<noteq> [''*''])"
proof -
  define c where "c = resolve_cors_config a"
  have o: "origins c \<noteq> []" "allowCreds c \<Longrightarrow> origins c \<noteq> [''*'']"
    using cors_wf_resolve [of a] by (auto simp: c_def cors_wf_def isWildcard_def)
  then show ?thesis
    unfolding Let_def c_def [symmetric] map_of_cors_headers
    by (cases "origins c") (auto split: if_splits list.splits)
qed

text \<open>The wildcard among several origins keeps credentials: the guard of the source looks for the
  lone wildcard only, so the answer echoes the request's origin and allows credentials, in the
  branch whose Origin matcher lists the wildcard.\<close>

lemma cors_star_in_list:
  fixes a :: "string gomap"
  defines "a \<equiv> gomap_of [(annotationCORSAllowOrigin, ''*,https://a.example''), (annotationCORSAllowCredentials, ''true'')]"
  shows "origins (resolve_cors_config a) = [''*'', ''https://a.example''] \<and> allowCreds (resolve_cors_config a)"
proof -
  have m: "mindex a annotationCORSAllowOrigin = ''*,https://a.example''"
      "mindex a annotationCORSAllowCredentials = ''true''"
    by (simp_all add: a_def mindex_def annotation_key_defs)
  have "trimmed_fields CHR '','' ''*,https://a.example'' = [''*'', ''https://a.example'']"
    by (simp add: trimmed_fields_def printable_def)
  then show ?thesis by (simp add: allowCreds_resolve cors_origins_def m)
qed

subsection \<open>WAF directives\<close>

definition engine_line :: "string \<Rightarrow> bool" where
  "engine_line l = HasPrefix l ''SecRuleEngine ''"

lemma waf_parts_lines:
  assumes "list_all directive_line ds"
  shows "Split (CHR 0x0A) (Join [CHR 0x0A] (waf_parts mode ds)) = waf_parts mode ds"
proof (rule Split_Join)
  have "list_all (\<lambda>x. CHR 0x0A \<notin> set x) ds"
    using assms by (simp add: list_all_iff directive_line_def list_item_def)
  then have "list_all (\<lambda>x. CHR 0x0A \<notin> set x) (waf_parts mode ds)"
    by (simp add: waf_parts_def waf_rule_engine_def)
  then show "x \<in> set (waf_parts mode ds) \<Longrightarrow> CHR 0x0A \<notin> set x" for x
    by (auto simp: list_all_iff)
qed (simp add: waf_parts_def)

text \<open>C17: Whatever directives a per-Ingress ConfigMap adds to the WAF, they stand on lines of their
  own behind the three CRS includes, and the last line that sets \<open>SecRuleEngine\<close> is the
  controller's: \<open>On\<close> exactly when the mode is "on" up to case, \<open>DetectionOnly\<close> otherwise.\<close>

theorem waf_engine_is_last:
  assumes "ann_wf ann"
    and "jget ''directives'' (wafHandler mode (wafDirectives ann)) = Some (JStr text)"
  shows "take 3 (Split (CHR 0x0A) text)
         = [''Include @coraza.conf-recommended'', ''Include @crs-setup.conf.example'', ''Include @owasp_crs/*.conf'']
    \<and> set (wafDirectives ann) \<subseteq> set (Split (CHR 0x0A) text)
    \<and> last (filter engine_line (Split (CHR 0x0A) text))
         = ''SecRuleEngine '' @ (if EqualFold mode ''On'' then ''On'' else ''DetectionOnly'')"
proof -
  have "list_all directive_line (wafDirectives ann)"
    using assms(1) by (simp add: ann_wf_def)
  then have t: "Split (CHR 0x0A) text = waf_parts mode (wafDirectives ann)"
    using assms(2) waf_parts_lines [of "wafDirectives ann" mode] by (simp add: wafHandler_def)
  show ?thesis
    unfolding t
    by (auto simp: waf_parts_def numeral_3_eq_3 engine_line_def HasPrefix_def waf_rule_engine_def)
qed

theorem waf_engine_is_last_witness:
  "last (filter engine_line (Split (CHR 0x0A) (Join [CHR 0x0A] (waf_parts ''on'' [''SecRuleEngine Off'']))))
     = ''SecRuleEngine On''"
proof -
  let ?ann = "demo_annotations\<lparr>wafDirectives := [''SecRuleEngine Off'']\<rparr>"
  have wf: "ann_wf ?ann" by code_simp simp
  have e: "EqualFold ''on'' ''On''" by code_simp
  have d: "jget ''directives'' (wafHandler ''on'' (wafDirectives ?ann))
      = Some (JStr (Join [CHR 0x0A] (waf_parts ''on'' [''SecRuleEngine Off''])))"
    by (simp add: wafHandler_def)
  show ?thesis using waf_engine_is_last [OF wf d] e by simp
qed

subsection \<open>The upstream request headers\<close>

text \<open>The real-IP headers as a lookup.\<close>

definition real_ip_header :: "bool \<Rightarrow> string \<Rightarrow> string option" where
  "real_ip_header plainHTTP k =
     (if k = ''X-Real-IP'' \<or> k = ''X-Forwarded-For'' then Some ''{http.vars.client_ip}''
      else if k = ''X-Forwarded-Proto'' then Some (if plainHTTP then ''http'' else ''https'')
      else if k = ''X-Forwarded-Host'' then Some ''{http.request.host}''
      else if k = ''X-Forwarded-Port'' then Some (if plainHTTP then ''80'' else ''443'')
      else None)"

lemma map_of_single_values: "map_of (single_values m) k = map_option (\<lambda>v. [v]) (map_of m k)"
  by (simp add: single_values_def map_of_map_snd)

lemma keys_sorted_single_values [simp]: "keys_sorted (single_values m) = keys_sorted m"
  by (simp add: single_values_def)

lemma map_of_mcopy_single:
  "keys_sorted m \<Longrightarrow>
   map_of (mcopy (single_values m) d) k = (case map_of m k of None \<Rightarrow> map_of d k | Some v \<Rightarrow> Some [v])"
  by (simp add: map_of_mcopy map_of_single_values split: option.splits)

text \<open>For every header name, the upstream request gets the value of the request-headers
  annotation when it sets that name, else the configured Host or X-Forwarded-Prefix override,
  else the real-IP value when injection is on, and is left alone otherwise; the generated map
  has each name once.\<close>

lemma upstream_headers_precedence:
  assumes "headers_wf h"
  shows "map_of (upstream_headers inject p plainHTTP h) k =
     (case map_of (hdr_set h) k of
        Some v \<Rightarrow> Some [v]
      | None \<Rightarrow>
          if k = ''Host'' \<and> upstreamVhost p \<noteq> [] then Some [upstreamVhost p]
          else if k = ''X-Forwarded-Prefix'' \<and> xForwardedPrefix p \<noteq> [] then Some [xForwardedPrefix p]
          else if inject then map_option (\<lambda>v. [v]) (real_ip_header plainHTTP k)
          else None)
    \<and> keys_sorted (upstream_headers inject p plainHTTP h)"
proof -
  define base where "base = (if inject then
                 gomap_of [(''X-Real-IP'', [''{http.vars.client_ip}'']),
                           (''X-Forwarded-For'', [''{http.vars.client_ip}'']),
                           (''X-Forwarded-Proto'', [if plainHTTP then ''http'' else ''https'']),
                           (''X-Forwarded-Host'', [''{http.request.host}'']),
                           (''X-Forwarded-Port'', [if plainHTTP then ''80'' else ''443''])]
               else [])"
  define over where "over = (if xForwardedPrefix p \<noteq> []
      then mput ''X-Forwarded-Prefix'' [xForwardedPrefix p]
             (if upstreamVhost p \<noteq> [] then mput ''Host'' [upstreamVhost p] base else base)
      else (if upstreamVhost p \<noteq> [] then mput ''Host'' [upstreamVhost p] base else base))"
  have u: "upstream_headers inject p plainHTTP h = mcopy (single_values (hdr_set h)) over"
    by (simp add: upstream_headers_def Let_def over_def base_def)
  have s: "keys_sorted (hdr_set h)" using assms by (simp add: headers_wf_def)
  have base: "map_of base k = (if inject then map_option (\<lambda>v. [v]) (real_ip_header plainHTTP k) else None)"
    by (simp add: base_def real_ip_header_def)
  have over: "map_of over k =
      (if k = ''Host'' \<and> upstreamVhost p \<noteq> [] then Some [upstreamVhost p]
       else if k = ''X-Forwarded-Prefix'' \<and> xForwardedPrefix p \<noteq> [] then Some [xForwardedPrefix p]
       else map_of base k)"
    unfolding over_def map_of_mput_if by auto
  have ks: "keys_sorted base" "keys_sorted over"
    by (auto simp: base_def over_def keys_sorted_mput)
  show ?thesis
    unfolding u map_of_mcopy_single [OF s] over base
    using ks by (cases "map_of (hdr_set h) k") (simp_all add: keys_sorted_mcopy)
qed

lemma upstream_headers_precedence_instance:
  "map_of (upstream_headers True (zero_proxy\<lparr>upstreamVhost := ''in.example''\<rparr>) False
       \<lparr>hdr_set = [(''X-Real-IP'', ''10.0.0.1'')], hdr_delete = []\<rparr>) ''X-Real-IP'' = Some [''10.0.0.1'']"
proof -
  have "headers_wf \<lparr>hdr_set = [(''X-Real-IP'', ''10.0.0.1'')], hdr_delete = []\<rparr>"
    by (simp add: headers_wf_def keys_sorted_Cons)
  then show ?thesis
    using upstream_headers_precedence [of _ True "zero_proxy\<lparr>upstreamVhost := ''in.example''\<rparr>" False "''X-Real-IP''"]
    by fastforce
qed

end
