(* ===== verification/Route_Ids.thy ===== *)
theory Route_Ids
  imports Route_Props
begin

section \<open>Paths, route identifiers and the routes of an Ingress\<close>

text \<open>
  Which paths the matchers of \<open>convertPath\<close> accept compared with the Kubernetes path types, when
  route identifiers are unique, and which routes an Ingress yields: one per rule that has a
  service path, in order.
\<close>

subsection \<open>Path matchers\<close>

text \<open>Kubernetes' \<open>Prefix\<close> type compares element by element, after dropping a trailing slash
  of the pattern; \<open>Exact\<close> compares the whole path. Caddy compares without regard to case, so
  both are stated on lower-cased strings.\<close>

definition path_elements :: "string \<Rightarrow> string list" where
  "path_elements p = Split CHR ''/'' p"

definition element_prefix :: "string \<Rightarrow> string \<Rightarrow> bool" where
  "element_prefix p s = prefix (path_elements p) (path_elements s)"

text \<open>Caddy's documented path matcher: a pattern without a wildcard is the exact path, a
  pattern that ends in the only wildcard is a prefix.\<close>

definition caddy_path_matcher :: "(string \<Rightarrow> string \<Rightarrow> bool) \<Rightarrow> bool" where
  "caddy_path_matcher m =
     (\<forall>p s. CHR ''*'' \<notin> set p \<longrightarrow>
        m p s = (ToLower s = ToLower p) \<and> m (p @ ''*'') s = prefix (ToLower p) (ToLower s))"

definition path_matches :: "(string \<Rightarrow> string \<Rightarrow> bool) \<Rightarrow> string list \<Rightarrow> string \<Rightarrow> bool" where
  "path_matches m ps s = (ps = [] \<or> list_ex (\<lambda>p. m p s) ps)"

lemma Split_prefix:
  "prefix (Split c p) (Split c s) \<longleftrightarrow> s = p \<or> prefix (p @ [c]) s"
proof (induction p arbitrary: s)
  case Nil
  show ?case by (cases s) (auto split: list.splits)
next
  case (Cons a p)
  then show ?case
  proof (cases s)
    case Nil
    then show ?thesis by (auto split: list.splits if_splits)
  next
    case (Cons b t)
    obtain x xs y ys where "Split c p = x # xs" "Split c t = y # ys"
      by (metis Split_nonempty neq_Nil_conv)
    with Cons.IH [of t] Cons show ?thesis by auto
  qed
qed

lemma prefix_snoc_absent: "x \<notin> set r \<Longrightarrow> prefix r (s @ [x]) = prefix r s"
  by (auto simp: prefix_def append_eq_append_conv2 Cons_eq_append_conv)

lemma map_runes_snoc:
  assumes "list_all (\<lambda>(r, t). r \<noteq> [] \<and> CHR ''/'' \<notin> set r) tbl"
  shows "map_runes tbl (s @ ''/'') = map_runes tbl s @ ''/''"
  using assms
proof (induction tbl s rule: map_runes.induct)
  case (1 tbl)
  then have "find (\<lambda>(r, t). prefix r ''/'') tbl = None"
    by (auto simp: find_None_iff list_all_iff prefix_Cons)
  then show ?case by (simp add: ascii_lower_def)
next
  case (2 tbl c s)
  have f: "find (\<lambda>(r, t). prefix r (c # s @ ''/'')) tbl = find (\<lambda>(r, t). prefix r (c # s)) tbl"
    using 2(3) prefix_snoc_absent [of "CHR ''/''" _ "c # s"]
    by (intro find_cong) (auto simp: list_all_iff)
  show ?case
  proof (cases "find (\<lambda>(r, t). prefix r (c # s)) tbl")
    case None
    with f 2 show ?thesis by simp
  next
    case (Some rt)
    obtain r t where rt: "rt = (r, t)" by (cases rt)
    then have "prefix r (c # s)" using Some by (auto simp: find_Some_iff)
    then have "length r - 1 \<le> length s" by (auto dest: prefix_length_le)
    then have "drop (length r - 1) (s @ ''/'') = drop (length r - 1) s @ ''/''" by simp
    with f Some rt 2 show ?thesis by simp
  qed
qed

lemma ToLower_snoc_slash [simp]: "ToLower (p @ ''/'') = ToLower p @ ''/''"
  unfolding ToLower_def by (rule map_runes_snoc) simp

text \<open>C20: The Caddy matchers of a path without wildcards accept, up to case, exactly what the
  Kubernetes path type says: for \<open>Exact\<close> the path itself, for every other type the paths it is
  an element-wise prefix of. A pattern with a trailing slash misses the path without the slash,
  and the root path matches everything, also when its type is \<open>Exact\<close>.\<close>

theorem convertPath_accepts:
  assumes m: "caddy_path_matcher m" and p: "CHR ''*'' \<notin> set p" "p \<noteq> []" "p \<noteq> ''/''"
  shows "(path_matches m (convertPath p (Some PathTypeExact)) s \<longleftrightarrow> ToLower s = ToLower p)
    \<and> (pt \<noteq> Some PathTypeExact \<and> \<not> HasSuffix p ''/'' \<longrightarrow>
         (path_matches m (convertPath p pt) s \<longleftrightarrow> element_prefix (ToLower p) (ToLower s)))
    \<and> (pt \<noteq> Some PathTypeExact \<and> p = q @ ''/'' \<longrightarrow>
         (path_matches m (convertPath p pt) s \<longleftrightarrow>
           element_prefix (ToLower q) (ToLower s) \<and> ToLower s \<noteq> ToLower q))
    \<and> path_matches m (convertPath ''/'' pt) s"
proof -
  have slash: "m (q @ ''/*'') s = prefix (ToLower q @ ''/'') (ToLower s)" if "CHR ''*'' \<notin> set q" for q
  proof -
    have "CHR ''*'' \<notin> set (q @ ''/'')" using that by simp
    then have "m ((q @ ''/'') @ ''*'') s = prefix (ToLower (q @ ''/'')) (ToLower s)"
      using m unfolding caddy_path_matcher_def by blast
    then show ?thesis by simp
  qed
  have 1: "path_matches m (convertPath p (Some PathTypeExact)) s \<longleftrightarrow> ToLower s = ToLower p"
    using m p by (simp add: path_matches_def convertPath_def caddy_path_matcher_def)
  have 2: "path_matches m (convertPath p pt) s \<longleftrightarrow> element_prefix (ToLower p) (ToLower s)"
    if "pt \<noteq> Some PathTypeExact" "\<not> HasSuffix p ''/''"
    using m p slash [OF p(1)] that
    by (simp add: path_matches_def convertPath_def caddy_path_matcher_def element_prefix_def
        path_elements_def Split_prefix)
  have 3: "path_matches m (convertPath p pt) s \<longleftrightarrow>
           element_prefix (ToLower q) (ToLower s) \<and> ToLower s \<noteq> ToLower q"
    if "pt \<noteq> Some PathTypeExact" "p = q @ ''/''"
  proof -
    have "path_matches m (convertPath p pt) s = prefix (ToLower q @ ''/'') (ToLower s)"
      using p that slash [of q] HasSuffix_append [of q "''/''"]
      by (simp add: path_matches_def convertPath_def)
    then show ?thesis
      by (auto simp: element_prefix_def path_elements_def Split_prefix)
  qed
  have 4: "path_matches m (convertPath ''/'' pt) s"
    by (simp add: path_matches_def convertPath_def)
  show ?thesis using 1 2 3 4 by blast
qed

text \<open>A matcher with the documented behaviour.\<close>

definition model_path_matcher :: "string \<Rightarrow> string \<Rightarrow> bool" where
  "model_path_matcher p s =
     (if p \<noteq> [] \<and> last p = CHR ''*'' then prefix (ToLower (butlast p)) (ToLower s)
      else ToLower s = ToLower p)"

lemma model_path_matcher_ok: "caddy_path_matcher model_path_matcher"
  unfolding caddy_path_matcher_def model_path_matcher_def by (auto dest: last_in_set)

theorem convertPath_accepts_witness:
  "path_matches model_path_matcher (convertPath ''/api'' (Some PathTypePrefix)) ''/api/v1''
   \<and> \<not> path_matches model_path_matcher (convertPath ''/api/'' (Some PathTypePrefix)) ''/api''"
proof -
  have no_slash: "\<not> HasSuffix ''/api'' ''/''" by code_simp
  have 1: "path_matches model_path_matcher (convertPath ''/api'' (Some PathTypePrefix)) ''/api/v1''
      \<longleftrightarrow> element_prefix (ToLower ''/api'') (ToLower ''/api/v1'')"
    using convertPath_accepts [OF model_path_matcher_ok, of "''/api''" "''/api/v1''" "Some PathTypePrefix"] no_slash
    by simp
  have 2: "path_matches model_path_matcher (convertPath ''/api/'' (Some PathTypePrefix)) ''/api''
      \<longleftrightarrow> element_prefix (ToLower ''/api'') (ToLower ''/api'') \<and> ToLower ''/api'' \<noteq> ToLower ''/api''"
    using convertPath_accepts [OF model_path_matcher_ok, of "''/api/''" "''/api''" "Some PathTypePrefix" "''/api''"]
    by simp
  have "element_prefix (ToLower ''/api'') (ToLower ''/api/v1'')" by code_simp
  with 1 2 show ?thesis by blast
qed

subsection \<open>Route identifiers\<close>

text \<open>Names for which the dashes of an identifier can be read back.\<close>

definition dash_free :: "string \<Rightarrow> bool" where
  "dash_free s = (CHR ''-'' \<notin> set s)"

definition plain_host :: "string \<Rightarrow> bool" where
  "plain_host h = (h \<noteq> [] \<and> CHR ''-'' \<notin> set h \<and> CHR ''*'' \<notin> set h)"

lemma split_at_first:
  "c \<notin> set a \<Longrightarrow> c \<notin> set a' \<Longrightarrow> a @ c # r = a' @ c # r' \<Longrightarrow> a = a' \<and> r = r'"
proof (induction a arbitrary: a')
  case Nil
  then show ?case by (cases a') auto
next
  case (Cons x a)
  then show ?case by (cases a') auto
qed

lemma split_at_last:
  assumes "c \<notin> set r" "c \<notin> set r'" "a @ c # r = a' @ c # r'"
  shows "a = a' \<and> r = r'"
proof -
  have "rev r @ c # rev a = rev r' @ c # rev a'"
    using arg_cong [OF assms(3), of rev] by simp
  with assms have "rev r = rev r' \<and> rev a = rev a'"
    by (intro split_at_first) auto
  then show ?thesis by simp
qed

lemma ReplaceAll_char_inj:
  "ReplaceAll h c [d] = ReplaceAll h' c [d] \<Longrightarrow> d \<notin> set h \<Longrightarrow> d \<notin> set h' \<Longrightarrow> h = h'"
proof (induction h arbitrary: h')
  case Nil
  then show ?case by (cases h') (auto simp: go_str split: if_splits)
next
  case (Cons a h)
  then show ?case by (cases h') (auto simp: go_str split: if_splits)
qed

definition host_label :: "string \<Rightarrow> string" where
  "host_label hst =
     (let h = ReplaceAll (ReplaceAll hst CHR ''.'' ''-'') CHR ''*'' ''wildcard''
      in if h = [] then ''any'' else h)"

lemma host_label_plain: "plain_host h \<Longrightarrow> host_label h = ReplaceAll h CHR ''.'' ''-''"
proof -
  assume h: "plain_host h"
  have "CHR ''*'' \<notin> set (ReplaceAll h CHR ''.'' ''-'')"
    using h unfolding plain_host_def ReplaceAll_def by (auto split: if_splits)
  moreover have "ReplaceAll h CHR ''.'' ''-'' \<noteq> []"
    using h by (cases h) (auto simp: plain_host_def go_str)
  ultimately show ?thesis by (simp add: host_label_def ReplaceAll_absent)
qed

lemma routeID_label:
  "routeID ns nm hst i =
     ''caddy-k8s-'' @ ns @ ''-'' @ nm @ ''-'' @ host_label hst
       @ (case i of None \<Rightarrow> [] | Some n \<Rightarrow> ''-p'' @ Itoa (int n))"
  by (simp add: routeID_def host_label_def Let_def split: option.splits)

lemma dash_free_Itoa: "dash_free (Itoa (int n))"
proof -
  have "list_all is_digit (digits (int n))" by (rule digits_are_digits) simp
  then show ?thesis
    by (auto simp: Itoa_def dash_free_def list_all_iff is_digit_def)
qed

lemma Itoa_nat_inj: "Itoa (int m) = Itoa (int n) \<Longrightarrow> m = n"
  using digits_inj [of "int m" "int n"] by (simp add: Itoa_def)

lemma ReplaceAll_append: "ReplaceAll (s @ t) c r = ReplaceAll s c r @ ReplaceAll t c r"
  by (simp add: ReplaceAll_def)

lemma dot_free_Itoa: "CHR ''.'' \<notin> set (Itoa (int n))"
proof -
  have "list_all is_digit (digits (int n))" by (rule digits_are_digits) simp
  then show ?thesis by (auto simp: Itoa_def list_all_iff is_digit_def)
qed

text \<open>On plain hosts a path index reads as one more host label.\<close>

definition host_with_index :: "string \<Rightarrow> nat option \<Rightarrow> string" where
  "host_with_index h i = h @ (case i of None \<Rightarrow> [] | Some n \<Rightarrow> ''.p'' @ Itoa (int n))"

lemma host_with_index_dash_free: "plain_host h \<Longrightarrow> CHR ''-'' \<notin> set (host_with_index h i)"
  using dash_free_Itoa by (auto simp: host_with_index_def plain_host_def dash_free_def split: option.splits)

lemma routeID_plain:
  "plain_host h \<Longrightarrow>
   routeID ns nm h i = ''caddy-k8s-'' @ ns @ ''-'' @ nm @ ''-'' @ ReplaceAll (host_with_index h i) CHR ''.'' ''-''"
  by (simp add: routeID_label host_label_plain host_with_index_def ReplaceAll_append go_str
      ReplaceAll_absent [OF dot_free_Itoa] split: option.split)

lemma host_with_index_eq:
  "host_with_index h i = host_with_index h' i' \<longleftrightarrow>
     h = h' \<and> i = i' \<or> (\<exists>n. i = Some n \<and> i' = None \<and> h' = h @ ''.p'' @ Itoa (int n))
       \<or> (\<exists>n. i = None \<and> i' = Some n \<and> h = h' @ ''.p'' @ Itoa (int n))"
proof (cases "i = None \<or> i' = None")
  case True
  then show ?thesis by (auto simp: host_with_index_def split: option.split)
next
  case False
  then obtain n n' where i: "i = Some n" "i' = Some n'" by auto
  have dot: "CHR ''.'' \<notin> set (CHR ''p'' # Itoa (int m))" for m
    using dot_free_Itoa by simp
  show ?thesis
    using split_at_last [OF dot dot, of h n h' n'] Itoa_nat_inj [of n n'] by (auto simp: host_with_index_def i)
qed

text \<open>C21: When no namespace, name or host has a dash and no host is empty or a wildcard, two route
  identifiers are equal only for the same namespace, the same name and the same host and path index,
  with one exception that is stated exactly: the path-level identifier of the path with index \<open>n\<close>
  of a host is the host-level identifier of the host with a further label \<open>pn\<close> (of the same
  Ingress). So identifiers always separate Ingresses, and within one they separate hosts and paths
  but for such hosts.\<close>

theorem routeID_injective:
  assumes "list_all dash_free [ns, nm, ns', nm']" "plain_host h" "plain_host h'"
  shows "routeID ns nm h i = routeID ns' nm' h' i' \<longleftrightarrow>
      ns = ns' \<and> nm = nm'
      \<and> (h = h' \<and> i = i'
         \<or> (\<exists>n. i = Some n \<and> i' = None \<and> h' = h @ ''.p'' @ Itoa (int n))
         \<or> (\<exists>n. i = None \<and> i' = Some n \<and> h = h' @ ''.p'' @ Itoa (int n)))"
    (is "?eq \<longleftrightarrow> ns = ns' \<and> nm = nm' \<and> ?same")
proof -
  have d: "CHR ''-'' \<notin> set ns" "CHR ''-'' \<notin> set nm" "CHR ''-'' \<notin> set ns'" "CHR ''-'' \<notin> set nm'"
    using assms(1) by (simp_all add: dash_free_def)
  let ?r = "\<lambda>h i. ReplaceAll (host_with_index h i) CHR ''.'' ''-''"
  have "?eq \<longleftrightarrow> ns @ CHR ''-'' # (nm @ CHR ''-'' # ?r h i) = ns' @ CHR ''-'' # (nm' @ CHR ''-'' # ?r h' i')"
    using assms(2,3) by (simp add: routeID_plain)
  also have "\<dots> \<longleftrightarrow> ns = ns' \<and> nm = nm' \<and> ?r h i = ?r h' i'"
    using split_at_first [OF d(1,3)] split_at_first [OF d(2,4)] by blast
  also have "?r h i = ?r h' i' \<longleftrightarrow> host_with_index h i = host_with_index h' i'"
    by (auto dest: ReplaceAll_char_inj [OF _ host_with_index_dash_free [OF assms(2)] host_with_index_dash_free [OF assms(3)]])
  finally show ?thesis by (simp only: host_with_index_eq)
qed

theorem routeID_injective_witness:
  "routeID ''shop'' ''web'' ''a.example'' (Some 1) \<noteq> routeID ''shop'' ''web'' ''a.example'' (Some 2)
   \<and> routeID ''shop'' ''web'' ''a.example'' (Some 1) \<noteq> routeID ''shop'' ''api'' ''a.example'' (Some 1)
   \<and> routeID ''shop'' ''web'' ''x'' (Some 3) = routeID ''shop'' ''web'' ''x.p3'' None"
proof -
  note inj = routeID_injective [of "''shop''" "''web''" "''shop''"]
  have "Itoa (int 3) = ''3''" by code_simp
  then show ?thesis
    using inj [of "''web''" "''a.example''" "''a.example''" "Some 1" "Some 2"]
      inj [of "''api''" "''a.example''" "''a.example''" "Some 1" "Some 1"] inj [of "''web''" "''x''" "''x.p3''" "Some 3" None]
    by (simp add: dash_free_def plain_host_def)
qed

text \<open>Without those conditions identifiers collide: a dash in a host or a namespace, an empty host
  and the host \<open>any\<close>, a path index and a host label.\<close>

lemma routeID_collisions:
  "routeID ''shop'' ''web'' ''a.b'' None = routeID ''shop'' ''web'' ''a-b'' None"
  "routeID ''shop-a'' ''web'' ''x'' None = routeID ''shop'' ''a-web'' ''x'' None"
  "routeID ''shop'' ''web'' [] None = routeID ''shop'' ''web'' ''any'' None"
  "routeID ''shop'' ''web'' ''x'' (Some 3) = routeID ''shop'' ''web'' ''x.p3'' None"
  by code_simp+

subsection \<open>The routes of an Ingress\<close>

definition service_paths :: "ingress_rule \<Rightarrow> bool" where
  "service_paths rule =
     (case http_paths rule of None \<Rightarrow> False | Some ps \<Rightarrow> list_ex (\<lambda>p. backendService p \<noteq> None) ps)"

lemma map_filter_eq_Nil: "List.map_filter f xs = [] \<longleftrightarrow> (\<forall>x \<in> set xs. f x = None)"
  by (induction xs) (auto simp: List.map_filter_simps split: option.splits)

lemma rule_path_routes_Nil: "rule_path_routes ing sec ann rule = [] \<longleftrightarrow> \<not> service_paths rule"
proof (cases "http_paths rule")
  case (Some ps)
  have "path_route ing sec ann (host rule) x = None \<longleftrightarrow> backendService (snd x) = None" for x
    by (cases x) (simp add: path_route_def Let_def split: option.splits)
  moreover have "set ps = snd ` set (enumerate 0 ps)"
    by (metis list.set_map map_snd_enumerate)
  ultimately show ?thesis
    using Some by (simp add: rule_path_routes_def service_paths_def map_filter_eq_Nil list_ex_iff)
qed (simp add: rule_path_routes_def service_paths_def)

lemma rule_routes_cases:
  "\<not> service_paths rule \<Longrightarrow> rule_routes ing sec ann rule = []"
  "service_paths rule \<Longrightarrow> \<exists>hs. rule_routes ing sec ann rule =
     [\<lparr>route_id = routeID (ing_namespace ing) (ing_name ing) (host rule) None,
       route_match = (if rule_hosts ann rule = [] then [] else [no_match\<lparr>m_host := rule_hosts ann rule\<rparr>]),
       route_handle = hs, terminal = True\<rparr>]"
  by (auto simp: rule_routes_def Let_def rule_path_routes_Nil rule_hosts_def)

text \<open>C18: An Ingress yields one terminal route per rule with a service path, in the order of the
  rules; its identifier is that of the host and it matches the host and the server aliases, or
  everything when there is neither.\<close>

theorem convertIngress_routes:
  "map (\<lambda>r. (route_id r, route_match r, terminal r)) (convertIngress ing sec ann) =
   map (\<lambda>rule. (routeID (ing_namespace ing) (ing_name ing) (host rule) None,
                if rule_hosts ann rule = [] then [] else [no_match\<lparr>m_host := rule_hosts ann rule\<rparr>],
                True))
     (filter service_paths (rules ing))"
proof -
  have "map (\<lambda>r. (route_id r, route_match r, terminal r)) (concat (map (rule_routes ing sec ann) rs)) =
   map (\<lambda>rule. (routeID (ing_namespace ing) (ing_name ing) (host rule) None,
                if rule_hosts ann rule = [] then [] else [no_match\<lparr>m_host := rule_hosts ann rule\<rparr>],
                True))
     (filter service_paths rs)" for rs
  proof (induction rs)
    case (Cons rule rs)
    then show ?case
      using rule_routes_cases [of rule ing sec ann] by (cases "service_paths rule") auto
  qed simp
  then show ?thesis by (simp add: convertIngress_def)
qed

text \<open>C19: Every path of a rule whose backend is a service is offered: the route of the rule runs
  its handler chain, built for the service's cluster address, either directly or in a nested
  route with the path's identifier and matchers.\<close>

theorem service_path_offered:
  assumes "rule \<in> set (rules ing)" "http_paths rule = Some ps" "i < length ps"
    and "backendService (ps ! i) = Some svc"
    and chain: "chain = buildHandlers (svc_name svc @ ''.'' @ ing_namespace ing @ ''.svc.cluster.local:'' @ Itoa (svc_port svc))
                      sec ann (ing_tls ing = [])"
  shows "\<exists>r \<in> set (convertIngress ing sec ann).
      route_id r = routeID (ing_namespace ing) (ing_name ing) (host rule) None
      \<and> (route_handle r = chain
         \<or> (\<exists>rs. route_handle r = [subroute rs]
              \<and> \<lparr>route_id = routeID (ing_namespace ing) (ing_name ing) (host rule) (Some i),
                  route_match = (case convertPath (path (ps ! i)) (pathType (ps ! i)) of
                                   [] \<Rightarrow> [] | pats \<Rightarrow> [no_match\<lparr>m_path := pats\<rparr>]),
                  route_handle = chain, terminal = False\<rparr> \<in> set rs))"
proof -
  let ?pr = "\<lparr>route_id = routeID (ing_namespace ing) (ing_name ing) (host rule) (Some i),
                  route_match = (case convertPath (path (ps ! i)) (pathType (ps ! i)) of
                                   [] \<Rightarrow> [] | pats \<Rightarrow> [no_match\<lparr>m_path := pats\<rparr>]),
                  route_handle = chain, terminal = False\<rparr>"
  let ?rs = "rule_path_routes ing sec ann rule"
  let ?all = "buildIPGuardRoutes ann @ preflight_routes ann @ ?rs"
  have "(i, ps ! i) \<in> set (enumerate 0 ps)"
    using assms(3) by (simp add: in_set_enumerate_eq)
  moreover have "path_route ing sec ann (host rule) (i, ps ! i) = Some ?pr"
    using assms(4) by (simp add: path_route_def chain upstream_addr_def Let_def split: list.splits)
  ultimately have pr: "?pr \<in> set ?rs"
    using assms(2) by (force simp: rule_path_routes_def List.map_filter_def)
  then have ne: "?rs \<noteq> []" by auto
  obtain r where r: "rule_routes ing sec ann rule = [r]"
      "route_id r = routeID (ing_namespace ing) (ing_name ing) (host rule) None"
      "route_handle r = (if length ?all = 1 \<and> route_match (?all ! 0) = [] \<and> buildIPGuardRoutes ann = []
                         then route_handle (?all ! 0) else [subroute ?all])"
    using ne by (simp add: rule_routes_def Let_def)
  have "r \<in> set (convertIngress ing sec ann)"
    using assms(1) r(1) by (force simp: convertIngress_def)
  moreover have "route_handle r = chain \<or> (\<exists>rs. route_handle r = [subroute rs] \<and> ?pr \<in> set rs)"
  proof (cases "length ?all = 1 \<and> route_match (?all ! 0) = [] \<and> buildIPGuardRoutes ann = []")
    case True
    have "?pr \<in> set ?all" using pr by simp
    then obtain k where "k < length ?all" "?all ! k = ?pr"
      by (meson in_set_conv_nth)
    moreover from this True have "k = 0" by linarith
    ultimately have "?all ! 0 = ?pr" by simp
    moreover have "route_handle r = route_handle (?all ! 0)"
      unfolding r(3) by (rule if_P [OF True])
    ultimately show ?thesis by simp
  next
    case False
    with r(3) pr show ?thesis by auto
  qed
  ultimately show ?thesis using r(2) by blast
qed

theorem service_path_offered_witness:
  "\<exists>r \<in> set (convertIngress demo_ingress demo_security demo_annotations).
     route_id r = ''caddy-k8s-shop-web-shop-example''"
proof -
  have id: "routeID (ing_namespace demo_ingress) (ing_name demo_ingress) ''shop.example'' None
      = ''caddy-k8s-shop-web-shop-example''"
    by code_simp
  show ?thesis
    using service_path_offered [of "rules demo_ingress ! 0" demo_ingress
        "[\<lparr>path = ''/api'', pathType = Some PathTypePrefix, backendService = Some \<lparr>svc_name = ''api'', svc_port = 80\<rparr>\<rparr>]"
        0 "\<lparr>svc_name = ''api'', svc_port = 80\<rparr>" _ demo_security demo_annotations, OF _ _ _ _ refl] id
    by (auto simp: demo_ingress_def)
qed

subsection \<open>The generated JSON is canonical\<close>

text \<open>Every object of a generated route has sorted, distinct keys, as \<open>encoding/json\<close> writes a
  map, so a route and what is read back of it can be compared as text.\<close>

named_theorems canonical_intros \<open>canonical JSON of the generated values\<close>

lemma canonical_unless: "(\<not> b \<Longrightarrow> canonical j) \<Longrightarrow> list_all (\<lambda>(k, j). canonical j) (unless b k j)"
  by (simp add: unless_def)

lemma canonical_if [canonical_intros]:
  "(b \<Longrightarrow> canonical j) \<Longrightarrow> (\<not> b \<Longrightarrow> canonical j') \<Longrightarrow> canonical (if b then j else j')"
  by simp

lemma canonical_remote_ip_entry: "(k, j) \<in> set (remote_ip_entry r) \<Longrightarrow> canonical j"
  by (auto simp: remote_ip_entry_def remote_ip_json_def list_all_iff intro!: canonical_obj split: option.splits)

lemma canonical_inner [simp]: "canonical (inner_json m)"
  unfolding inner_json_def
  by (intro canonical_obj) (auto simp: list_all_iff dest: canonical_remote_ip_entry)

definition match_wf :: "caddyMatch \<Rightarrow> bool" where
  "match_wf m = keys_sorted (m_headers m)"

lemma canonical_match [canonical_intros]: "match_wf m \<Longrightarrow> canonical (match_json m)"
  unfolding match_json_def match_wf_def
  by (intro canonical_obj)
    (auto simp: list_all_iff unless_def intro: canonical_JStrs dest: canonical_remote_ip_entry)

definition route_wf :: "caddyRoute \<Rightarrow> bool" where
  "route_wf r = (list_all match_wf (route_match r) \<and> list_all canonical (route_handle r))"

lemma canonical_route [canonical_intros]: "route_wf r \<Longrightarrow> canonical (route_json r)"
  unfolding route_json_def route_wf_def
  by (intro canonical_obj) (auto simp: list_all_iff unless_def intro: canonical_intros)

lemma canonical_subroute [canonical_intros]: "list_all route_wf rs \<Longrightarrow> canonical (subroute rs)"
  unfolding subroute_def
  by (intro canonical_obj) (auto simp: list_all_iff intro: canonical_intros)

lemma keys_sorted_mput_if [simp]: "keys_sorted m \<Longrightarrow> keys_sorted (if b then mput k v m else m)"
  by (simp add: keys_sorted_mput)

lemma keys_sorted_cors [simp]: "keys_sorted (buildCORSResponseHeaders c d)"
  by (simp add: buildCORSResponseHeaders_def Let_def)

lemma canonical_strings [simp]: "list_all canonical (map JStr xs)"
  by (simp add: list_all_iff)

lemma canonical_account [simp]: "canonical (account_json ac)"
  by (simp add: account_json_def canonical_obj)

lemma canonical_accounts [simp]: "list_all canonical (map account_json acs)"
  by (simp add: list_all_iff)

lemma canonical_handlers [canonical_intros]:
  "canonical (static_status code)"
  "canonical (static_redirect code loc)"
  "canonical (rateLimitHandler ns nm rps)"
  "canonical (basicAuthHandler ba)"
  "canonical securityHeadersHandler"
  "canonical (wafHandler md ds)"
  "canonical (corsResponseHandler c d)"
  by (simp_all add: static_status_def static_redirect_def rateLimitHandler_def basicAuthHandler_def
      securityHeadersHandler_def wafHandler_def corsResponseHandler_def canonical_obj)

lemma canonical_response [canonical_intros]: "headers_wf h \<Longrightarrow> canonical (responseHeadersHandler h)"
  by (simp add: responseHeadersHandler_def headers_wf_def single_values_def canonical_obj)

lemma keys_sorted_upstream_headers: "headers_wf h \<Longrightarrow> keys_sorted (upstream_headers i p pl h)"
  by (simp add: upstream_headers_def Let_def keys_sorted_mcopy)

lemma canonical_transport: "list_all (\<lambda>(k, j). canonical j) (transport_settings p)"
  by (simp add: transport_settings_def canonical_obj)

lemma canonical_proxy [canonical_intros]: "headers_wf h \<Longrightarrow> canonical (reverseProxyHandler u i p pl h)"
  by (simp add: reverseProxyHandler_def Let_def canonical_obj canonical_transport keys_sorted_upstream_headers)

lemma canonical_core:
  assumes "headers_wf (requestHeaders ann)" "headers_wf (responseHeaders ann)" "canonical (authPolicyHandler ann)"
  shows "list_all canonical (buildCoreHandlers u sec ann pl c d)"
  using assms unfolding buildCoreHandlers_def
  by (simp add: canonical_intros canonical_obj split: option.split)

lemma match_wf_simps [simp]:
  "match_wf (m\<lparr>m_host := hs\<rparr>) = match_wf m"
  "match_wf (m\<lparr>m_path := ps\<rparr>) = match_wf m"
  "match_wf (m\<lparr>m_method := ms\<rparr>) = match_wf m"
  "match_wf (m\<lparr>m_remote_ip := r\<rparr>) = match_wf m"
  "match_wf (m\<lparr>m_not := n\<rparr>) = match_wf m"
  "match_wf (m\<lparr>m_headers := gomap_of h\<rparr>)"
  "match_wf no_match"
  by (simp_all add: match_wf_def no_match_def)

lemma canonical_chain:
  assumes "headers_wf (requestHeaders ann)" "headers_wf (responseHeaders ann)" "canonical (authPolicyHandler ann)"
  shows "list_all canonical (buildHandlers u sec ann pl)"
  using canonical_core [OF assms]
  by (simp add: buildHandlers_def case_prod_beta cors_branches_def route_wf_def canonical_intros
      split: option.split)

lemma convertIngress_canonical:
  assumes "ann_wf ann" "canonical (authPolicyHandler ann)" "r \<in> set (convertIngress ing sec ann)"
  shows "canonical (route_json r)"
proof (rule canonical_route)
  have w: "headers_wf (requestHeaders ann)" "headers_wf (responseHeaders ann)"
    using assms(1) by (simp_all add: ann_wf_def)
  from assms(3) obtain rule where r: "r \<in> set (rule_routes ing sec ann rule)"
    by (auto simp: convertIngress_def)
  have p: "list_all route_wf (rule_path_routes ing sec ann rule)"
    using canonical_chain [OF w assms(2)]
    by (auto simp: list_all_iff rule_path_routes_def List.map_filter_def path_route_def Let_def route_wf_def
        split: option.splits)
  have "list_all route_wf (buildIPGuardRoutes ann @ preflight_routes ann)"
    by (simp add: buildIPGuardRoutes_def deny_route_def preflight_routes_def corsPreflightRoute_def
        Let_def route_wf_def canonical_intros split: option.split)
  with p have all: "list_all route_wf (buildIPGuardRoutes ann @ preflight_routes ann @ rule_path_routes ing sec ann rule)"
    by simp
  then show "route_wf r"
    using r nth_mem [of 0 "buildIPGuardRoutes ann @ preflight_routes ann @ rule_path_routes ing sec ann rule"]
    by (auto simp: rule_routes_def Let_def route_wf_def list_all_iff intro!: canonical_subroute split: if_splits)
qed

end
