(* ===== verification/Route_Types.thy ===== *)
theory Route_Types
  imports Route_Ids
begin

section \<open>The type of the generated configuration (routes.go)\<close>

text \<open>
  Caddy decodes a route strictly: a value of another type and a field that a module does not know are
  errors. \<open>conforms\<close> is such a typing judgement, over the modules the controller writes and the
  fields it may use of them, as Caddy and the plugins for rate limits and the WAF document
  them. A route refers to handlers, and a handler of the module \<open>subroute\<close> to routes.
\<close>

datatype schema = TStr | TNum | TBool | TArr schema | TDict schema | TRec "(string \<times> bool \<times> schema) list" | TRoute | THandler

text \<open>A field has a name, a flag whether it is required, and a type.\<close>

type_synonym fields = "(string \<times> bool \<times> schema) list"

abbreviation THeaders :: schema where
  "THeaders \<equiv> TDict (TArr TStr)"

definition ip_schema :: schema where
  "ip_schema = TRec [(''ranges'', True, TArr TStr)]"

definition match_schema :: schema where
  "match_schema = TRec
     [(''host'', False, TArr TStr), (''path'', False, TArr TStr), (''method'', False, TArr TStr), (''header'', False, THeaders),
      (''remote_ip'', False, ip_schema), (''not'', False, TArr (TRec [(''remote_ip'', True, ip_schema)]))]"

definition route_fields :: fields where
  "route_fields =
     [(''@id'', False, TStr), (''match'', False, TArr match_schema), (''handle'', True, TArr THandler), (''terminal'', False, TBool)]"

definition header_ops :: schema where
  "header_ops = TRec [(''set'', False, THeaders), (''delete'', False, TArr TStr)]"

definition transport_schema :: schema where
  "transport_schema = TRec
     [(''protocol'', True, TStr), (''tls'', False, TRec [(''insecure_skip_verify'', False, TBool)]), (''versions'', False, TArr TStr),
      (''response_header_timeout'', False, TStr), (''write_timeout'', False, TStr), (''dial_timeout'', False, TStr)]"

definition modules :: "(string \<times> fields) list" where
  "modules =
     [(''headers'', [(''response'', True, header_ops)]),
      (''static_response'', [(''status_code'', True, TNum), (''headers'', False, THeaders)]),
      (''rate_limit'', [(''rate_limits'', True,
          TDict (TRec [(''key'', True, TStr), (''window'', True, TStr), (''max_events'', True, TNum)]))]),
      (''authentication'', [(''providers'', True, TRec [(''http_basic'', True,
          TRec [(''realm'', True, TStr), (''accounts'', True, TArr (TRec [(''username'', True, TStr), (''password'', True, TStr)]))])])]),
      (''waf'', [(''load_owasp_crs'', True, TBool), (''directives'', True, TStr)]),
      (''request_body'', [(''max_size'', True, TNum)]),
      (''rewrite'', [(''uri'', True, TStr)]),
      (''reverse_proxy'',
         [(''upstreams'', True, TArr (TRec [(''dial'', True, TStr)])), (''transport'', False, transport_schema),
          (''headers'', False, TRec [(''request'', True, header_ops)]),
          (''load_balancing'', False, TRec [(''retries'', True, TNum)])]),
      (''subroute'', [(''routes'', True, TArr TRoute)])]"

definition module_fields :: "string \<Rightarrow> fields option" where
  "module_fields h = map_option (\<lambda>fs. (''handler'', True, TStr) # fs) (map_of modules h)"

fun fields_of :: "schema \<Rightarrow> (string \<times> json) list \<Rightarrow> fields option" where
  "fields_of (TRec fs) m = Some fs"
| "fields_of TRoute m = Some route_fields"
| "fields_of THandler m = (case map_of m ''handler'' of Some (JStr h) \<Rightarrow> module_fields h | _ \<Rightarrow> None)"
| "fields_of _ m = None"

definition required_in :: "fields \<Rightarrow> (string \<times> json) list \<Rightarrow> bool" where
  "required_in fs m = list_all (\<lambda>(k, req, t). req \<longrightarrow> map_of m k \<noteq> None) fs"

text \<open>\<open>ext\<close> are handlers that are taken over from outside and not judged.\<close>

fun conforms :: "(json \<Rightarrow> bool) \<Rightarrow> schema \<Rightarrow> json \<Rightarrow> bool" where
  "conforms ext t JNull = (t = THandler \<and> ext JNull)"
| "conforms ext t (JStr s) = (t = TStr \<or> t = THandler \<and> ext (JStr s))"
| "conforms ext t (JNum n) = (t = TNum \<or> t = THandler \<and> ext (JNum n))"
| "conforms ext t (JBool b) = (t = TBool \<or> t = THandler \<and> ext (JBool b))"
| "conforms ext t (JArr js) = (t = THandler \<and> ext (JArr js) \<or> (case t of TArr u \<Rightarrow> list_all (conforms ext u) js | _ \<Rightarrow> False))"
| "conforms ext t (JObj m) =
     (t = THandler \<and> ext (JObj m)
      \<or> (case t of
           TDict u \<Rightarrow> list_all (\<lambda>(k, j). conforms ext u j) m
         | _ \<Rightarrow>
             (case fields_of t m of
                None \<Rightarrow> False
              | Some fs \<Rightarrow>
                  list_all (\<lambda>(k, j). case map_of fs k of None \<Rightarrow> False | Some (req, u) \<Rightarrow> conforms ext u j) m \<and> required_in fs m)))"

subsection \<open>Object literals\<close>

lemma conforms_ext: "ext j \<Longrightarrow> conforms ext THandler j"
  by (cases j) simp_all

definition fits :: "(json \<Rightarrow> bool) \<Rightarrow> fields \<Rightarrow> (string \<times> json) list \<Rightarrow> bool" where
  "fits ext fs kvs =
     (list_all (\<lambda>(k, j). case map_of fs k of None \<Rightarrow> False | Some (req, u) \<Rightarrow> conforms ext u j) kvs
      \<and> list_all (\<lambda>(k, req, t). req \<longrightarrow> k \<in> fst ` set kvs) fs)"

lemma required_gomap: "list_all (\<lambda>(k, req, t). req \<longrightarrow> k \<in> fst ` set kvs) fs \<Longrightarrow> required_in fs (gomap_of kvs)"
  unfolding required_in_def
  by (rule list.pred_mono_strong, assumption) (auto simp: map_of_eq_None_iff)

lemma conforms_obj:
  assumes "fields_of t (gomap_of kvs) = Some fs" "fits ext fs kvs"
  shows "conforms ext t (obj kvs)"
proof -
  have "list_all (\<lambda>(k, j). case map_of fs k of None \<Rightarrow> False | Some (req, u) \<Rightarrow> conforms ext u j) (gomap_of kvs)"
    using assms(2) set_gomap_of [of kvs] unfolding fits_def list_all_iff by blast
  then show ?thesis
    using assms required_gomap [of kvs fs] by (cases t) (simp_all add: obj_def fits_def)
qed

lemma conforms_rec: "fits ext fs kvs \<Longrightarrow> conforms ext (TRec fs) (obj kvs)"
  by (rule conforms_obj) simp_all

lemma conforms_handler:
  "map_of (rev kvs) ''handler'' = Some (JStr h) \<Longrightarrow> module_fields h \<noteq> None \<Longrightarrow> fits ext (the (module_fields h)) kvs \<Longrightarrow>
   conforms ext THandler (obj kvs)"
  by (rule conforms_obj) auto

lemma conforms_dict: "list_all (\<lambda>(k, j). conforms ext u j) kvs \<Longrightarrow> conforms ext (TDict u) (obj kvs)"
  using set_gomap_of [of kvs] by (auto simp: obj_def list_all_iff)

lemma list_all_True [simp]: "list_all (\<lambda>x. True) xs"
  by (simp add: list_all_iff)

lemma conforms_arr: "list_all (conforms ext u) js \<Longrightarrow> conforms ext (TArr u) (JArr js)"
  by simp

lemma conforms_headers [simp]: "conforms ext THeaders (jheaders h)"
  by (auto simp: jheaders_def list_all_iff)

subsection \<open>Matchers and handlers\<close>

lemmas schema_simps = fits_def module_fields_def modules_def route_fields_def match_schema_def ip_schema_def header_ops_def
  transport_schema_def unless_def list.pred_map comp_def

named_theorems typed \<open>generated values have their type\<close>

lemma typed_ip [typed]: "conforms ext ip_schema (remote_ip_json r)"
  unfolding remote_ip_json_def ip_schema_def by (rule conforms_rec) (simp add: schema_simps)

lemma typed_static [typed]: "conforms ext THandler (static_status code)" "conforms ext THandler (static_redirect code loc)"
  unfolding static_status_def static_redirect_def
  by (rule conforms_handler [of _ "''static_response''"]; simp add: schema_simps)+

lemma typed_cors [typed]: "conforms ext THandler (corsResponseHandler c d)"
  unfolding corsResponseHandler_def
  by (rule conforms_handler [of _ "''headers''"]) (simp_all add: schema_simps conforms_rec)

lemma typed_rate [typed]: "conforms ext THandler (rateLimitHandler ns nm rps)"
  unfolding rateLimitHandler_def
  by (rule conforms_handler [of _ "''rate_limit''"]) (simp_all add: schema_simps conforms_rec conforms_dict)

lemma typed_basic [typed]: "conforms ext THandler (basicAuthHandler b)"
  unfolding basicAuthHandler_def
  by (rule conforms_handler [of _ "''authentication''"]) (simp_all add: schema_simps conforms_rec account_json_def)

lemma typed_security [typed]: "conforms ext THandler securityHeadersHandler"
  unfolding securityHeadersHandler_def
  by (rule conforms_handler [of _ "''headers''"]) (simp_all add: schema_simps conforms_rec)

lemma typed_response [typed]: "conforms ext THandler (responseHeadersHandler h)"
  unfolding responseHeadersHandler_def
  by (rule conforms_handler [of _ "''headers''"]) (simp_all add: schema_simps conforms_rec)

lemma typed_waf [typed]: "conforms ext THandler (wafHandler md ds)"
  unfolding wafHandler_def
  by (rule conforms_handler [of _ "''waf''"]) (simp_all add: schema_simps)

lemma typed_proxy [typed]: "conforms ext THandler (reverseProxyHandler u i p pl h)"
proof -
  have t: "conforms ext transport_schema (obj ((''protocol'', JStr ''http'') # transport_settings p))"
    unfolding transport_schema_def by (rule conforms_rec) (simp add: fits_def transport_settings_def list.pred_map comp_def conforms_rec)
  have r: "conforms ext header_ops (obj ((if hs \<noteq> [] then [(''set'', jheaders hs)] else []) @ (if ds \<noteq> [] then [(''delete'', JStrs ds)] else [])))" for hs ds
    unfolding header_ops_def by (rule conforms_rec) (simp add: fits_def list.pred_map comp_def)
  show ?thesis
    unfolding reverseProxyHandler_def Let_def
    by (rule conforms_handler [of _ "''reverse_proxy''"]) (simp_all add: module_fields_def modules_def fits_def conforms_rec t r)
qed

lemma typed_inner: "inner_remote_ip i \<noteq> None \<Longrightarrow> conforms ext (TRec [(''remote_ip'', True, ip_schema)]) (inner_json i)"
  unfolding inner_json_def by (rule conforms_rec) (auto simp: fits_def remote_ip_entry_def typed)

definition match_typed :: "caddyMatch \<Rightarrow> bool" where
  "match_typed m = list_all (\<lambda>i. inner_remote_ip i \<noteq> None) (m_not m)"

lemma typed_match: "match_typed m \<Longrightarrow> conforms ext match_schema (match_json m)"
  unfolding match_json_def match_schema_def
  by (rule conforms_rec)
    (auto simp: fits_def unless_def remote_ip_entry_def typed list.pred_map comp_def match_typed_def list_all_iff typed_inner
       split: option.split)

subsection \<open>Routes\<close>

text \<open>The type of a route on the level of the records.\<close>

definition route_typed :: "(json \<Rightarrow> bool) \<Rightarrow> caddyRoute \<Rightarrow> bool" where
  "route_typed ext r =
     (route_handle r \<noteq> [] \<and> list_all (conforms ext THandler) (route_handle r) \<and> list_all match_typed (route_match r))"

lemma typed_route: "route_typed ext r \<Longrightarrow> conforms ext TRoute (route_json r)"
  unfolding route_json_def
  by (rule conforms_obj [of _ _ route_fields])
    (auto simp: route_typed_def fits_def route_fields_def unless_def list.pred_map comp_def list_all_iff typed_match)

lemma typed_subroute: "list_all (route_typed ext) rs \<Longrightarrow> conforms ext THandler (subroute rs)"
  unfolding subroute_def
  by (rule conforms_handler [of _ "''subroute''"])
    (auto simp: module_fields_def modules_def fits_def list.pred_map comp_def list_all_iff typed_route)

text \<open>A handler that a ConfigMap supplies is not judged.\<close>

abbreviation supplied :: "ingressAnnotations \<Rightarrow> json \<Rightarrow> bool" where
  "supplied ann h \<equiv> h \<noteq> JNull \<and> h = authPolicyHandler ann"

lemma typed_core: "list_all (conforms (supplied ann) THandler) (buildCoreHandlers u sec ann pl c d)"
proof -
  have "conforms ext THandler (obj [(''handler'', JStr ''request_body''), (''max_size'', JNum n)])" for ext n
    by (rule conforms_handler [of _ "''request_body''"]) (simp_all add: schema_simps)
  moreover have "conforms ext THandler (obj [(''handler'', JStr ''rewrite''), (''uri'', JStr v)])" for ext v
    by (rule conforms_handler [of _ "''rewrite''"]) (simp_all add: schema_simps)
  ultimately show ?thesis
    by (simp add: buildCoreHandlers_def typed conforms_ext split: option.split)
qed

lemma core_nonempty: "buildCoreHandlers u sec ann pl c d \<noteq> []"
  by (simp add: buildCoreHandlers_def)

lemma typed_build:
  "buildHandlers u sec ann pl \<noteq> []" "list_all (conforms (supplied ann) THandler) (buildHandlers u sec ann pl)"
proof -
  have "list_all (route_typed (supplied ann)) (cors_branches c u sec ann pl)" for c
    using typed_core [of ann u sec pl] core_nonempty
    by (simp add: cors_branches_def route_typed_def match_typed_def no_match_def)
  then show "list_all (conforms (supplied ann) THandler) (buildHandlers u sec ann pl)"
    using typed_core by (simp add: buildHandlers_def typed typed_subroute split: prod.split option.split)
  show "buildHandlers u sec ann pl \<noteq> []"
    using core_nonempty by (simp add: buildHandlers_def split: prod.split option.split)
qed

lemma typed_parts:
  "list_all (route_typed ext) (buildIPGuardRoutes ann)" "list_all (route_typed ext) (preflight_routes ann)"
  by (auto simp: buildIPGuardRoutes_def deny_route_def preflight_routes_def corsPreflightRoute_def route_typed_def match_typed_def
      no_match_def typed Let_def split: option.split)

lemma typed_paths: "list_all (route_typed (supplied ann)) (rule_path_routes ing sec ann rule)"
  by (auto simp: rule_path_routes_def path_route_def list_all_iff List.map_filter_def route_typed_def match_typed_def no_match_def
      typed_build [unfolded list_all_iff] Let_def split: option.splits)

lemma typed_rule: "list_all (route_typed (supplied ann)) (rule_routes ing sec ann rule)"
proof -
  let ?all = "buildIPGuardRoutes ann @ preflight_routes ann @ rule_path_routes ing sec ann rule"
  have a: "list_all (route_typed (supplied ann)) ?all" using typed_parts typed_paths by simp
  then have "length ?all = 1 \<Longrightarrow> route_typed (supplied ann) (?all ! 0)" by (cases ?all) simp_all
  with a show ?thesis
    unfolding rule_routes_def Let_def
    by (auto simp: route_typed_def match_typed_def no_match_def typed_subroute)
qed

text \<open>C5: Every generated route is well typed. Whatever the Ingress, the settings and the annotations, the
  JSON of each route for the HTTPS server and of each redirect route is a route of Caddy's schema:
  every field is known to its module and has a value of its type, every handler names a known module and has
  its required fields, down through the nested subroutes. The only part that is not checked is the handler
  that an auth-policy ConfigMap supplies.\<close>

theorem routes_conform:
  "list_all (\<lambda>r. conforms (\<lambda>h. h \<noteq> JNull \<and> h = authPolicyHandler ann) TRoute (route_json r))
     (convertIngress ing sec ann @ httpRedirectRoutes ing)"
proof -
  have "list_all (route_typed (supplied ann)) (convertIngress ing sec ann)"
    using typed_rule by (auto simp: convertIngress_def list_all_iff)
  moreover have "list_all (route_typed (supplied ann)) (httpRedirectRoutes ing)"
    by (auto simp: httpRedirectRoutes_def list_all_iff route_typed_def match_typed_def no_match_def typed)
  ultimately show ?thesis by (auto simp: list_all_iff typed_route)
qed

end
