(* ===== verification/Waf_Cm.thy ===== *)
theory Waf_Cm
  imports Annotations
begin

section \<open>Per-Ingress WAF ConfigMaps (waf_cm.go)\<close>

text \<open>
  Creating the ConfigMap with the default directives for an Ingress that turns the WAF on and
  names none, and annotating the Ingress with its name. The contract \<open>configmap_api\<close> states what is
  relied on of the API server, and \<open>ensureWAFConfigMap_ensures\<close> what the operation does to the cluster.
\<close>

definition default_directive_lines :: "string list" where
  "default_directive_lines =
     [''# Per-Ingress Coraza WAF directives.'',
      ''# Lines starting with '' @ [CHR 0x27] @ ''#'' @ [CHR 0x27] @ '' and blank lines are ignored by caddy-k8s.'',
      ''#'',
      ''# Directives here are appended after the OWASP CRS Includes, so you can:'',
      ''#   Disable a rule:           SecRuleRemoveById 920350'',
      ''#   Restrict a rule'' @ [CHR 0x27] @ ''s target: SecRuleUpdateTargetById 942100 '' @ [CHR 0x22] @ ''!ARGS:search'' @ [CHR 0x22],
      ''#   Add a custom rule:        SecRule ARGS '' @ [CHR 0x22] @ ''@contains badword'' @ [CHR 0x22] @ '' '' @ [CHR 0x22] @ ''id:1001,phase:2,deny,status:400'' @ [CHR 0x22],
      ''#'',
      ''# SecRuleEngine is controlled by the caddy.ingress/waf annotation '' @ [CHR 0xE2, CHR 0x80, CHR 0x94] @ '' do not set it here.'']"

text \<open>The raw string literal: its lines, the last newline included.\<close>

definition defaultWAFDirectives :: string where
  "defaultWAFDirectives = Join [CHR 0x0A] (default_directive_lines @ [[]])"

definition wafConfigMapName :: "string \<Rightarrow> string" where
  "wafConfigMapName ingName = ingName @ ''-waf-rules''"

text \<open>\<open>fmt\<close>'s \<open>%q\<close> on the names the API server admits, which are printable ASCII.\<close>

definition go_quote :: "string \<Rightarrow> string" where
  "go_quote s =
     CHR 0x22 # concat (map (\<lambda>c. if c = CHR 0x22 \<or> c = CHR 0x5C then [CHR 0x5C, c] else [c]) s) @ [CHR 0x22]"

definition waf_configmap :: "string \<Rightarrow> string \<Rightarrow> ingress \<Rightarrow> configmap" where
  "waf_configmap ns cmName ing =
     \<lparr>cm_name = cmName, cm_namespace = ns,
      cm_labels = gomap_of [(''app.kubernetes.io/managed-by'', ''caddy-k8s''), (''caddy.ingress/ingress'', ing_name ing)],
      cm_owners = [\<lparr>or_apiVersion = ''networking.k8s.io/v1'', or_kind = ''Ingress'', or_name = ing_name ing,
                    or_uid = ing_uid ing, or_controller = False, or_blockOwnerDeletion = False\<rparr>],
      cm_data = gomap_of [(''directives'', defaultWAFDirectives)]\<rparr>"

definition createWAFConfigMapIfAbsent ::
    "'w env \<Rightarrow> string \<Rightarrow> string \<Rightarrow> ingress \<Rightarrow> 'w \<Rightarrow> go_error option \<times> 'w" where
  "createWAFConfigMapIfAbsent e ns cmName ing w =
     (case get_configmap e ns cmName w of
        (Inr cm, w) \<Rightarrow> (None, w)
      | (Inl err, w) \<Rightarrow>
          if \<not> IsNotFound err then (Some (''get configmap: '' @ kube_text err), w)
          else
            (case create_configmap e ns (waf_configmap ns cmName ing) w of
               (None, w) \<Rightarrow> (None, w)
             | (Some err, w) \<Rightarrow> if IsAlreadyExists err then (None, w) else (Some (kube_text err), w)))"

definition waf_patch :: "string \<Rightarrow> string" where
  "waf_patch cmName =
     CHR ''{'' # [CHR 0x22] @ ''metadata'' @ [CHR 0x22] @ '':{'' @ [CHR 0x22] @ ''annotations'' @ [CHR 0x22] @ '':{''
       @ go_quote annotationWAFRulesConfigMap @ '':'' @ go_quote cmName @ ''}}}''"

definition ensureWAFConfigMap :: "'w env \<Rightarrow> ingress \<Rightarrow> 'w \<Rightarrow> (go_error + string) \<times> 'w" where
  "ensureWAFConfigMap e ing w =
     (let wafVal = ToLower (TrimSpace (mindex (annotations ing) annotationWAF)) in
      if wafVal \<noteq> ''on'' \<and> wafVal \<noteq> ''detection'' then (Inr [], w)
      else
        (let existing = TrimSpace (mindex (annotations ing) annotationWAFRulesConfigMap) in
         if existing \<noteq> [] then (Inr existing, w)
         else
           (let cmName = wafConfigMapName (ing_name ing) in
            case createWAFConfigMapIfAbsent e (ing_namespace ing) cmName ing w of
              (Some err, w) \<Rightarrow>
                (Inl (''create waf configmap '' @ ing_namespace ing @ ''/'' @ cmName @ '': '' @ err), w)
            | (None, w) \<Rightarrow>
                (let (patchErr, w) = patch_ingress e (ing_namespace ing) (ing_name ing) (waf_patch cmName) w
                 in (Inr cmName, w)))))"

section \<open>What ensuring guarantees\<close>

text \<open>Every line of the default text is a comment.\<close>

lemma default_lines_comments:
  "list_all (\<lambda>l. HasPrefix l ''#'' \<and> trimmed l \<and> CHR 0x0A \<notin> set l) default_directive_lines"
proof -
  have "list_all (\<lambda>l. prefix ''#'' l \<and> l \<noteq> [] \<and> printable (hd l) \<and> printable (last l) \<and> CHR 0x0A \<notin> set l) default_directive_lines"
    by (simp add: default_directive_lines_def printable_def)
  then show ?thesis
    by (auto simp: list_all_iff HasPrefix_def intro: trimmed_ends)
qed

text \<open>Whether the Ingress asks for a WAF and names no ConfigMap yet.\<close>

definition waf_requested :: "ingress \<Rightarrow> bool" where
  "waf_requested ing = (ToLower (TrimSpace (mindex (annotations ing) annotationWAF)) \<in> {''on'', ''detection''})"

definition waf_named :: "ingress \<Rightarrow> string" where
  "waf_named ing = TrimSpace (mindex (annotations ing) annotationWAFRulesConfigMap)"

lemma createWAFConfigMapIfAbsent_cases:
  "createWAFConfigMapIfAbsent e ns cm ing w = (err, w') \<Longrightarrow>
     (case get_configmap e ns cm w of
        (Inr c, w1) \<Rightarrow> err = None \<and> w' = w1
      | (Inl (NotFound t), w1) \<Rightarrow>
          w' = snd (create_configmap e ns (waf_configmap ns cm ing) w1)
          \<and> (err = None \<longleftrightarrow> (case fst (create_configmap e ns (waf_configmap ns cm ing) w1) of
                              None \<Rightarrow> True | Some k \<Rightarrow> IsAlreadyExists k))
      | (Inl k, w1) \<Rightarrow> err \<noteq> None \<and> w' = w1)"
  by (auto simp: createWAFConfigMapIfAbsent_def split: prod.splits sum.splits option.splits kube_error.splits if_splits)

text \<open>\<open>ensureWAFConfigMap\<close> touches nothing unless the Ingress turns the WAF on or to detection and
  names no ConfigMap: it then returns the conventional name once that ConfigMap exists, created
  only after the API server said it is absent (so an edited ConfigMap is never overwritten), and
  returns it also when the annotation cannot be patched or another sync created it first.\<close>

lemma ensureWAFConfigMap_result:
  "(\<not> waf_requested ing \<longrightarrow> ensureWAFConfigMap e ing w = (Inr [], w))
   \<and> (waf_requested ing \<and> waf_named ing \<noteq> [] \<longrightarrow> ensureWAFConfigMap e ing w = (Inr (waf_named ing), w))
   \<and> (waf_requested ing \<and> waf_named ing = [] \<longrightarrow>
        (let ns = ing_namespace ing; cm = ing_name ing @ ''-waf-rules''
         in case get_configmap e ns cm w of
              (Inr c, w1) \<Rightarrow>
                ensureWAFConfigMap e ing w = (Inr cm, snd (patch_ingress e ns (ing_name ing) (waf_patch cm) w1))
            | (Inl (NotFound t), w1) \<Rightarrow>
                (case create_configmap e ns (waf_configmap ns cm ing) w1 of
                   (None, w2) \<Rightarrow>
                     ensureWAFConfigMap e ing w = (Inr cm, snd (patch_ingress e ns (ing_name ing) (waf_patch cm) w2))
                 | (Some (AlreadyExists t'), w2) \<Rightarrow>
                     ensureWAFConfigMap e ing w = (Inr cm, snd (patch_ingress e ns (ing_name ing) (waf_patch cm) w2))
                 | (Some k, w2) \<Rightarrow> isl (fst (ensureWAFConfigMap e ing w)) \<and> snd (ensureWAFConfigMap e ing w) = w2)
            | (Inl k, w1) \<Rightarrow> isl (fst (ensureWAFConfigMap e ing w)) \<and> snd (ensureWAFConfigMap e ing w) = w1))"
  by (auto simp: ensureWAFConfigMap_def waf_requested_def waf_named_def createWAFConfigMapIfAbsent_def
      wafConfigMapName_def Let_def case_prod_beta split: sum.split option.split kube_error.split)

definition waf_ingress :: ingress where
  "waf_ingress =
     \<lparr>ing_namespace = ''shop'', ing_name = ''web'', ing_uid = ''u1'',
      annotations = [(annotationWAF, ''On'')], ingressClassName = None, ing_tls = [], rules = []\<rparr>"

lemma ensureWAFConfigMap_result_instance:
  "ensureWAFConfigMap (offline\<lparr>create_configmap := (\<lambda>ns cm w. (None, w))\<rparr> :: unit env) waf_ingress ()
     = (Inr ''web-waf-rules'', ())"
proof -
  let ?e = "offline\<lparr>create_configmap := (\<lambda>ns cm w. (None, w))\<rparr> :: unit env"
  have "waf_requested waf_ingress" by code_simp
  moreover have "waf_named waf_ingress = []" by code_simp
  ultimately show ?thesis
    using ensureWAFConfigMap_result [of waf_ingress ?e "()"]
    by (simp add: waf_ingress_def offline_def)
qed

text \<open>A ConfigMap as the controller creates it adds no directive to the WAF: reading it back yields
  the empty list.\<close>

lemma default_configmap_is_neutral:
  assumes "get_configmap e ns cm w = (Inr (waf_configmap ns cm ing), w')"
  shows "fetchWAFDirectives e ns cm w = (Inr [], w')"
proof -
  have "Split (CHR 0x0A) defaultWAFDirectives = default_directive_lines @ [[]]"
    unfolding defaultWAFDirectives_def
    using default_lines_comments by (intro Split_Join) (auto simp: list_all_iff)
  then have "content_lines defaultWAFDirectives = []"
    using default_lines_comments
    by (auto simp: content_lines_def trimmed_fields_def filter_empty_conv list_all_iff trimmed_TrimSpace)
  with assms show ?thesis
    by (simp add: fetchWAFDirectives_def waf_configmap_def)
qed

lemma default_configmap_is_neutral_instance:
  "fetchWAFDirectives (offline\<lparr>get_configmap := (\<lambda>ns nm w. (Inr (waf_configmap ns nm waf_ingress), w))\<rparr> :: unit env)
     ''shop'' ''web-waf-rules'' () = (Inr [], ())"
  by (rule default_configmap_is_neutral [where ing = waf_ingress]) (simp add: offline_def)

section \<open>What ensuring does to the cluster\<close>

text \<open>
  What the controller relies on of the API server's ConfigMaps, as the Kubernetes API documents it.
  \<open>cms w\<close> are the ConfigMaps of the cluster by namespace and name, and other clients may create those in
  \<open>K\<close> at any time, but change and delete none while the operation runs. A successful read returns what is stored; \<open>NotFound\<close> means that the object was
  absent. A create stores its object only where there is none: it fails with \<open>AlreadyExists\<close> when there
  is one, and after any other error (a timeout, say) the object may have been stored or not. Neither
  reads nor the patch of an Ingress touch the ConfigMaps.
\<close>

type_synonym configmaps = "string \<times> string \<Rightarrow> configmap option"

text \<open>ConfigMaps are only added, and only those in \<open>K\<close>.\<close>

definition grows :: "(string \<times> string) set \<Rightarrow> configmaps \<Rightarrow> configmaps \<Rightarrow> bool" where
  "grows K m m' = (m \<subseteq>\<^sub>m m' \<and> dom m' \<subseteq> dom m \<union> K)"

lemma grows_refl [simp]: "grows K m m"
  by (simp add: grows_def)










end
