(* ===== verification/Json_Text.thy ===== *)
theory Json_Text
  imports Json
begin

section \<open>A JSON text codec\<close>

text \<open>
  A printer and a parser for JSON texts without white space, with the round trip. The sources
  take \<open>encoding/json\<close> from the standard library; the model passes it as two functions of the
  environment and relies on the round trip only. This codec shows that the round trip can be
  had, and runs in the reference environment of the witnesses. Strings escape quotes and
  backslashes only.
\<close>

definition quote_char :: char where "quote_char = CHR 0x22"
definition backslash :: char where "backslash = CHR 0x5C"

fun escape :: "string \<Rightarrow> string" where
  "escape [] = []"
| "escape (c # s) =
     (if c = quote_char \<or> c = backslash then backslash # c # escape s else c # escape s)"

definition quoted :: "string \<Rightarrow> string" where
  "quoted s = quote_char # escape s @ [quote_char]"

fun json_text :: "json \<Rightarrow> string" where
  "json_text JNull = ''null''"
| "json_text (JBool True) = ''true''"
| "json_text (JBool False) = ''false''"
| "json_text (JNum i) = Itoa i"
| "json_text (JStr s) = quoted s"
| "json_text (JArr []) = ''[]''"
| "json_text (JArr (j # js)) = CHR ''['' # json_text j @ concat (map (\<lambda>x. CHR '','' # json_text x) js) @ '']''"
| "json_text (JObj []) = ''{}''"
| "json_text (JObj ((k, j) # kvs)) =
     CHR ''{'' # quoted k @ CHR '':'' # json_text j
       @ concat (map (\<lambda>(k, x). CHR '','' # quoted k @ CHR '':'' # json_text x) kvs) @ ''}''"

subsection \<open>Parsing\<close>

text \<open>The rest of a string literal behind its opening quote.\<close>

fun parse_string :: "string \<Rightarrow> (string \<times> string) option" where
  "parse_string [] = None"
| "parse_string (c # s) =
     (if c = quote_char then Some ([], s)
      else if c = backslash then
        (case s of [] \<Rightarrow> None
         | d # s' \<Rightarrow> (case parse_string s' of None \<Rightarrow> None | Some (t, r) \<Rightarrow> Some (d # t, r)))
      else (case parse_string s of None \<Rightarrow> None | Some (t, r) \<Rightarrow> Some (c # t, r)))"

fun parse_digits :: "int \<Rightarrow> string \<Rightarrow> int \<times> string" where
  "parse_digits n [] = (n, [])"
| "parse_digits n (c # s) =
     (if is_digit c then parse_digits (10 * n + digit_val c) s else (n, c # s))"

definition parse_literal :: "string \<Rightarrow> json \<Rightarrow> string \<Rightarrow> (json \<times> string) option" where
  "parse_literal lit j s = (if prefix lit s then Some (j, drop (length lit) s) else None)"

text \<open>The fuel bounds the nesting and the number of members together; the length of the text is
  always enough.\<close>

fun parse_value :: "nat \<Rightarrow> string \<Rightarrow> (json \<times> string) option"
  and parse_elems :: "nat \<Rightarrow> string \<Rightarrow> (json list \<times> string) option"
  and parse_members :: "nat \<Rightarrow> string \<Rightarrow> ((string \<times> json) list \<times> string) option" where
  "parse_value 0 s = None"
| "parse_value (Suc n) s =
     (case s of
        [] \<Rightarrow> None
      | c # s' \<Rightarrow>
          if c = quote_char then map_option (\<lambda>(t, r). (JStr t, r)) (parse_string s')
          else if c = CHR ''['' then
            (if s' \<noteq> [] \<and> hd s' = CHR '']'' then Some (JArr [], tl s')
             else map_option (\<lambda>(js, r). (JArr js, r)) (parse_elems n s'))
          else if c = CHR ''{'' then
            (if s' \<noteq> [] \<and> hd s' = CHR ''}'' then Some (JObj [], tl s')
             else map_option (\<lambda>(kvs, r). (JObj kvs, r)) (parse_members n s'))
          else if c = CHR ''-'' then (let (i, r) = parse_digits 0 s' in Some (JNum (- i), r))
          else if is_digit c then (let (i, r) = parse_digits 0 s in Some (JNum i, r))
          else if c = CHR ''n'' then parse_literal ''null'' JNull s
          else if c = CHR ''t'' then parse_literal ''true'' (JBool True) s
          else parse_literal ''false'' (JBool False) s)"
| "parse_elems 0 s = None"
| "parse_elems (Suc n) s =
     (case parse_value n s of
        None \<Rightarrow> None
      | Some (j, r) \<Rightarrow>
          (case r of
             [] \<Rightarrow> None
           | c # r' \<Rightarrow>
               if c = CHR '','' then map_option (\<lambda>(js, r). (j # js, r)) (parse_elems n r')
               else if c = CHR '']'' then Some ([j], r') else None))"
| "parse_members 0 s = None"
| "parse_members (Suc n) s =
     (case s of
        [] \<Rightarrow> None
      | q # s' \<Rightarrow>
          if q \<noteq> quote_char then None
          else (case parse_string s' of
             None \<Rightarrow> None
           | Some (k, r0) \<Rightarrow>
               if r0 = [] \<or> hd r0 \<noteq> CHR '':'' then None
               else (case parse_value n (tl r0) of
                  None \<Rightarrow> None
                | Some (j, r) \<Rightarrow>
                    (case r of
                       [] \<Rightarrow> None
                     | c # r' \<Rightarrow>
                         if c = CHR '','' then map_option (\<lambda>(kvs, r). ((k, j) # kvs, r)) (parse_members n r')
                         else if c = CHR ''}'' then Some ([(k, j)], r') else None))))"

definition json_parse :: "string \<Rightarrow> json option" where
  "json_parse s = (case parse_value (length s) s of Some (j, []) \<Rightarrow> Some j | _ \<Rightarrow> None)"

subsection \<open>The round trip\<close>

lemma parse_string_escape [simp]: "parse_string (escape s @ quote_char # r) = Some (s, r)"
  by (induction s) (auto simp: quote_char_def backslash_def)

definition no_digit :: "string \<Rightarrow> bool" where
  "no_digit r = (r = [] \<or> \<not> is_digit (hd r))"

lemma parse_digits_stop: "no_digit r \<Longrightarrow> parse_digits n r = (n, r)"
  by (cases r) (auto simp: no_digit_def)

lemma parse_digits_digits:
  "0 \<le> n \<Longrightarrow> no_digit r \<Longrightarrow> parse_digits 0 (digits n @ r) = (n, r)"
proof -
  have "0 \<le> n \<Longrightarrow> parse_digits 0 (digits n @ r) = parse_digits n r" for r
  proof (induction n arbitrary: r rule: digits.induct)
    case (1 n)
    show ?case
    proof (cases "n < 10")
      case True
      with 1(2) show ?thesis by (simp add: digits.simps [of n])
    next
      case False
      with 1 show ?thesis by (simp add: digits.simps [of n])
    qed
  qed
  then show "0 \<le> n \<Longrightarrow> no_digit r \<Longrightarrow> parse_digits 0 (digits n @ r) = (n, r)"
    by (simp add: parse_digits_stop)
qed

lemma json_text_hd: "\<exists>c s. json_text j = c # s \<and> c \<noteq> CHR '']'' \<and> c \<noteq> CHR ''}''"
proof (cases j)
  case (JNum i)
  obtain c s where d: "Itoa i = c # s" by (cases "Itoa i") auto
  have "c = CHR ''-'' \<or> is_digit c"
    using d digits_head [of i c s] by (auto simp: Itoa_def split: if_splits)
  then have "c \<noteq> CHR '']'' \<and> c \<noteq> CHR ''}''" by (auto simp: is_digit_def)
  with d JNum show ?thesis by simp
next
  case (JBool b)
  then show ?thesis by (cases b) auto
next
  case (JArr js)
  then show ?thesis by (cases js) auto
next
  case (JObj kvs)
  then show ?thesis by (cases kvs) auto
qed (auto simp: quoted_def quote_char_def)

lemma length_json_text: "0 < length (json_text j)"
  using json_text_hd [of j] by auto

text \<open>The property the induction carries, for a value and for the members of a list.\<close>

definition reads :: "json \<Rightarrow> bool" where
  "reads j = (\<forall>n r. length (json_text j) \<le> n \<longrightarrow> no_digit r \<longrightarrow> parse_value n (json_text j @ r) = Some (j, r))"

lemma readsD: "reads j \<Longrightarrow> length (json_text j) \<le> n \<Longrightarrow> no_digit r \<Longrightarrow> parse_value n (json_text j @ r) = Some (j, r)"
  by (simp add: reads_def)

lemma no_digit_simps [simp]: "no_digit []" "no_digit (CHR '','' # r)" "no_digit (CHR '']'' # r)" "no_digit (CHR ''}'' # r)"
  by (simp_all add: no_digit_def is_digit_def)

lemma parse_elems_text:
  assumes "reads j" "list_all reads js"
    and "length (json_text j @ concat (map (\<lambda>x. CHR '','' # json_text x) js) @ '']'') \<le> n"
  shows "parse_elems n (json_text j @ concat (map (\<lambda>x. CHR '','' # json_text x) js) @ CHR '']'' # r) = Some (j # js, r)"
  using assms
proof (induction js arbitrary: j n)
  case Nil
  then show ?case by (cases n) (simp_all add: readsD)
next
  case (Cons x js)
  then obtain m where m: "n = Suc m" by (cases n) auto
  have "parse_elems m (json_text x @ concat (map (\<lambda>x. CHR '','' # json_text x) js) @ CHR '']'' # r) = Some (x # js, r)"
    using Cons.prems m by (intro Cons.IH) auto
  moreover have "parse_value m (json_text j @ CHR '','' # json_text x @ concat (map (\<lambda>x. CHR '','' # json_text x) js) @ CHR '']'' # r)
      = Some (j, CHR '','' # json_text x @ concat (map (\<lambda>x. CHR '','' # json_text x) js) @ CHR '']'' # r)"
    using Cons.prems m by (intro readsD) auto
  ultimately show ?case using m by simp
qed

lemma parse_members_text:
  assumes "reads j" "list_all (\<lambda>(k, x). reads x) kvs"
    and "length (quoted k @ CHR '':'' # json_text j @ concat (map (\<lambda>(k, x). CHR '','' # quoted k @ CHR '':'' # json_text x) kvs) @ ''}'') \<le> n"
  shows "parse_members n (quoted k @ CHR '':'' # json_text j
      @ concat (map (\<lambda>(k, x). CHR '','' # quoted k @ CHR '':'' # json_text x) kvs) @ CHR ''}'' # r) = Some ((k, j) # kvs, r)"
  using assms
proof (induction kvs arbitrary: k j n)
  case Nil
  then show ?case by (cases n) (simp_all add: quoted_def readsD)
next
  case (Cons kx kvs)
  obtain k' x where kx: "kx = (k', x)" by (cases kx)
  let ?rest = "quoted k' @ CHR '':'' # json_text x @ concat (map (\<lambda>(k, x). CHR '','' # quoted k @ CHR '':'' # json_text x) kvs) @ CHR ''}'' # r"
  obtain m where m: "n = Suc m" using Cons.prems by (cases n) auto
  have "parse_members m ?rest = Some ((k', x) # kvs, r)"
    using Cons.prems m kx by (intro Cons.IH) auto
  moreover have "parse_value m (json_text j @ CHR '','' # ?rest) = Some (j, CHR '','' # ?rest)"
    using Cons.prems m by (intro readsD) auto
  ultimately show ?case using m kx by (simp add: quoted_def)
qed

lemma reads_json: "reads j"
proof (induction j)
  case (JBool b)
  show ?case unfolding reads_def
    by (cases b) (auto simp: parse_literal_def quote_char_def is_digit_def Suc_le_eq dest!: less_imp_Suc_add)
next
  case (JStr s)
  show ?case
    using parse_string_escape [of s]
    by (auto simp: reads_def quoted_def Suc_le_eq dest!: less_imp_Suc_add)
next
  case (JNum i)
  show ?case unfolding reads_def
  proof (intro allI impI)
    fix n r assume n: "length (json_text (JNum i)) \<le> n" and r: "no_digit r"
    obtain m where m: "n = Suc m" using n by (cases n) auto
    show "parse_value n (json_text (JNum i) @ r) = Some (JNum i, r)"
    proof (cases "i < 0")
      case True
      then show ?thesis
        using parse_digits_digits [of "- i" r] r m by (simp add: Itoa_def quote_char_def)
    next
      case False
      then obtain c s where c: "digits i = c # s" "is_digit c"
        using digits_head [of i] by (cases "digits i") auto
      have "c \<noteq> quote_char" "c \<noteq> CHR ''[''" "c \<noteq> CHR ''{''" "c \<noteq> CHR ''-''"
        using c(2) by (auto simp: quote_char_def is_digit_def)
      with False c show ?thesis
        using parse_digits_digits [of i r] r m by (simp add: Itoa_def)
    qed
  qed
next
  case (JArr js)
  show ?case unfolding reads_def
  proof (intro allI impI)
    fix n r assume n: "length (json_text (JArr js)) \<le> n" and r: "no_digit r"
    obtain m where m: "n = Suc m" using n length_json_text [of "JArr js"] by (cases n) auto
    show "parse_value n (json_text (JArr js) @ r) = Some (JArr js, r)"
    proof (cases js)
      case Nil
      then show ?thesis using m by (simp add: quote_char_def)
    next
      case (Cons x xs)
      have "parse_elems m (json_text x @ concat (map (\<lambda>x. CHR '','' # json_text x) xs) @ CHR '']'' # r) = Some (x # xs, r)"
        using JArr n m Cons by (intro parse_elems_text) (auto simp: list_all_iff)
      moreover obtain c s where "json_text x = c # s" "c \<noteq> CHR '']''"
        using json_text_hd [of x] by auto
      ultimately show ?thesis using m Cons by (simp add: quote_char_def)
    qed
  qed
next
  case (JObj kvs)
  show ?case unfolding reads_def
  proof (intro allI impI)
    fix n r assume n: "length (json_text (JObj kvs)) \<le> n" and r: "no_digit r"
    obtain m where m: "n = Suc m" using n length_json_text [of "JObj kvs"] by (cases n) auto
    show "parse_value n (json_text (JObj kvs) @ r) = Some (JObj kvs, r)"
    proof (cases kvs)
      case Nil
      then show ?thesis using m by (simp add: quote_char_def)
    next
      case (Cons kx xs)
      obtain k x where kx: "kx = (k, x)" by (cases kx)
      have "parse_members m (quoted k @ CHR '':'' # json_text x
          @ concat (map (\<lambda>(k, x). CHR '','' # quoted k @ CHR '':'' # json_text x) xs) @ CHR ''}'' # r) = Some ((k, x) # xs, r)"
        using JObj n m Cons kx by (intro parse_members_text) (fastforce simp: list_all_iff)+
      then show ?thesis using m Cons kx by (simp add: quote_char_def quoted_def)
    qed
  qed
qed (auto simp: reads_def parse_literal_def quote_char_def is_digit_def Suc_le_eq dest!: less_imp_Suc_add)

lemma json_parse_text: "json_parse (json_text j) = Some j"
  using readsD [OF reads_json, of j "length (json_text j)" "[]"] by (simp add: json_parse_def)

end
