(* ===== verification/Admin.thy ===== *)
theory Admin
  imports Routes
begin

section \<open>The admin API client (admin.go)\<close>

text \<open>
  The functions of \<open>admin.go\<close> over the environment. A returned Go error is \<open>Some\<close> of its text,
  \<open>nil\<close> is \<open>None\<close>; a function with a result returns \<open>Inl\<close> of the error or \<open>Inr\<close> of the result.
  The world after the call comes last. An absent route is \<open>Inr None\<close>, as the source returns nil
  bytes. JSON objects are unordered in the model, so the field order of a marshalled struct,
  which \<open>normaliseJSON\<close> removes before any comparison, does not show.
\<close>

record adminClient =
  base :: string

definition newAdminClient :: "string \<Rightarrow> adminClient" where
  "newAdminClient addr = \<lparr>base = ''http://'' @ addr\<rparr>"

text \<open>The path of the object with an identifier.\<close>

definition id_path :: "string \<Rightarrow> string" where
  "id_path rid = ''/id/'' @ rid"

text \<open>A GET with no body, as \<open>getRoute\<close>, \<open>routeExists\<close> and \<open>resolveServerName\<close> send it.\<close>

definition get_request :: "string \<Rightarrow> request" where
  "get_request url = \<lparr>rq_method = ''GET'', rq_url = url, rq_body = None, rq_ctype = None\<rparr>"

text \<open>The method \<open>do\<close> of the client.\<close>

definition do_request ::
    "'w env \<Rightarrow> adminClient \<Rightarrow> string \<Rightarrow> string \<Rightarrow> string option \<Rightarrow> 'w \<Rightarrow> go_error option \<times> 'w" where
  "do_request e c meth pth body w =
     (case new_request e meth (base c @ pth) of
        Some err \<Rightarrow> (Some err, w)
      | None \<Rightarrow>
          (case http_do e \<lparr>rq_method = meth, rq_url = base c @ pth, rq_body = body,
                           rq_ctype = (if body \<noteq> None then Some ''application/json'' else None)\<rparr> w of
             (Inl err, w) \<Rightarrow> (Some (meth @ '' '' @ pth @ '': '' @ err), w)
           | (Inr resp, w) \<Rightarrow>
               if status resp < 200 \<or> 300 \<le> status resp
               then (Some (meth @ '' '' @ pth @ '': status '' @ Itoa (status resp) @ '': '' @ resp_body resp), w)
               else (None, w)))"

definition getRoute :: "'w env \<Rightarrow> adminClient \<Rightarrow> string \<Rightarrow> 'w \<Rightarrow> (go_error + string option) \<times> 'w" where
  "getRoute e c rid w =
     (case new_request e ''GET'' (base c @ id_path rid) of
        Some err \<Rightarrow> (Inl err, w)
      | None \<Rightarrow>
          (case http_do e (get_request (base c @ id_path rid)) w of
             (Inl err, w) \<Rightarrow> (Inl err, w)
           | (Inr resp, w) \<Rightarrow>
               if status resp = 404 then (Inr None, w)
               else if status resp \<noteq> 200
                 then (Inl (''GET /id/'' @ rid @ '': status '' @ Itoa (status resp)), w)
               else (Inr (Some (resp_body resp)), w)))"

definition normaliseJSON :: "'w env \<Rightarrow> string \<Rightarrow> go_error + string" where
  "normaliseJSON e b = (case json_unmarshal e b of Inl err \<Rightarrow> Inl err | Inr v \<Rightarrow> json_marshal e v)"

text \<open>\<open>err1 == nil && err2 == nil && currentNorm == desiredNorm\<close>.\<close>

definition same_json :: "'w env \<Rightarrow> string \<Rightarrow> string \<Rightarrow> bool" where
  "same_json e current body =
     (case normaliseJSON e current of
        Inl err \<Rightarrow> False
      | Inr currentNorm \<Rightarrow>
          (case normaliseJSON e body of
             Inl err \<Rightarrow> False
           | Inr desiredNorm \<Rightarrow> currentNorm = desiredNorm))"

definition routes_path :: "string \<Rightarrow> string" where
  "routes_path serverName = ''/config/apps/http/servers/'' @ serverName @ ''/routes/''"

text \<open>The final POST of an attempt.\<close>

definition post_route :: "'w env \<Rightarrow> adminClient \<Rightarrow> string \<Rightarrow> string \<Rightarrow> 'w \<Rightarrow> go_error option \<times> 'w" where
  "post_route e c serverName body w = do_request e c ''POST'' (routes_path serverName) (Some body) w"

text \<open>One pass through the loop of \<open>upsertRoute\<close>: \<open>None\<close> where it returns nil, \<open>Some\<close> the new
  value of \<open>lastErr\<close> where it goes on to the next attempt.\<close>

definition upsert_attempt ::
    "'w env \<Rightarrow> adminClient \<Rightarrow> string \<Rightarrow> string \<Rightarrow> string \<Rightarrow> 'w \<Rightarrow> go_error option \<times> 'w" where
  "upsert_attempt e c serverName rid body w =
     (case getRoute e c rid w of
        (Inl err, w) \<Rightarrow> (Some err, w)
      | (Inr None, w) \<Rightarrow> post_route e c serverName body w
      | (Inr (Some current), w) \<Rightarrow>
          if same_json e current body then (None, w)
          else (case do_request e c ''DELETE'' (id_path rid) None w of
                  (Some err, w) \<Rightarrow> (Some (''delete before update: '' @ err), w)
                | (None, w) \<Rightarrow> post_route e c serverName body w))"

function upsert_loop ::
    "'w env \<Rightarrow> adminClient \<Rightarrow> string \<Rightarrow> string \<Rightarrow> string \<Rightarrow> nat \<Rightarrow> go_error option \<Rightarrow> 'w \<Rightarrow> go_error option \<times> 'w" where
  "upsert_loop e c serverName rid body attempt lastErr w =
     (if attempt < 3 then
        (case (if 0 < attempt then backoff e attempt w else (None, w)) of
           (Some err, w) \<Rightarrow> (Some err, w)
         | (None, w) \<Rightarrow>
             (case upsert_attempt e c serverName rid body w of
                (None, w) \<Rightarrow> (None, w)
              | (Some err, w) \<Rightarrow> upsert_loop e c serverName rid body (Suc attempt) (Some err) w))
      else (lastErr, w))"
  by pat_completeness auto
termination
  by (relation "measure (\<lambda>(e, c, s, rid, b, attempt, l, w). 3 - attempt)") auto

declare upsert_loop.simps [simp del]

definition upsertRoute ::
    "'w env \<Rightarrow> adminClient \<Rightarrow> string \<Rightarrow> caddyRoute \<Rightarrow> 'w \<Rightarrow> go_error option \<times> 'w" where
  "upsertRoute e c serverName r w =
     (case json_marshal e (route_json r) of
        Inl err \<Rightarrow> (Some (''marshal route: '' @ err), w)
      | Inr body \<Rightarrow> upsert_loop e c serverName (route_id r) body 0 None w)"

definition deleteRoute :: "'w env \<Rightarrow> adminClient \<Rightarrow> string \<Rightarrow> 'w \<Rightarrow> go_error option \<times> 'w" where
  "deleteRoute e c rid w =
     (case getRoute e c rid w of
        (Inl err, w) \<Rightarrow> (Some err, w)
      | (Inr None, w) \<Rightarrow> (None, w)
      | (Inr (Some b), w) \<Rightarrow> do_request e c ''DELETE'' (id_path rid) None w)"

definition routeExists :: "'w env \<Rightarrow> adminClient \<Rightarrow> string \<Rightarrow> 'w \<Rightarrow> (go_error + bool) \<times> 'w" where
  "routeExists e c rid w =
     (case new_request e ''GET'' (base c @ id_path rid) of
        Some err \<Rightarrow> (Inl err, w)
      | None \<Rightarrow>
          (case http_do e (get_request (base c @ id_path rid)) w of
             (Inl err, w) \<Rightarrow> (Inl err, w)
           | (Inr resp, w) \<Rightarrow> (Inr (status resp = 200), w)))"

subsection \<open>Finding a server by its port\<close>

text \<open>Decoding into \<open>map[string]struct{Listen []string}\<close>: a null leaves the zero value, any other
  shape is an error.\<close>

fun decode_string :: "json \<Rightarrow> string option" where
  "decode_string (JStr s) = Some s"
| "decode_string JNull = Some []"
| "decode_string _ = None"

fun decode_strings :: "json \<Rightarrow> string list option" where
  "decode_strings (JArr js) = those (map decode_string js)"
| "decode_strings JNull = Some []"
| "decode_strings _ = None"

fun decode_server :: "json \<Rightarrow> string list option" where
  "decode_server (JObj m) =
     (case map_of m ''listen'' of None \<Rightarrow> Some [] | Some j \<Rightarrow> decode_strings j)"
| "decode_server JNull = Some []"
| "decode_server _ = None"

fun decode_servers :: "json \<Rightarrow> (string list) gomap option" where
  "decode_servers (JObj m) =
     those (map (\<lambda>(name, j). map_option (\<lambda>ls. (name, ls)) (decode_server j)) m)"
| "decode_servers JNull = Some []"
| "decode_servers _ = None"

text \<open>The first server, in the order of the iteration, with a listen address that ends in the
  port.\<close>

definition listens_on :: "string \<Rightarrow> string list \<Rightarrow> bool" where
  "listens_on port ls = list_ex (\<lambda>addr. HasSuffix addr port) ls"

definition find_server :: "string \<Rightarrow> (string list) gomap \<Rightarrow> string list \<Rightarrow> string option" where
  "find_server port servers order =
     find (\<lambda>name. case map_of servers name of None \<Rightarrow> False | Some ls \<Rightarrow> listens_on port ls) order"

definition resolveServerName ::
    "'w env \<Rightarrow> adminClient \<Rightarrow> string \<Rightarrow> string \<Rightarrow> 'w \<Rightarrow> (go_error + string) \<times> 'w" where
  "resolveServerName e c hint port w =
     (if hint \<noteq> [] then (Inr hint, w)
      else
        (case new_request e ''GET'' (base c @ ''/config/apps/http/servers'') of
           Some err \<Rightarrow> (Inl err, w)
         | None \<Rightarrow>
             (case http_do e (get_request (base c @ ''/config/apps/http/servers'')) w of
                (Inl err, w) \<Rightarrow> (Inl (''GET /config/apps/http/servers: '' @ err), w)
              | (Inr resp, w) \<Rightarrow>
                  if status resp \<noteq> 200
                  then (Inl (''GET /config/apps/http/servers: status '' @ Itoa (status resp)), w)
                  else
                    (case json_unmarshal e (resp_body resp) of
                       Inl err \<Rightarrow> (Inl (''decode servers: '' @ err), w)
                     | Inr j \<Rightarrow>
                         (case decode_servers j of
                            None \<Rightarrow> (Inl ''decode servers: json: cannot unmarshal'', w)
                          | Some servers \<Rightarrow>
                              (let (order, w) = range_keys e (map fst servers) w in
                               case find_server port servers order of
                                 Some name \<Rightarrow> (Inr name, w)
                               | None \<Rightarrow>
                                   (Inl (''no Caddy server listening on '' @ port
                                         @ '' found '' @ [CHR 0xE2, CHR 0x80, CHR 0x94] @ '' set server_name explicitly''), w)))))))"

subsection \<open>Generic writes\<close>

definition postJSON :: "'w env \<Rightarrow> adminClient \<Rightarrow> string \<Rightarrow> json \<Rightarrow> 'w \<Rightarrow> go_error option \<times> 'w" where
  "postJSON e c pth payload w =
     (case json_marshal e payload of
        Inl err \<Rightarrow> (Some (''marshal payload: '' @ err), w)
      | Inr body \<Rightarrow> do_request e c ''POST'' pth (Some body) w)"

definition putOrPatch :: "'w env \<Rightarrow> adminClient \<Rightarrow> string \<Rightarrow> string option \<Rightarrow> 'w \<Rightarrow> go_error option \<times> 'w" where
  "putOrPatch e c pth body w =
     (case do_request e c ''PUT'' pth body w of
        (None, w) \<Rightarrow> (None, w)
      | (Some err, w) \<Rightarrow>
          if Contains err ''status 409'' then do_request e c ''PATCH'' pth body w
          else (Some err, w))"

subsection \<open>TLS automation policies\<close>

text \<open>The policy types of \<open>tls_policy.go\<close>, as the client sends them.\<close>

record acmeExternalAccount =
  KeyID :: string
  MACKey :: string

record acmeIssuer =
  Module :: string
  CA :: string
  ExternalAccount :: "acmeExternalAccount option"

record tlsAutomationPolicy =
  policy_ID :: string
  Subjects :: "string list"
  Issuers :: "acmeIssuer list"
  OnDemand :: bool

definition account_entry :: "acmeExternalAccount \<Rightarrow> json" where
  "account_entry a = obj [(''key_id'', JStr (KeyID a)), (''mac_key'', JStr (MACKey a))]"

definition issuer_json :: "acmeIssuer \<Rightarrow> json" where
  "issuer_json i =
     obj ([(''module'', JStr (Module i))]
          @ unless (CA i = []) ''ca'' (JStr (CA i))
          @ (case ExternalAccount i of None \<Rightarrow> [] | Some a \<Rightarrow> [(''external_account'', account_entry a)]))"

definition policy_json :: "tlsAutomationPolicy \<Rightarrow> json" where
  "policy_json p =
     obj ([(''@id'', JStr (policy_ID p)), (''subjects'', JStrs (Subjects p))]
          @ unless (Issuers p = []) ''issuers'' (JArr (map issuer_json (Issuers p)))
          @ unless (\<not> OnDemand p) ''on_demand'' (JBool True))"

definition upsertTLSPolicy ::
    "'w env \<Rightarrow> adminClient \<Rightarrow> tlsAutomationPolicy \<Rightarrow> 'w \<Rightarrow> go_error option \<times> 'w" where
  "upsertTLSPolicy e c p w =
     (case routeExists e c (policy_ID p) w of
        (Inl err, w) \<Rightarrow> (Some err, w)
      | (Inr exs, w) \<Rightarrow>
          (case json_marshal e (policy_json p) of
             Inl err \<Rightarrow> (Some (''marshal tls policy: '' @ err), w)
           | Inr body \<Rightarrow>
               if exs then do_request e c ''PUT'' (id_path (policy_ID p)) (Some body) w
               else do_request e c ''POST'' ''/config/apps/tls/automation/policies/'' (Some body) w))"

definition deleteTLSPolicy :: "'w env \<Rightarrow> adminClient \<Rightarrow> string \<Rightarrow> 'w \<Rightarrow> go_error option \<times> 'w" where
  "deleteTLSPolicy e c rid w =
     (case routeExists e c rid w of
        (Inl err, w) \<Rightarrow> (Some err, w)
      | (Inr exs, w) \<Rightarrow>
          if exs then do_request e c ''DELETE'' (id_path rid) None w else (None, w))"

end
