(* ===== verification/Store.thy ===== *)
theory Store
  imports Kube Json_Text Admin
begin

section \<open>The route store (store.go)\<close>

text \<open>
  The map from Ingress keys to the identifiers of the routes they own, kept in memory or in Redis.
  The two stores are one datatype, the dynamic type behind the Go interface; each operation
  returns the error, the store and the world. The interface is the locale \<open>route_store\<close>, which
  both stores interpret.
\<close>

subsection \<open>The in-memory store\<close>

type_synonym memoryStore = "(string list) gomap"

definition newMemoryStore :: memoryStore where
  "newMemoryStore = []"

definition memory_save :: "string \<Rightarrow> string list \<Rightarrow> memoryStore \<Rightarrow> go_error option \<times> memoryStore" where
  "memory_save key ids s = (None, mput key ids s)"

definition memory_remove :: "string \<Rightarrow> memoryStore \<Rightarrow> go_error option \<times> memoryStore" where
  "memory_remove key s = (None, mdel key s)"

text \<open>The copy of the map: the loop over \<open>s.data\<close> fills a new map.\<close>

definition memory_loadAll :: "memoryStore \<Rightarrow> (go_error + (string list) gomap) \<times> memoryStore" where
  "memory_loadAll s = (Inr (mcopy s []), s)"

subsection \<open>The Redis store\<close>

record RedisConfig =
  Address :: string
  RedisPassword :: string
  DB :: int

record redisStore =
  keyPrefix :: string

definition newRedisStore :: "'w env \<Rightarrow> RedisConfig \<Rightarrow> string \<Rightarrow> 'w \<Rightarrow> (go_error + redisStore) \<times> 'w" where
  "newRedisStore e cfg ingressClass w =
     (case redis_ping e (Address cfg) w of
        (Some err, w) \<Rightarrow> (Inl (''redis ping '' @ Address cfg @ '': '' @ err), w)
      | (None, w) \<Rightarrow> (Inr \<lparr>keyPrefix = ''k8s_ingress:'' @ ingressClass @ '':''\<rparr>, w))"

definition redis_save :: "'w env \<Rightarrow> redisStore \<Rightarrow> string \<Rightarrow> string list \<Rightarrow> 'w \<Rightarrow> go_error option \<times> 'w" where
  "redis_save e s key ids w =
     (case json_marshal e (JStrs ids) of
        Inl err \<Rightarrow> (Some err, w)
      | Inr b \<Rightarrow> redis_set e (keyPrefix s @ key) b w)"

definition redis_remove :: "'w env \<Rightarrow> redisStore \<Rightarrow> string \<Rightarrow> 'w \<Rightarrow> go_error option \<times> 'w" where
  "redis_remove e s key w = redis_del e (keyPrefix s @ key) w"

text \<open>One round of the loop over the keys: a key that cannot be read or decoded is skipped.\<close>

definition load_key ::
    "'w env \<Rightarrow> nat \<Rightarrow> string \<Rightarrow> (string list) gomap \<times> 'w \<Rightarrow> (string list) gomap \<times> 'w" where
  "load_key e prefixLen k = (\<lambda>(out, w).
     (case redis_get e k w of
        (Inl err, w) \<Rightarrow> (out, w)
      | (Inr val, w) \<Rightarrow>
          (case json_unmarshal e val of
             Inl err \<Rightarrow> (out, w)
           | Inr j \<Rightarrow>
               (case decode_strings j of
                  None \<Rightarrow> (out, w)
                | Some ids \<Rightarrow> (mput (drop prefixLen k) ids out, w)))))"

definition redis_loadAll ::
    "'w env \<Rightarrow> redisStore \<Rightarrow> 'w \<Rightarrow> (go_error + (string list) gomap) \<times> 'w" where
  "redis_loadAll e s w =
     (case redis_keys e (keyPrefix s @ ''*'') w of
        (Inl err, w) \<Rightarrow> (Inl (''redis keys '' @ keyPrefix s @ ''*: '' @ err), w)
      | (Inr ks, w) \<Rightarrow>
          (let (out, w) = fold (load_key e (length (keyPrefix s))) ks ([], w) in (Inr out, w)))"

subsection \<open>The interface\<close>

datatype routeStore = Memory memoryStore | Redis redisStore

definition store_save ::
    "'w env \<Rightarrow> string \<Rightarrow> string list \<Rightarrow> routeStore \<times> 'w \<Rightarrow> go_error option \<times> routeStore \<times> 'w" where
  "store_save e key ids = (\<lambda>(st, w).
     (case st of
        Memory m \<Rightarrow> (let (err, m) = memory_save key ids m in (err, Memory m, w))
      | Redis r \<Rightarrow> (let (err, w) = redis_save e r key ids w in (err, Redis r, w))))"

definition store_remove ::
    "'w env \<Rightarrow> string \<Rightarrow> routeStore \<times> 'w \<Rightarrow> go_error option \<times> routeStore \<times> 'w" where
  "store_remove e key = (\<lambda>(st, w).
     (case st of
        Memory m \<Rightarrow> (let (err, m) = memory_remove key m in (err, Memory m, w))
      | Redis r \<Rightarrow> (let (err, w) = redis_remove e r key w in (err, Redis r, w))))"

definition store_loadAll ::
    "'w env \<Rightarrow> routeStore \<times> 'w \<Rightarrow> (go_error + (string list) gomap) \<times> routeStore \<times> 'w" where
  "store_loadAll e = (\<lambda>(st, w).
     (case st of
        Memory m \<Rightarrow> (let (r, m) = memory_loadAll m in (r, Memory m, w))
      | Redis r \<Rightarrow> (let (res, w) = redis_loadAll e r w in (res, Redis r, w))))"

text \<open>A sequence of writes, run on a store and on the map it stands for.\<close>

datatype store_op = Save string "string list" | Remove string

primrec run_store ::
    "(string \<Rightarrow> string list \<Rightarrow> 's \<Rightarrow> go_error option \<times> 's) \<Rightarrow> (string \<Rightarrow> 's \<Rightarrow> go_error option \<times> 's)
     \<Rightarrow> store_op list \<Rightarrow> 's \<Rightarrow> 's" where
  "run_store save remove [] s = s"
| "run_store save remove (op # ops) s =
     run_store save remove ops
       (snd (case op of Save k ids \<Rightarrow> save k ids s | Remove k \<Rightarrow> remove k s))"

primrec write_entry :: "store_op \<Rightarrow> (string \<Rightarrow> string list option) \<Rightarrow> string \<Rightarrow> string list option" where
  "write_entry (Save k ids) m = m(k := Some ids)"
| "write_entry (Remove k) m = m(k := None)"

text \<open>What the controller relies on: writes that succeed are read back, keys do not interfere,
  and loading returns exactly the entries.\<close>

locale route_store =
  fixes save :: "string \<Rightarrow> string list \<Rightarrow> 's \<Rightarrow> go_error option \<times> 's"
    and remove :: "string \<Rightarrow> 's \<Rightarrow> go_error option \<times> 's"
    and loadAll :: "'s \<Rightarrow> (go_error + (string list) gomap) \<times> 's"
    and entries :: "'s \<Rightarrow> string \<Rightarrow> string list option"
    and ok :: "'s \<Rightarrow> bool"
  assumes save_law: "ok s \<Longrightarrow> \<exists>s'. save k ids s = (None, s') \<and> ok s' \<and> entries s' = (entries s)(k := Some ids)"
    and remove_law: "ok s \<Longrightarrow> \<exists>s'. remove k s = (None, s') \<and> ok s' \<and> entries s' = (entries s)(k := None)"
    and load_law: "ok s \<Longrightarrow> \<exists>m s'. loadAll s = (Inr m, s') \<and> ok s' \<and> entries s' = entries s
      \<and> keys_sorted m \<and> map_of m = entries s"
begin

lemma run_store_entries:
  "ok s \<Longrightarrow> ok (run_store save remove ops s)
     \<and> entries (run_store save remove ops s) = fold write_entry ops (entries s)"
proof (induction ops arbitrary: s)
  case (Cons op ops)
  obtain s' where "(case op of Save k ids \<Rightarrow> save k ids s | Remove k \<Rightarrow> remove k s) = (None, s')"
      "ok s'" "entries s' = write_entry op (entries s)"
    using save_law [OF Cons.prems] remove_law [OF Cons.prems] by (cases op) fastforce+
  with Cons.IH [of s'] show ?case by simp
qed simp

lemma restores:
  assumes "ok s"
  shows "\<exists>m s'. loadAll (run_store save remove ops s) = (Inr m, s')
      \<and> map_of m = fold write_entry ops (entries s)"
  using load_law run_store_entries [OF assms, of ops] by metis

end

subsection \<open>The memory store provides it\<close>

definition mem_entries :: "routeStore \<times> 'w \<Rightarrow> string \<Rightarrow> string list option" where
  "mem_entries = (\<lambda>(st, w) k. case st of Memory m \<Rightarrow> map_of m k | Redis r \<Rightarrow> None)"

definition mem_ok :: "routeStore \<times> 'w \<Rightarrow> bool" where
  "mem_ok = (\<lambda>(st, w). case st of Memory m \<Rightarrow> keys_sorted m | Redis r \<Rightarrow> False)"

interpretation mem_store: route_store "store_save e" "store_remove e" "store_loadAll e" mem_entries mem_ok for e
proof unfold_locales
  fix s :: "routeStore \<times> 'a" and k ids
  assume "mem_ok s"
  then obtain m w where s: "s = (Memory m, w)" "keys_sorted m"
    by (cases s) (auto simp: mem_ok_def split: routeStore.splits)
  then show "\<exists>s'. store_save e k ids s = (None, s') \<and> mem_ok s' \<and> mem_entries s' = (mem_entries s)(k := Some ids)"
    and "\<exists>s'. store_remove e k s = (None, s') \<and> mem_ok s' \<and> mem_entries s' = (mem_entries s)(k := None)"
    and "\<exists>m s'. store_loadAll e s = (Inr m, s') \<and> mem_ok s' \<and> mem_entries s' = mem_entries s
      \<and> keys_sorted m \<and> map_of m = mem_entries s"
    by (auto simp: store_save_def memory_save_def store_remove_def memory_remove_def store_loadAll_def
        memory_loadAll_def mem_ok_def mem_entries_def keys_sorted_mput keys_sorted_mdel keys_sorted_mcopy
        map_of_mput map_of_mdel map_of_mcopy fun_eq_iff split: option.splits)
qed

subsection \<open>So does Redis\<close>

text \<open>The documented behaviour of the Redis commands: \<open>kv\<close> is the database a world holds. KEYS
  with a prefix that has no glob characters and a final star lists the keys with that prefix.\<close>

definition glob_free :: "string \<Rightarrow> bool" where
  "glob_free p = (set p \<inter> {CHR ''*'', CHR ''?'', CHR ''['', CHR 0x5C} = {})"

locale redis_server =
  fixes e :: "'w env" and kv :: "'w \<Rightarrow> string \<Rightarrow> string option" and up :: "'w \<Rightarrow> bool"
  assumes ping_law: "up w \<Longrightarrow> \<exists>w'. redis_ping e a w = (None, w') \<and> up w' \<and> kv w' = kv w"
    and set_law: "up w \<Longrightarrow> \<exists>w'. redis_set e k v w = (None, w') \<and> up w' \<and> kv w' = (kv w)(k := Some v)"
    and del_law: "up w \<Longrightarrow> \<exists>w'. redis_del e k w = (None, w') \<and> up w' \<and> kv w' = (kv w)(k := None)"
    and get_law: "up w \<Longrightarrow> \<exists>r w'. redis_get e k w = (r, w') \<and> up w' \<and> kv w' = kv w
      \<and> (case kv w k of None \<Rightarrow> \<exists>err. r = Inl err | Some v \<Rightarrow> r = Inr v)"
    and keys_law: "up w \<Longrightarrow> glob_free p \<Longrightarrow> \<exists>ks w'. redis_keys e (p @ ''*'') w = (Inr ks, w') \<and> up w'
      \<and> kv w' = kv w \<and> distinct ks \<and> set ks = {k. prefix p k \<and> kv w k \<noteq> None}"
    and list_codec: "\<exists>t. json_marshal e (JStrs ids) = Inr t \<and> json_unmarshal e t = Inr (JStrs ids)"

text \<open>The entries behind a prefix, as far as their values decode.\<close>

definition decoded :: "'w env \<Rightarrow> string \<Rightarrow> string list option" where
  "decoded e v = (case json_unmarshal e v of Inl err \<Rightarrow> None | Inr j \<Rightarrow> decode_strings j)"

definition redis_entries ::
    "'w env \<Rightarrow> ('w \<Rightarrow> string \<Rightarrow> string option) \<Rightarrow> string \<Rightarrow> routeStore \<times> 'w \<Rightarrow> string \<Rightarrow> string list option" where
  "redis_entries e kv pre = (\<lambda>(st, w) k. Option.bind (kv w (pre @ k)) (decoded e))"

definition redis_ok :: "('w \<Rightarrow> bool) \<Rightarrow> string \<Rightarrow> routeStore \<times> 'w \<Rightarrow> bool" where
  "redis_ok up pre = (\<lambda>(st, w). st = Redis \<lparr>keyPrefix = pre\<rparr> \<and> up w)"

locale redis_backed = redis_server +
  fixes pre :: string
  assumes pre_plain: "glob_free pre"
begin

lemma those_decode [simp]: "those (map (decode_string \<circ> JStr) ids) = Some ids"
  by (induction ids) auto

lemma load_key_step:
  assumes "up w"
  shows "\<exists>w'. load_key e (length pre) (pre @ k) (out, w) =
      ((case Option.bind (kv w (pre @ k)) (decoded e) of None \<Rightarrow> out | Some ids \<Rightarrow> mput k ids out), w')
      \<and> up w' \<and> kv w' = kv w"
proof -
  obtain r w' where "redis_get e (pre @ k) w = (r, w')" "up w'" "kv w' = kv w"
      "case kv w (pre @ k) of None \<Rightarrow> \<exists>err. r = Inl err | Some v \<Rightarrow> r = Inr v"
    using get_law [OF assms, of "pre @ k"] by blast
  then show ?thesis
    by (cases "kv w (pre @ k)") (auto simp: load_key_def decoded_def split: sum.splits option.splits)
qed

lemma load_keys:
  assumes "up w" "keys_sorted out" "\<forall>k \<in> set ks. prefix pre k"
  shows "\<exists>out' w'. fold (load_key e (length pre)) ks (out, w) = (out', w') \<and> up w' \<and> kv w' = kv w
      \<and> keys_sorted out'
      \<and> map_of out' = (\<lambda>k. if pre @ k \<in> set ks \<and> Option.bind (kv w (pre @ k)) (decoded e) \<noteq> None
                            then Option.bind (kv w (pre @ k)) (decoded e) else map_of out k)"
  using assms
proof (induction ks arbitrary: out w)
  case (Cons k0 ks)
  then obtain k where k: "k0 = pre @ k" by (auto simp: prefix_def)
  let ?out = "case Option.bind (kv w (pre @ k)) (decoded e) of None \<Rightarrow> out | Some ids \<Rightarrow> mput k ids out"
  obtain w1 where 1: "load_key e (length pre) (pre @ k) (out, w) = (?out, w1)" "up w1" "kv w1 = kv w"
    using load_key_step [OF Cons.prems(1)] by blast
  have "keys_sorted ?out" using Cons.prems(2) by (auto simp: keys_sorted_mput split: option.splits)
  then obtain out' w' where 2: "fold (load_key e (length pre)) ks (?out, w1) = (out', w')" "up w'" "kv w' = kv w"
      "keys_sorted out'"
      "map_of out' = (\<lambda>k. if pre @ k \<in> set ks \<and> Option.bind (kv w (pre @ k)) (decoded e) \<noteq> None
                            then Option.bind (kv w (pre @ k)) (decoded e) else map_of ?out k)"
    using Cons.IH [OF 1(2), of ?out] Cons.prems(3) unfolding 1(3) by auto
  show ?case
    using 1(1) 2 k by (auto simp: fun_eq_iff map_of_mput split: option.splits)
qed simp

end

sublocale redis_backed < redis_store: route_store "store_save e" "store_remove e" "store_loadAll e" "redis_entries e kv pre" "redis_ok up pre"
proof unfold_locales
  fix s :: "routeStore \<times> 'a" and k ids
  assume "redis_ok up pre s"
  then obtain w where s: "s = (Redis \<lparr>keyPrefix = pre\<rparr>, w)" "up w"
    by (cases s) (auto simp: redis_ok_def)
  obtain t where t: "json_marshal e (JStrs ids) = Inr t" "json_unmarshal e t = Inr (JStrs ids)"
    using list_codec by blast
  obtain w1 where "redis_set e (pre @ k) t w = (None, w1)" "up w1" "kv w1 = (kv w)(pre @ k := Some t)"
    using set_law [OF s(2)] by blast
  then show "\<exists>s'. store_save e k ids s = (None, s') \<and> redis_ok up pre s' \<and> redis_entries e kv pre s' = (redis_entries e kv pre s)(k := Some ids)"
    using s t by (auto simp: store_save_def redis_save_def redis_ok_def redis_entries_def decoded_def fun_eq_iff)
  obtain w2 where "redis_del e (pre @ k) w = (None, w2)" "up w2" "kv w2 = (kv w)(pre @ k := None)"
    using del_law [OF s(2)] by blast
  then show "\<exists>s'. store_remove e k s = (None, s') \<and> redis_ok up pre s' \<and> redis_entries e kv pre s' = (redis_entries e kv pre s)(k := None)"
    using s by (auto simp: store_remove_def redis_remove_def redis_ok_def redis_entries_def fun_eq_iff)
  obtain ks w3 where ks: "redis_keys e (pre @ ''*'') w = (Inr ks, w3)" "up w3" "kv w3 = kv w"
      "set ks = {k. prefix pre k \<and> kv w k \<noteq> None}"
    using keys_law [OF s(2) pre_plain] by blast
  obtain out w4 where "fold (load_key e (length pre)) ks ([], w3) = (out, w4)" "up w4" "kv w4 = kv w" "keys_sorted out"
      "map_of out = (\<lambda>k. if pre @ k \<in> set ks \<and> Option.bind (kv w (pre @ k)) (decoded e) \<noteq> None
                            then Option.bind (kv w (pre @ k)) (decoded e) else map_of [] k)"
    using load_keys [OF ks(2), of "[]" ks] ks(4) unfolding ks(3) by auto
  then show "\<exists>m s'. store_loadAll e s = (Inr m, s') \<and> redis_ok up pre s' \<and> redis_entries e kv pre s' = redis_entries e kv pre s
      \<and> keys_sorted m \<and> map_of m = redis_entries e kv pre s"
    using s ks
    by (auto simp: store_loadAll_def redis_loadAll_def redis_ok_def redis_entries_def fun_eq_iff
        split: bind_splits)
qed

context redis_backed
begin

lemma load_entries:
  assumes "up w"
  shows "\<exists>m s'. store_loadAll e (Redis \<lparr>keyPrefix = pre\<rparr>, w) = (Inr m, s')
      \<and> keys_sorted m \<and> map_of m = redis_entries e kv pre (Redis \<lparr>keyPrefix = pre\<rparr>, w)"
  using redis_store.load_law [of "(Redis \<lparr>keyPrefix = pre\<rparr>, w)"] assms by (auto simp: redis_ok_def)

lemma restart:
  assumes "up w"
  shows "\<exists>w' w'' m s'. run_store (store_save e) (store_remove e) ops (Redis \<lparr>keyPrefix = pre\<rparr>, w) = (Redis \<lparr>keyPrefix = pre\<rparr>, w')
      \<and> up w' \<and> redis_ping e a w' = (None, w'')
      \<and> store_loadAll e (Redis \<lparr>keyPrefix = pre\<rparr>, w'') = (Inr m, s')
      \<and> map_of m = fold write_entry ops (redis_entries e kv pre (Redis \<lparr>keyPrefix = pre\<rparr>, w))"
proof -
  let ?s = "(Redis \<lparr>keyPrefix = pre\<rparr>, w)"
  have "redis_ok up pre ?s" using assms by (simp add: redis_ok_def)
  from redis_store.run_store_entries [OF this, of ops]
  obtain w' where r: "run_store (store_save e) (store_remove e) ops ?s = (Redis \<lparr>keyPrefix = pre\<rparr>, w')" "up w'"
      "redis_entries e kv pre (Redis \<lparr>keyPrefix = pre\<rparr>, w') = fold write_entry ops (redis_entries e kv pre ?s)"
    by (cases "run_store (store_save e) (store_remove e) ops ?s") (auto simp: redis_ok_def)
  obtain w'' where p: "redis_ping e a w' = (None, w'')" "up w''" "kv w'' = kv w'"
    using ping_law [OF r(2)] by blast
  then have "redis_ok up pre (Redis \<lparr>keyPrefix = pre\<rparr>, w'')" by (simp add: redis_ok_def)
  from redis_store.load_law [OF this] r p show ?thesis
    by (auto simp: redis_entries_def)
qed

end

subsection \<open>A reference database\<close>

definition ref_redis :: "(string gomap) env" where
  "ref_redis = (offline :: (string gomap) env)\<lparr>
     json_marshal := (\<lambda>j. Inr (json_text j)),
     json_unmarshal := (\<lambda>s. case json_parse s of None \<Rightarrow> Inl ''invalid JSON'' | Some j \<Rightarrow> Inr j),
     redis_ping := (\<lambda>addr w. (None, w)),
     redis_set := (\<lambda>k v w. (None, mput k v w)),
     redis_get := (\<lambda>k w. (case map_of w k of None \<Rightarrow> Inl ''redis: nil'' | Some v \<Rightarrow> Inr v, w)),
     redis_del := (\<lambda>k w. (None, mdel k w)),
     redis_keys := (\<lambda>p w. (Inr (filter (prefix (butlast p)) (map fst w)), w))\<rparr>"

definition demo_prefix :: string where
  "demo_prefix = ''k8s_ingress:caddy:''"

interpretation ref_redis: redis_backed ref_redis map_of keys_sorted demo_prefix
proof unfold_locales
  fix w :: "string gomap" and k v p a
  assume w: "keys_sorted w"
  then show "\<exists>w'. redis_ping ref_redis a w = (None, w') \<and> keys_sorted w' \<and> map_of w' = map_of w"
    and "\<exists>w'. redis_set ref_redis k v w = (None, w') \<and> keys_sorted w' \<and> map_of w' = (map_of w)(k := Some v)"
    and "\<exists>w'. redis_del ref_redis k w = (None, w') \<and> keys_sorted w' \<and> map_of w' = (map_of w)(k := None)"
    and "\<exists>r w'. redis_get ref_redis k w = (r, w') \<and> keys_sorted w' \<and> map_of w' = map_of w
      \<and> (case map_of w k of None \<Rightarrow> \<exists>err. r = Inl err | Some v \<Rightarrow> r = Inr v)"
    by (auto simp: ref_redis_def keys_sorted_mput keys_sorted_mdel map_of_mput map_of_mdel fun_eq_iff
        split: option.split)
  have "{k. prefix p k \<and> map_of w k \<noteq> None} = set (filter (prefix p) (map fst w))"
    by (auto simp: map_of_eq_None_iff)
  then show "\<exists>ks w'. redis_keys ref_redis (p @ ''*'') w = (Inr ks, w') \<and> keys_sorted w'
      \<and> map_of w' = map_of w \<and> distinct ks \<and> set ks = {k. prefix p k \<and> map_of w k \<noteq> None}"
    using keys_sorted_distinct [OF w] w by (simp add: ref_redis_def)
next
  show "\<exists>t. json_marshal ref_redis (JStrs ids) = Inr t \<and> json_unmarshal ref_redis t = Inr (JStrs ids)" for ids
    by (simp add: ref_redis_def json_parse_text)
  show "glob_free demo_prefix" by code_simp
qed

subsection \<open>What survives a restart\<close>

text \<open>The in-memory store returns after any sequence of saves and removals exactly the last
  write of every key; nothing it does can fail.\<close>

theorem memory_store_restores:
  "\<exists>m s'. store_loadAll e (run_store (store_save e) (store_remove e) ops (Memory newMemoryStore, w)) = (Inr m, s')
     \<and> map_of m = fold write_entry ops (\<lambda>k. None)"
proof -
  have "mem_ok (Memory newMemoryStore, w)" by (simp add: mem_ok_def newMemoryStore_def)
  from mem_store.restores [OF this, of e ops] show ?thesis
    by (simp add: mem_entries_def newMemoryStore_def)
qed

text \<open>C32: With Redis the map survives a restart: after any sequence of saves and removals through one
  store, a store opened anew for the same Ingress class loads exactly the last write of every
  key, on top of what the database held before.\<close>

theorem redis_store_survives_restart:
  assumes "redis_backed e kv up (''k8s_ingress:'' @ cls @ '':'')" "up w"
    and "newRedisStore e cfg cls w = (Inr st, w1)"
    and "run_store (store_save e) (store_remove e) ops (Redis st, w1) = (st', w2)"
  shows "\<exists>fresh w3 m s'. newRedisStore e cfg cls w2 = (Inr fresh, w3)
     \<and> store_loadAll e (Redis fresh, w3) = (Inr m, s')
     \<and> map_of m = fold write_entry ops
         (redis_entries e kv (''k8s_ingress:'' @ cls @ '':'') (Redis st, w))"
proof -
  let ?pre = "''k8s_ingress:'' @ cls @ '':''"
  obtain w1' where p: "redis_ping e (Address cfg) w = (None, w1')" "up w1'" "kv w1' = kv w"
    using redis_server.ping_law [OF redis_backed.axioms(1) [OF assms(1)] assms(2)] by blast
  with assms(3) have st: "st = \<lparr>keyPrefix = ?pre\<rparr>" "w1 = w1'"
    by (auto simp: newRedisStore_def)
  obtain w3 m s' where "redis_ping e (Address cfg) w2 = (None, w3)"
      "store_loadAll e (Redis \<lparr>keyPrefix = ?pre\<rparr>, w3) = (Inr m, s')"
      "map_of m = fold write_entry ops (redis_entries e kv ?pre (Redis \<lparr>keyPrefix = ?pre\<rparr>, w1))"
    using redis_backed.restart [OF assms(1), of w1 ops "Address cfg"] assms(4) p(2) st by auto
  then show ?thesis
    using p(3) st by (auto simp: newRedisStore_def redis_entries_def)
qed

theorem redis_store_survives_restart_witness:
  "\<exists>fresh w3 m s'. newRedisStore ref_redis \<lparr>Address = ''redis:6379'', RedisPassword = [], DB = 0\<rparr> ''caddy''
       (snd (run_store (store_save ref_redis) (store_remove ref_redis) [Save ''shop/web'' [''r1''], Remove ''shop/old'']
               (Redis \<lparr>keyPrefix = demo_prefix\<rparr>, []))) = (Inr fresh, w3)
     \<and> store_loadAll ref_redis (Redis fresh, w3) = (Inr m, s') \<and> map_of m = [''shop/web'' \<mapsto> [''r1'']]"
proof -
  let ?cfg = "\<lparr>Address = ''redis:6379'', RedisPassword = [], DB = 0\<rparr>"
  have pre: "''k8s_ingress:'' @ ''caddy'' @ '':'' = demo_prefix" by (simp add: demo_prefix_def)
  have new: "newRedisStore ref_redis ?cfg ''caddy'' [] = (Inr \<lparr>keyPrefix = demo_prefix\<rparr>, [])"
    by (simp add: newRedisStore_def ref_redis_def demo_prefix_def)
  have backed: "redis_backed ref_redis map_of keys_sorted (''k8s_ingress:'' @ ''caddy'' @ '':'')"
    using ref_redis.redis_backed_axioms pre by simp
  have empty: "redis_entries ref_redis map_of demo_prefix (Redis \<lparr>keyPrefix = demo_prefix\<rparr>, []) = Map.empty"
    by (simp add: redis_entries_def fun_eq_iff)
  obtain st' w2 where run: "run_store (store_save ref_redis) (store_remove ref_redis) [Save ''shop/web'' [''r1''], Remove ''shop/old'']
        (Redis \<lparr>keyPrefix = demo_prefix\<rparr>, []) = (st', w2)"
    by (meson surj_pair)
  have m: "fold write_entry [Save ''shop/web'' [''r1''], Remove ''shop/old''] Map.empty = [''shop/web'' \<mapsto> [''r1'']]"
    by (simp add: fun_eq_iff)
  show ?thesis
    using redis_store_survives_restart [OF backed keys_sorted_Nil new run] m empty pre run by simp
qed

end
