(* ===== verification/Tls.thy ===== *)
theory Tls
  imports Admin
begin

section \<open>TLS certificates from Secrets (tls.go)\<close>

text \<open>
  The manager's two maps and the critical sections that change them. \<open>managedCerts\<close> holds the
  certificates pushed to Caddy by secret key, \<open>secretToIngress\<close> the set of Ingress keys that
  refer to each secret. A reload is split where the source releases its lock: \<open>reload_prepare\<close>
  reads the old entry, \<open>reload_commit\<close> writes the new one after the push.
\<close>

record tlsCert =
  secretNamespace :: string
  certSecretName :: string
  cert_hosts :: "string list"
  cert_pem :: string
  key_pem :: string

record TLSManager =
  tls_adminAPI :: string
  managedCerts :: "tlsCert gomap"
  secretToIngress :: "(bool gomap) gomap"

definition newTLSManager :: "string \<Rightarrow> TLSManager" where
  "newTLSManager adminAPI = \<lparr>tls_adminAPI = adminAPI, managedCerts = [], secretToIngress = []\<rparr>"

definition object_key :: "string \<Rightarrow> string \<Rightarrow> string" where
  "object_key ns nm = ns @ ''/'' @ nm"

abbreviation ingress_key :: "ingress \<Rightarrow> string" where
  "ingress_key ing \<equiv> object_key (ing_namespace ing) (ing_name ing)"

text \<open>The Ingress keys that refer to a secret; an index expression on a missing key is nil.\<close>

definition refs_of :: "TLSManager \<Rightarrow> string \<Rightarrow> bool gomap" where
  "refs_of m k = (case map_of (secretToIngress m) k of None \<Rightarrow> [] | Some refs \<Rightarrow> refs)"

definition cert_payload :: "tlsCert \<Rightarrow> json" where
  "cert_payload crt =
     obj [(''load_pem'', JArr [obj
       [(''certificate'', JStr (cert_pem crt)),
        (''key'', JStr (key_pem crt)),
        (''tags'', JStrs [''k8s-ingress'', object_key (secretNamespace crt) (certSecretName crt)])]])]"

definition pushCertToCaddy :: "'w env \<Rightarrow> adminClient \<Rightarrow> tlsCert \<Rightarrow> 'w \<Rightarrow> go_error option \<times> 'w" where
  "pushCertToCaddy e adm crt w = postJSON e adm ''/config/apps/tls/certificates'' (cert_payload crt) w"

subsection \<open>Loading\<close>

definition track_ref :: "string \<Rightarrow> string \<Rightarrow> TLSManager \<Rightarrow> TLSManager" where
  "track_ref secretKey ingressKey m =
     m\<lparr>secretToIngress := mput secretKey (mput ingressKey True (refs_of m secretKey)) (secretToIngress m)\<rparr>"

definition store_cert :: "string \<Rightarrow> tlsCert \<Rightarrow> TLSManager \<Rightarrow> TLSManager" where
  "store_cert secretKey crt m = m\<lparr>managedCerts := mput secretKey crt (managedCerts m)\<rparr>"

definition secret_cert :: "string \<Rightarrow> string \<Rightarrow> string list \<Rightarrow> secret \<Rightarrow> tlsCert" where
  "secret_cert ns nm hs s =
     \<lparr>secretNamespace = ns, certSecretName = nm, cert_hosts = hs,
      cert_pem = mindex (secret_data s) ''tls.crt'', key_pem = mindex (secret_data s) ''tls.key''\<rparr>"

text \<open>One entry of \<open>spec.tls\<close>: the reference is tracked first; then the secret is fetched, checked,
  pushed and recorded, each failure skipping the rest.\<close>

definition load_entry ::
    "'w env \<Rightarrow> ingress \<Rightarrow> ingress_tls \<Rightarrow> TLSManager \<times> 'w \<Rightarrow> TLSManager \<times> 'w" where
  "load_entry e ing t = (\<lambda>(m, w).
     (if secretName t = [] then (m, w)
      else
        (let secretKey = object_key (ing_namespace ing) (secretName t);
             m = track_ref secretKey (ingress_key ing) m
         in case get_secret e (ing_namespace ing) (secretName t) w of
              (Inl err, w) \<Rightarrow> (m, w)
            | (Inr s, w) \<Rightarrow>
                if secret_type s \<noteq> ''kubernetes.io/tls'' then (m, w)
                else
                  (let crt = secret_cert (ing_namespace ing) (secretName t) (tls_hosts t) s
                   in if cert_pem crt = [] \<or> key_pem crt = [] then (m, w)
                      else (case pushCertToCaddy e (newAdminClient (tls_adminAPI m)) crt w of
                              (Some err, w) \<Rightarrow> (m, w)
                            | (None, w) \<Rightarrow> (store_cert secretKey crt m, w))))))"

text \<open>The source returns no error in any case.\<close>

definition LoadFromIngress :: "'w env \<Rightarrow> ingress \<Rightarrow> TLSManager \<times> 'w \<Rightarrow> TLSManager \<times> 'w" where
  "LoadFromIngress e ing mw = fold (load_entry e ing) (ing_tls ing) mw"

subsection \<open>Removing\<close>

definition drop_ref :: "string \<Rightarrow> string \<Rightarrow> TLSManager \<Rightarrow> TLSManager" where
  "drop_ref secretKey ingressKey m =
     (case map_of (secretToIngress m) secretKey of
        None \<Rightarrow> m
      | Some refs \<Rightarrow>
          (let refs = mdel ingressKey refs in
           if refs = []
           then m\<lparr>secretToIngress := mdel secretKey (secretToIngress m),
                  managedCerts := mdel secretKey (managedCerts m)\<rparr>
           else m\<lparr>secretToIngress := mput secretKey refs (secretToIngress m)\<rparr>))"

definition remove_entry :: "ingress \<Rightarrow> ingress_tls \<Rightarrow> TLSManager \<Rightarrow> TLSManager" where
  "remove_entry ing t m =
     (if secretName t = [] then m
      else drop_ref (object_key (ing_namespace ing) (secretName t)) (ingress_key ing) m)"

definition RemoveFromIngress :: "ingress \<Rightarrow> TLSManager \<Rightarrow> TLSManager" where
  "RemoveFromIngress ing m = fold (remove_entry ing) (ing_tls ing) m"

subsection \<open>Reloading\<close>

text \<open>Up to the push: the new certificate, when the secret is managed and has both parts.\<close>

definition reload_prepare :: "string \<Rightarrow> string \<Rightarrow> secret \<Rightarrow> TLSManager \<Rightarrow> tlsCert option" where
  "reload_prepare ns nm s m =
     (case map_of (managedCerts m) (object_key ns nm) of
        None \<Rightarrow> None
      | Some existing \<Rightarrow>
          (let crt = secret_cert ns nm (cert_hosts existing) s
           in if cert_pem crt = [] \<or> key_pem crt = [] then None else Some crt))"

definition reload_commit :: "tlsCert \<Rightarrow> TLSManager \<Rightarrow> TLSManager" where
  "reload_commit crt m = store_cert (object_key (secretNamespace crt) (certSecretName crt)) crt m"

definition reloadSecret ::
    "'w env \<Rightarrow> string \<Rightarrow> string \<Rightarrow> secret \<Rightarrow> TLSManager \<times> 'w \<Rightarrow> TLSManager \<times> 'w" where
  "reloadSecret e ns nm s = (\<lambda>(m, w).
     (case reload_prepare ns nm s m of
        None \<Rightarrow> (m, w)
      | Some crt \<Rightarrow>
          (case pushCertToCaddy e (newAdminClient (tls_adminAPI m)) crt w of
             (Some err, w) \<Rightarrow> (m, w)
           | (None, w) \<Rightarrow> (reload_commit crt m, w))))"

text \<open>The update handler of the secret informer.\<close>

definition WatchSecrets_update ::
    "'w env \<Rightarrow> string \<Rightarrow> string \<Rightarrow> secret \<Rightarrow> TLSManager \<times> 'w \<Rightarrow> TLSManager \<times> 'w" where
  "WatchSecrets_update e ns nm s = (\<lambda>(m, w).
     (if map_of (managedCerts m) (object_key ns nm) \<noteq> None then reloadSecret e ns nm s (m, w) else (m, w)))"

definition ManagedHosts :: "'w env \<Rightarrow> TLSManager \<Rightarrow> 'w \<Rightarrow> string list \<times> 'w" where
  "ManagedHosts e m w =
     range_keys e (map fst (gomap_of (concat (map (\<lambda>(k, crt). map (\<lambda>h. (h, True)) (cert_hosts crt)) (managedCerts m))))) w"

section \<open>What the manager guarantees\<close>

text \<open>The invariant: both maps have unique keys, no reference set is empty, and every managed
  certificate is complete, is filed under its own secret and, the \<open>orphan\<close> ones excepted, is
  referred to by an Ingress.\<close>

definition cert_wf :: "string \<Rightarrow> tlsCert \<Rightarrow> bool" where
  "cert_wf k crt = (k = object_key (secretNamespace crt) (certSecretName crt) \<and> cert_pem crt \<noteq> [] \<and> key_pem crt \<noteq> [])"

abbreviation referenced :: "string \<Rightarrow> TLSManager \<Rightarrow> bool" where
  "referenced k m \<equiv> map_of (secretToIngress m) k \<noteq> None"

definition tls_inv_but :: "(string \<Rightarrow> bool) \<Rightarrow> TLSManager \<Rightarrow> bool" where
  "tls_inv_but orphan m =
     (keys_sorted (managedCerts m) \<and> keys_sorted (secretToIngress m)
      \<and> list_all (\<lambda>(k, refs). refs \<noteq> [] \<and> keys_sorted refs) (secretToIngress m)
      \<and> list_all (\<lambda>(k, crt). cert_wf k crt \<and> (referenced k m \<or> orphan k)) (managedCerts m))"

definition tls_inv :: "TLSManager \<Rightarrow> bool" where
  "tls_inv m = tls_inv_but (\<lambda>k. False) m"

lemma mput_nonempty [simp]: "mput k v m \<noteq> []"
  by (cases m) (auto split: if_splits)

lemma tls_inv_but_iff:
  "tls_inv_but p m \<longleftrightarrow>
     keys_sorted (managedCerts m) \<and> keys_sorted (secretToIngress m)
     \<and> (\<forall>k refs. map_of (secretToIngress m) k = Some refs \<longrightarrow> refs \<noteq> [] \<and> keys_sorted refs)
     \<and> (\<forall>k crt. map_of (managedCerts m) k = Some crt \<longrightarrow> cert_wf k crt \<and> (referenced k m \<or> p k))"
  unfolding tls_inv_but_def by (simp add: list_all_gomap cong: conj_cong)

lemma tls_inv_but_mono: "tls_inv_but p m \<Longrightarrow> (\<And>k. p k \<Longrightarrow> q k) \<Longrightarrow> tls_inv_but q m"
  unfolding tls_inv_but_iff by blast

lemma tls_inv_but_track: "tls_inv_but p m \<Longrightarrow> tls_inv_but p (track_ref k i m)"
proof -
  assume m: "tls_inv_but p m"
  then have "keys_sorted (refs_of m k)" by (auto simp: tls_inv_but_iff refs_of_def split: option.splits)
  with m show ?thesis by (force simp: tls_inv_but_iff track_ref_def keys_sorted_mput map_of_mput)
qed

lemma tls_inv_but_store:
  "tls_inv_but p m \<Longrightarrow> cert_wf k crt \<Longrightarrow> referenced k m \<or> p k \<Longrightarrow> tls_inv_but p (store_cert k crt m)"
  by (auto simp: tls_inv_but_iff store_cert_def keys_sorted_mput map_of_mput)

lemma tls_inv_but_drop: "tls_inv_but p m \<Longrightarrow> tls_inv_but p (drop_ref k i m)"
proof (cases "map_of (secretToIngress m) k")
  case (Some refs)
  assume m: "tls_inv_but p m"
  then have "keys_sorted (mdel i refs)" using Some by (auto simp: tls_inv_but_iff keys_sorted_mdel)
  with m Some show ?thesis
    by (auto simp: tls_inv_but_iff drop_ref_def Let_def keys_sorted_mput keys_sorted_mdel map_of_mput map_of_mdel)
qed (simp add: drop_ref_def)

lemmas tls_inv_ops =
  tls_inv_but_track [where p = "\<lambda>k. False", folded tls_inv_def]
  tls_inv_but_drop [where p = "\<lambda>k. False", folded tls_inv_def]

lemmas tls_inv_store = tls_inv_but_store [where p = "\<lambda>k. False", folded tls_inv_def, simplified]

lemma map_of_track [simp]:
  "map_of (secretToIngress (track_ref k i m)) k = Some (mput i True (refs_of m k))"
  by (simp add: track_ref_def map_of_mput)

lemma secret_cert_simps [simp]:
  "secretNamespace (secret_cert ns nm hs s) = ns" "certSecretName (secret_cert ns nm hs s) = nm"
  "cert_hosts (secret_cert ns nm hs s) = hs"
  by (simp_all add: secret_cert_def)

lemma load_entry_cases:
  "fst (load_entry e ing t (m, w)) =
     (if secretName t = [] then m
      else let k = object_key (ing_namespace ing) (secretName t); m' = track_ref k (ingress_key ing) m
           in case get_secret e (ing_namespace ing) (secretName t) w of
                (Inl err, w') \<Rightarrow> m'
              | (Inr s, w') \<Rightarrow>
                  let crt = secret_cert (ing_namespace ing) (secretName t) (tls_hosts t) s
                  in if secret_type s = ''kubernetes.io/tls'' \<and> cert_pem crt \<noteq> [] \<and> key_pem crt \<noteq> []
                        \<and> fst (pushCertToCaddy e (newAdminClient (tls_adminAPI m')) crt w') = None
                     then store_cert k crt m' else m')"
  by (auto simp: load_entry_def Let_def split: prod.split sum.split option.split)

lemma tls_inv_load_entry: "tls_inv (fst mw) \<Longrightarrow> tls_inv (fst (load_entry e ing t mw))"
proof -
  assume i: "tls_inv (fst mw)"
  obtain m w where mw: "mw = (m, w)" by (cases mw)
  with i show ?thesis
    by (auto simp: load_entry_cases Let_def cert_wf_def tls_inv_ops intro!: tls_inv_store
        split: prod.split sum.split)
qed

lemma tls_inv_load: "tls_inv (fst mw) \<Longrightarrow> tls_inv (fst (LoadFromIngress e ing mw))"
proof -
  have "tls_inv (fst mw) \<Longrightarrow> tls_inv (fst (fold (load_entry e ing) ts mw))" for ts
    by (induction ts arbitrary: mw) (auto simp: tls_inv_load_entry)
  then show "tls_inv (fst mw) \<Longrightarrow> tls_inv (fst (LoadFromIngress e ing mw))"
    by (simp add: LoadFromIngress_def)
qed

lemma tls_inv_remove: "tls_inv m \<Longrightarrow> tls_inv (RemoveFromIngress ing m)"
proof -
  have "tls_inv m \<Longrightarrow> tls_inv (fold (remove_entry ing) ts m)" for ts
    by (induction ts arbitrary: m) (auto simp: remove_entry_def tls_inv_ops)
  then show "tls_inv m \<Longrightarrow> tls_inv (RemoveFromIngress ing m)"
    by (simp add: RemoveFromIngress_def)
qed

lemma reload_prepare_Some:
  "reload_prepare ns nm s m = Some crt \<Longrightarrow>
   map_of (managedCerts m) (object_key ns nm) \<noteq> None \<and> cert_wf (object_key ns nm) crt
   \<and> secretNamespace crt = ns \<and> certSecretName crt = nm"
  by (auto simp: reload_prepare_def Let_def cert_wf_def split: option.splits if_splits)

lemma tls_inv_reload: "tls_inv (fst mw) \<Longrightarrow> tls_inv (fst (reloadSecret e ns nm s mw))"
proof -
  assume i: "tls_inv (fst mw)"
  obtain m w where mw: "mw = (m, w)" by (cases mw)
  show ?thesis
  proof (cases "reload_prepare ns nm s m")
    case (Some crt)
    have "map_of (secretToIngress m) (object_key ns nm) \<noteq> None"
      using reload_prepare_Some [OF Some] i mw by (auto simp: tls_inv_def tls_inv_but_iff)
    then have "tls_inv (reload_commit crt m)"
      using reload_prepare_Some [OF Some] i mw by (auto simp: reload_commit_def intro: tls_inv_store)
    with Some i mw show ?thesis
      by (auto simp: reloadSecret_def split: prod.split option.split)
  qed (use i mw in \<open>simp add: reloadSecret_def\<close>)
qed

subsection \<open>Runs of the manager\<close>

text \<open>What happens to the manager, each event in one piece.\<close>

datatype tls_event = LoadIngress ingress | RemoveIngress ingress | SecretUpdate string string secret

definition tls_step :: "'w env \<Rightarrow> tls_event \<Rightarrow> TLSManager \<times> 'w \<Rightarrow> TLSManager \<times> 'w" where
  "tls_step e ev mw =
     (case ev of
        LoadIngress ing \<Rightarrow> LoadFromIngress e ing mw
      | RemoveIngress ing \<Rightarrow> (RemoveFromIngress ing (fst mw), snd mw)
      | SecretUpdate ns nm s \<Rightarrow> WatchSecrets_update e ns nm s mw)"

lemma tls_inv_step: "tls_inv (fst mw) \<Longrightarrow> tls_inv (fst (tls_step e ev mw))"
  by (cases ev)
    (auto simp: tls_step_def tls_inv_load tls_inv_remove tls_inv_reload WatchSecrets_update_def
      split: prod.split)

text \<open>Through any sequence of Ingress loads, Ingress removals and Secret updates, whatever the API
  servers answer, a certificate is managed only while some Ingress refers to its Secret, only
  under its own Secret's key and only with both PEM parts, and no empty reference set is kept.\<close>

lemma tls_manager_invariant:
  "tls_inv (fst (fold (tls_step e) evs (newTLSManager adminAPI, w)))"
proof -
  have "tls_inv (fst mw) \<Longrightarrow> tls_inv (fst (fold (tls_step e) evs mw))" for mw
    by (induction evs arbitrary: mw) (auto simp: tls_inv_step)
  moreover have "tls_inv (newTLSManager adminAPI)" by (simp add: tls_inv_def tls_inv_but_def newTLSManager_def)
  ultimately show ?thesis by simp
qed

subsection \<open>The references as a relation\<close>

definition refs_rel :: "TLSManager \<Rightarrow> (string \<times> string) set" where
  "refs_rel m = {(k, i). map_of (refs_of m k) i \<noteq> None}"

definition secret_refs :: "ingress \<Rightarrow> (string \<times> string) set" where
  "secret_refs ing =
     {(object_key (ing_namespace ing) (secretName t), ingress_key ing) |t. t \<in> set (ing_tls ing) \<and> secretName t \<noteq> []}"

definition refs_step :: "tls_event \<Rightarrow> (string \<times> string) set \<Rightarrow> (string \<times> string) set" where
  "refs_step ev R =
     (case ev of
        LoadIngress ing \<Rightarrow> R \<union> secret_refs ing
      | RemoveIngress ing \<Rightarrow> R - secret_refs ing
      | SecretUpdate ns nm s \<Rightarrow> R)"

lemma refs_rel_track: "refs_rel (track_ref k i m) = insert (k, i) (refs_rel m)"
  by (auto simp: refs_rel_def track_ref_def refs_of_def map_of_mput split: if_splits option.splits)

lemma refs_rel_store [simp]: "refs_rel (store_cert k crt m) = refs_rel m"
  by (simp add: refs_rel_def refs_of_def store_cert_def)

lemma refs_rel_drop: "refs_rel (drop_ref k i m) = refs_rel m - {(k, i)}"
proof (cases "map_of (secretToIngress m) k")
  case None
  then show ?thesis by (auto simp: refs_rel_def drop_ref_def refs_of_def)
next
  case (Some refs)
  show ?thesis
  proof (cases "mdel i refs = []")
    case True
    then have "\<forall>i'. i' \<noteq> i \<longrightarrow> map_of refs i' = None"
      using map_of_mdel [of i refs] by (metis map_of.simps(1))
    with True Some show ?thesis
      by (auto simp: refs_rel_def drop_ref_def refs_of_def map_of_mdel split: option.splits if_splits)
  next
    case False
    with Some show ?thesis
      by (auto simp: refs_rel_def drop_ref_def refs_of_def Let_def map_of_mdel map_of_mput split: option.splits if_splits)
  qed
qed

lemma refs_rel_load_entry:
  "refs_rel (fst (load_entry e ing t mw)) =
     refs_rel (fst mw) \<union> (if secretName t = [] then {} else {(object_key (ing_namespace ing) (secretName t), ingress_key ing)})"
  by (cases mw) (auto simp: load_entry_cases Let_def refs_rel_track split: prod.split sum.split)

lemma refs_rel_load: "refs_rel (fst (LoadFromIngress e ing mw)) = refs_rel (fst mw) \<union> secret_refs ing"
proof -
  have "refs_rel (fst (fold (load_entry e ing) ts mw)) = refs_rel (fst mw)
      \<union> {(object_key (ing_namespace ing) (secretName t), ingress_key ing) |t. t \<in> set ts \<and> secretName t \<noteq> []}" for ts
    by (induction ts arbitrary: mw) (auto simp: refs_rel_load_entry)
  then show ?thesis by (simp add: LoadFromIngress_def secret_refs_def)
qed

lemma refs_rel_remove: "refs_rel (RemoveFromIngress ing m) = refs_rel m - secret_refs ing"
proof -
  have "refs_rel (fold (remove_entry ing) ts m) = refs_rel m
      - {(object_key (ing_namespace ing) (secretName t), ingress_key ing) |t. t \<in> set ts \<and> secretName t \<noteq> []}" for ts
    by (induction ts arbitrary: m) (auto simp: remove_entry_def refs_rel_drop)
  then show ?thesis by (simp add: RemoveFromIngress_def secret_refs_def)
qed

lemma refs_rel_update: "refs_rel (fst (WatchSecrets_update e ns nm s mw)) = refs_rel (fst mw)"
  by (cases mw)
    (auto simp: WatchSecrets_update_def reloadSecret_def reload_commit_def split: prod.split option.split)

lemma refs_rel_step: "refs_rel (fst (tls_step e ev mw)) = refs_step ev (refs_rel (fst mw))"
  by (cases ev) (simp_all add: tls_step_def refs_step_def refs_rel_load refs_rel_remove refs_rel_update)

lemma refs_rel_run: "refs_rel (fst (fold (tls_step e) evs mw)) = fold refs_step evs (refs_rel (fst mw))"
  by (induction evs arbitrary: mw) (simp_all add: refs_rel_step)

text \<open>C35: The reference sets are exactly what the events say: a load adds the Ingress to each Secret
  its \<open>spec.tls\<close> names, whether or not the Secret can be fetched, a removal takes it off the
  Secrets of the removed object, and Secret updates change nothing.\<close>

theorem tls_references_refine:
  "refs_rel (fst (fold (tls_step e) evs (newTLSManager adminAPI, w))) = fold refs_step evs {}"
  by (simp add: refs_rel_run) (simp add: refs_rel_def refs_of_def newTLSManager_def)

subsection \<open>A reference that stays\<close>

definition tls_ingress :: "string list \<Rightarrow> ingress" where
  "tls_ingress names =
     \<lparr>ing_namespace = ''shop'', ing_name = ''web'', ing_uid = ''u1'', annotations = [], ingressClassName = None,
      ing_tls = map (\<lambda>n. \<lparr>tls_hosts = [''shop.example''], secretName = n\<rparr>) names, rules = []\<rparr>"

text \<open>A Secret that an update drops from \<open>spec.tls\<close> keeps the reference of its Ingress for good:
  the deletion only looks at the last object.\<close>

lemma dropped_secret_keeps_reference:
  "(''shop/old'', ''shop/web'') \<in> refs_rel (fst (fold (tls_step e)
      [LoadIngress (tls_ingress [''old'']), LoadIngress (tls_ingress [''new'']), RemoveIngress (tls_ingress [''new''])]
      (newTLSManager adminAPI, w)))"
proof -
  have "secret_refs (tls_ingress [n]) = {(object_key ''shop'' n, ''shop/web'')}" if "n \<noteq> []" for n
    using that by (auto simp: secret_refs_def tls_ingress_def object_key_def)
  then show ?thesis
    unfolding refs_rel_run by (simp add: refs_step_def object_key_def)
qed

end
