(* ===== verification/Admin_Props.thy ===== *)
theory Admin_Props
  imports Admin Json_Text
begin

section \<open>What the admin client does to Caddy's configuration\<close>

text \<open>
  The requests of the client. \<open>logging\<close> wraps an environment so that it records every HTTP request, and
  the request bounds hold for every behaviour of the server. The locale \<open>admin_api\<close> of \<open>Admin_Spec\<close>
  states what the client relies on of Caddy's documented admin API and of \<open>encoding/json\<close>.
\<close>

subsection \<open>The requests of an operation\<close>

definition lift_log :: "('w \<Rightarrow> 'a \<times> 'w) \<Rightarrow> 'w \<times> request list \<Rightarrow> 'a \<times> 'w \<times> request list" where
  "lift_log f = (\<lambda>(w, l). case f w of (x, w') \<Rightarrow> (x, (w', l)))"

definition logging :: "'w env \<Rightarrow> ('w \<times> request list) env" where
  "logging e =
     \<lparr>new_request = new_request e,
      http_do = (\<lambda>rq (w, l). case http_do e rq w of (x, w') \<Rightarrow> (x, (w', l @ [rq]))),
      backoff = (\<lambda>n. lift_log (backoff e n)),
      json_marshal = json_marshal e,
      json_unmarshal = json_unmarshal e,
      range_keys = (\<lambda>ks. lift_log (range_keys e ks)),
      get_secret = (\<lambda>ns nm. lift_log (get_secret e ns nm)),
      get_configmap = (\<lambda>ns nm. lift_log (get_configmap e ns nm)),
      create_configmap = (\<lambda>ns cm. lift_log (create_configmap e ns cm)),
      patch_ingress = (\<lambda>ns nm p. lift_log (patch_ingress e ns nm p)),
      redis_ping = (\<lambda>a. lift_log (redis_ping e a)),
      redis_set = (\<lambda>k v. lift_log (redis_set e k v)),
      redis_get = (\<lambda>k. lift_log (redis_get e k)),
      redis_del = (\<lambda>k. lift_log (redis_del e k)),
      redis_keys = (\<lambda>p. lift_log (redis_keys e p))\<rparr>"

text \<open>The logged operation \<open>g\<close> does what \<open>f\<close> does and sends at most \<open>k\<close> requests, all in \<open>S\<close>.\<close>

definition emits :: "('w \<Rightarrow> 'a \<times> 'w) \<Rightarrow> ('w \<times> request list \<Rightarrow> 'a \<times> 'w \<times> request list) \<Rightarrow> nat \<Rightarrow> request set \<Rightarrow> bool" where
  "emits f g k S =
     (\<forall>w l. \<exists>log. g (w, l) = (fst (f w), (snd (f w), l @ log)) \<and> length log \<le> k \<and> set log \<subseteq> S)"

lemma emitsE:
  assumes "emits f g k S"
  obtains log where "g (w, l) = (fst (f w), (snd (f w), l @ log))" "length log \<le> k" "set log \<subseteq> S"
  using assms unfolding emits_def by blast

lemma emits_none: "(\<And>w l. g (w, l) = (fst (f w), (snd (f w), l))) \<Longrightarrow> emits f g k S"
  unfolding emits_def by (metis append_Nil2 le0 list.size(3) empty_subsetI list.set(1))

lemma logging_simps [simp]:
  "new_request (logging e) = new_request e"
  "json_marshal (logging e) = json_marshal e"
  "json_unmarshal (logging e) = json_unmarshal e"
  by (simp_all add: logging_def)

lemma normaliseJSON_logging [simp]: "normaliseJSON (logging e) b = normaliseJSON e b"
  by (simp add: normaliseJSON_def split: sum.split)

lemma same_json_logging [simp]: "same_json (logging e) a b = same_json e a b"
  by (simp add: same_json_def split: sum.split)

definition write_request :: "adminClient \<Rightarrow> string \<Rightarrow> string \<Rightarrow> string option \<Rightarrow> request" where
  "write_request c meth pth body =
     \<lparr>rq_method = meth, rq_url = base c @ pth, rq_body = body,
      rq_ctype = (if body \<noteq> None then Some ''application/json'' else None)\<rparr>"

text \<open>An answer the client takes for success.\<close>

definition accepted :: "go_error + response \<Rightarrow> bool" where
  "accepted x = (case x of Inl err \<Rightarrow> False | Inr resp \<Rightarrow> 200 \<le> status resp \<and> status resp < 300)"

text \<open>The log of one exchange, exactly.\<close>

lemma do_request_log:
  "do_request (logging e) c meth pth body (w, l) =
     (fst (do_request e c meth pth body w), snd (do_request e c meth pth body w),
      l @ (if new_request e meth (base c @ pth) = None then [write_request c meth pth body] else []))"
  by (simp add: do_request_def write_request_def logging_def split: option.split sum.split prod.split)

lemma getRoute_log:
  "getRoute (logging e) c rid (w, l) =
     (fst (getRoute e c rid w), snd (getRoute e c rid w),
      l @ (if new_request e ''GET'' (base c @ id_path rid) = None then [get_request (base c @ id_path rid)] else []))"
  by (simp add: getRoute_def logging_def split: option.split sum.split prod.split)

text \<open>The requests \<open>upsertRoute\<close> may send: those on its own identifier and the POST of its route.\<close>

definition own_requests :: "adminClient \<Rightarrow> string \<Rightarrow> string \<Rightarrow> string \<Rightarrow> request set" where
  "own_requests c serverName rid body =
     {get_request (base c @ id_path rid),
      write_request c ''DELETE'' (id_path rid) None,
      write_request c ''POST'' (routes_path serverName) (Some body)}"

lemma emits_attempt:
  "emits (upsert_attempt e c s rid body) (upsert_attempt (logging e) c s rid body) 3 (own_requests c s rid body)"
  unfolding emits_def
proof (intro allI)
  fix w l
  obtain x w1 where g: "getRoute e c rid w = (x, w1)" by (cases "getRoute e c rid w")
  obtain d w2 where d: "do_request e c ''DELETE'' (id_path rid) None w1 = (d, w2)"
    by (cases "do_request e c ''DELETE'' (id_path rid) None w1")
  show "\<exists>log. upsert_attempt (logging e) c s rid body (w, l) =
        (fst (upsert_attempt e c s rid body w), (snd (upsert_attempt e c s rid body w), l @ log))
        \<and> length log \<le> 3 \<and> set log \<subseteq> own_requests c s rid body"
    by (cases x; cases "projr x"; cases d)
      (auto simp: upsert_attempt_def post_route_def do_request_log getRoute_log g d own_requests_def
        split: option.split)
qed

lemma emits_loop:
  "emits (upsert_loop e c s rid body attempt lastErr) (upsert_loop (logging e) c s rid body attempt lastErr)
     (3 * (3 - attempt)) (own_requests c s rid body)"
proof (induction "3 - attempt" arbitrary: attempt lastErr)
  case 0
  then show ?case
    by (intro emits_none) (simp add: upsert_loop.simps [of _ _ _ _ _ attempt])
next
  case (Suc n)
  then have n: "n = 3 - Suc attempt" and lt: "attempt < 3" by auto
  show ?case unfolding emits_def
  proof (intro allI)
    fix w l
    obtain b w1 where b: "(if 0 < attempt then backoff e attempt w else (None, w)) = (b, w1)"
      by (cases "if 0 < attempt then backoff e attempt w else (None, w)")
    have b': "(if 0 < attempt then backoff (logging e) attempt (w, l) else (None, (w, l))) = (b, (w1, l))"
      using b by (auto simp: logging_def lift_log_def split: if_splits)
    obtain x w2 where x: "upsert_attempt e c s rid body w1 = (x, w2)" by (cases "upsert_attempt e c s rid body w1")
    obtain log where log: "upsert_attempt (logging e) c s rid body (w1, l) = (x, (w2, l @ log))"
        "length log \<le> 3" "set log \<subseteq> own_requests c s rid body"
      using emits_attempt [of e c s rid body] x unfolding emits_def by (metis fst_conv snd_conv)
    obtain log' where log': "upsert_loop (logging e) c s rid body (Suc attempt) x (w2, l @ log) =
          (fst (upsert_loop e c s rid body (Suc attempt) x w2),
           (snd (upsert_loop e c s rid body (Suc attempt) x w2), (l @ log) @ log'))"
        "length log' \<le> 3 * (3 - Suc attempt)" "set log' \<subseteq> own_requests c s rid body"
      by (rule emitsE [OF Suc.hyps(1) [OF n]])
    show "\<exists>log. upsert_loop (logging e) c s rid body attempt lastErr (w, l) =
          (fst (upsert_loop e c s rid body attempt lastErr w),
           (snd (upsert_loop e c s rid body attempt lastErr w), l @ log))
          \<and> length log \<le> 3 * (3 - attempt) \<and> set log \<subseteq> own_requests c s rid body"
    proof (cases b)
      case (Some err)
      then show ?thesis
        using lt b b' by (intro exI [of _ "[]"]) (simp add: upsert_loop.simps [of _ _ _ _ _ attempt])
    next
      case None
      show ?thesis
      proof (cases x)
        case None
        with \<open>b = None\<close> show ?thesis
          using lt b b' x log
          by (intro exI [of _ log]) (simp add: upsert_loop.simps [of _ _ _ _ _ attempt])
      next
        case (Some err)
        have "upsert_loop e c s rid body attempt lastErr w = upsert_loop e c s rid body (Suc attempt) x w2"
          using lt b x \<open>b = None\<close> Some by (simp add: upsert_loop.simps [of _ _ _ _ _ attempt])
        moreover have "upsert_loop (logging e) c s rid body attempt lastErr (w, l)
            = upsert_loop (logging e) c s rid body (Suc attempt) x (w2, l @ log)"
          using lt b' log \<open>b = None\<close> Some by (simp add: upsert_loop.simps [of _ _ _ _ _ attempt])
        ultimately show ?thesis
          using lt log log' by (intro exI [of _ "log @ log'"]) auto
      qed
    qed
  qed
qed

text \<open>C12: Whatever the server answers, \<open>upsertRoute\<close> returns after at most nine requests, and each of
  them is the GET or the DELETE of its own identifier or the POST of its own route: it never
  touches another route. An update is a DELETE and a POST and never the \<open>PUT /id/<id>\<close> that \<open>README.md\<close>
  describes, for the reason the comments of \<open>admin.go\<close> give. The logged run gives the same result and the same world.\<close>

theorem upsertRoute_requests:
  "\<exists>log. upsertRoute (logging e) c s r (w, l) =
      (fst (upsertRoute e c s r w), (snd (upsertRoute e c s r w), l @ log))
    \<and> length log \<le> 9
    \<and> (\<exists>body. set log \<subseteq> own_requests c s (route_id r) body
             \<and> (log = [] \<or> json_marshal e (route_json r) = Inr body))"
proof (cases "json_marshal e (route_json r)")
  case (Inl err)
  then show ?thesis by (intro exI [of _ "[]"]) (simp add: upsertRoute_def)
next
  case (Inr body)
  obtain log where "upsert_loop (logging e) c s (route_id r) body 0 None (w, l) =
        (fst (upsert_loop e c s (route_id r) body 0 None w),
         (snd (upsert_loop e c s (route_id r) body 0 None w), l @ log))"
      "length log \<le> 3 * (3 - 0)" "set log \<subseteq> own_requests c s (route_id r) body"
    by (rule emitsE [OF emits_loop])
  with Inr show ?thesis by (intro exI [of _ log]) (auto simp: upsertRoute_def)
qed

subsection \<open>Server discovery and conditional writes\<close>

text \<open>Without a hint, and when the server list can be fetched and decoded, \<open>resolveServerName\<close>
  returns the name of a configured server that listens on the port, whatever order the map is
  visited in, and fails only when no server does.\<close>

lemma resolveServerName_finds:
  assumes "new_request e ''GET'' (base c @ ''/config/apps/http/servers'') = None"
    and "http_do e (get_request (base c @ ''/config/apps/http/servers'')) w = (Inr \<lparr>status = 200, resp_body = b\<rparr>, w')"
    and "json_unmarshal e b = Inr j" "decode_servers j = Some srvs" "keys_sorted srvs"
    and "set (fst (range_keys e (map fst srvs) w')) = set (map fst srvs)"
  shows "case fst (resolveServerName e c [] port w) of
           Inr name \<Rightarrow> (\<exists>ls. (name, ls) \<in> set srvs \<and> list_ex (\<lambda>addr. HasSuffix addr port) ls)
         | Inl err \<Rightarrow> (\<nexists>name ls. (name, ls) \<in> set srvs \<and> list_ex (\<lambda>addr. HasSuffix addr port) ls)"
proof -
  obtain order w2 where o: "range_keys e (map fst srvs) w' = (order, w2)" "set order = fst ` set srvs"
    using assms(6) by (cases "range_keys e (map fst srvs) w'") auto
  let ?P = "\<lambda>name. case map_of srvs name of None \<Rightarrow> False | Some ls \<Rightarrow> listens_on port ls"
  have P: "?P name \<longleftrightarrow> (\<exists>ls. (name, ls) \<in> set srvs \<and> list_ex (\<lambda>addr. HasSuffix addr port) ls)" for name
  proof -
    have "map_of srvs name = Some ls \<longleftrightarrow> (name, ls) \<in> set srvs" for ls
      using keys_sorted_distinct [OF assms(5)] by (simp add: map_of_eq_Some_iff)
    then have "(\<exists>ls. (name, ls) \<in> set srvs \<and> list_ex (\<lambda>addr. HasSuffix addr port) ls)
        = (\<exists>ls. map_of srvs name = Some ls \<and> list_ex (\<lambda>addr. HasSuffix addr port) ls)" by simp
    then show ?thesis by (simp add: listens_on_def split: option.split)
  qed
  show ?thesis
  proof (cases "find ?P order")
    case None
    then have "\<forall>name \<in> fst ` set srvs. \<not> ?P name"
      unfolding find_None_iff using o(2) by blast
    with None P show ?thesis
      using assms o by (force simp: resolveServerName_def find_server_def)
  next
    case (Some name)
    then have "?P name" unfolding find_Some_iff by blast
    with Some P show ?thesis
      using assms o by (simp add: resolveServerName_def find_server_def)
  qed
qed

lemma resolveServerName_finds_instance:
  "fst (resolveServerName ((offline :: unit env)\<lparr>
       http_do := (\<lambda>rq w. (Inr \<lparr>status = 200, resp_body = ''x''\<rparr>, w)),
       json_unmarshal := (\<lambda>s. Inr (obj [(''srv0'', obj [(''listen'', JStrs ['':443''])])]))\<rparr>)
     (newAdminClient ''a'') [] '':443'' ()) = Inr ''srv0''"
proof -
  let ?e = "(offline :: unit env)\<lparr>
       http_do := (\<lambda>rq w. (Inr \<lparr>status = 200, resp_body = ''x''\<rparr>, w)),
       json_unmarshal := (\<lambda>s. Inr (obj [(''srv0'', obj [(''listen'', JStrs ['':443''])])]))\<rparr>"
  let ?r = "fst (resolveServerName ?e (newAdminClient ''a'') [] '':443'' ())"
  have "decode_servers (obj [(''srv0'', obj [(''listen'', JStrs ['':443''])])]) = Some [(''srv0'', ['':443''])]"
    by code_simp
  then have "case ?r of
        Inr name \<Rightarrow> (\<exists>ls. (name, ls) \<in> set [(''srv0'', ['':443''])] \<and> list_ex (\<lambda>addr. HasSuffix addr '':443'') ls)
      | Inl err \<Rightarrow> (\<nexists>name ls. (name, ls) \<in> set [(''srv0'', ['':443''])] \<and> list_ex (\<lambda>addr. HasSuffix addr '':443'') ls)"
    by (intro resolveServerName_finds [where w' = "()" and b = "''x''"])
      (simp_all add: offline_def keys_sorted_Cons)
  then show ?thesis by (cases ?r) (auto simp: HasSuffix_def)
qed

lemma putOrPatch_cases:
  "do_request e c ''PUT'' pth body w = (None, w1) \<Longrightarrow> putOrPatch e c pth body w = (None, w1)"
  "do_request e c ''PUT'' pth body w = (Some err, w1) \<Longrightarrow> Contains err ''status 409'' \<Longrightarrow>
     putOrPatch e c pth body w = do_request e c ''PATCH'' pth body w1"
  "do_request e c ''PUT'' pth body w = (Some err, w1) \<Longrightarrow> \<not> Contains err ''status 409'' \<Longrightarrow>
     putOrPatch e c pth body w = (Some err, w1)"
  by (simp_all add: putOrPatch_def)

end
