(* ===== verification/Tls_Policy.thy ===== *)
theory Tls_Policy
  imports Admin_Props Annotations
begin

section \<open>Per-Ingress TLS automation policies (tls_policy.go)\<close>

text \<open>
  The policy an Ingress asks for and its synchronisation with Caddy. The policy types and their
  JSON are in \<open>Admin\<close>, next to the client that sends them.
\<close>

record TLSPolicyManager =
  policy_adminAPI :: string

definition newTLSPolicyManager :: "string \<Rightarrow> TLSPolicyManager" where
  "newTLSPolicyManager adminAPI = \<lparr>policy_adminAPI = adminAPI\<rparr>"

definition tlsPolicyID :: "ingress \<Rightarrow> string" where
  "tlsPolicyID ing = ''k8s-tls-policy-'' @ ing_namespace ing @ ''-'' @ ing_name ing"

definition tlsHosts :: "ingress \<Rightarrow> string list" where
  "tlsHosts ing = collect_unique (filter (\<lambda>h. h \<noteq> []) (concat (map tls_hosts (ing_tls ing))))"

definition readEABSecret ::
    "'w env \<Rightarrow> string \<Rightarrow> string \<Rightarrow> 'w \<Rightarrow> (go_error + acmeExternalAccount) \<times> 'w" where
  "readEABSecret e ns nm w =
     (case get_secret e ns nm w of
        (Inl err, w) \<Rightarrow> (Inl (kube_text err), w)
      | (Inr s, w) \<Rightarrow>
          (let keyID = TrimSpace (mindex (secret_data s) ''key_id'');
               macKey = TrimSpace (mindex (secret_data s) ''mac_key'')
           in if keyID = [] \<or> macKey = []
              then (Inl (''secret '' @ ns @ ''/'' @ nm @ '' must have non-empty keys 'key_id' and 'mac_key'' @ [CHR 0x27]), w)
              else (Inr \<lparr>KeyID = keyID, MACKey = macKey\<rparr>, w)))"

text \<open>The issuers of the policy: none without a CA override, one ACME issuer otherwise, with the
  account of the EAB secret when one is named.\<close>

definition policy_issuers ::
    "'w env \<Rightarrow> ingress \<Rightarrow> ingressAnnotations \<Rightarrow> 'w \<Rightarrow> (go_error + acmeIssuer list) \<times> 'w" where
  "policy_issuers e ing ann w =
     (if tlsCA ann = [] then (Inr [], w)
      else if tlsCASecret ann = [] then (Inr [\<lparr>Module = ''acme'', CA = tlsCA ann, ExternalAccount = None\<rparr>], w)
      else (case readEABSecret e (ing_namespace ing) (tlsCASecret ann) w of
              (Inl err, w) \<Rightarrow>
                (Inl (''read EAB secret '' @ ing_namespace ing @ ''/'' @ tlsCASecret ann @ '': '' @ err), w)
            | (Inr eab, w) \<Rightarrow>
                (Inr [\<lparr>Module = ''acme'', CA = tlsCA ann, ExternalAccount = Some eab\<rparr>], w)))"

definition policy_Sync ::
    "'w env \<Rightarrow> TLSPolicyManager \<Rightarrow> ingress \<Rightarrow> ingressAnnotations \<Rightarrow> 'w \<Rightarrow> go_error option \<times> 'w" where
  "policy_Sync e m ing ann w =
     (let hosts = tlsHosts ing in
      if hosts = [] then (None, w)
      else
        (case policy_issuers e ing ann w of
           (Inl err, w) \<Rightarrow> (Some err, w)
         | (Inr issuers, w) \<Rightarrow>
             (case upsertTLSPolicy e (newAdminClient (policy_adminAPI m))
                     \<lparr>policy_ID = tlsPolicyID ing, Subjects = hosts, Issuers = issuers, OnDemand = tlsOnDemand ann\<rparr> w of
                (Some err, w) \<Rightarrow> (Some (''upsert TLS policy: '' @ err), w)
              | (None, w) \<Rightarrow> (None, w))))"

definition policy_Remove :: "'w env \<Rightarrow> TLSPolicyManager \<Rightarrow> ingress \<Rightarrow> 'w \<Rightarrow> go_error option \<times> 'w" where
  "policy_Remove e m ing w =
     (case deleteTLSPolicy e (newAdminClient (policy_adminAPI m)) (tlsPolicyID ing) w of
        (Some err, w) \<Rightarrow> (Some (''delete TLS policy: '' @ err), w)
      | (None, w) \<Rightarrow> (None, w))"

section \<open>What a synchronisation sends\<close>

lemma tlsHosts_props:
  "distinct (tlsHosts ing) \<and> set (tlsHosts ing) = {h. h \<noteq> [] \<and> (\<exists>t \<in> set (ing_tls ing). h \<in> set (tls_hosts t))}"
  by (auto simp: tlsHosts_def)

text \<open>The policy as a document, written out from the annotations and the account Secret: the EAB
  credentials are the trimmed values of its keys \<open>key_id\<close> and \<open>mac_key\<close>.\<close>

definition eab_key :: "secret \<Rightarrow> string \<Rightarrow> string" where
  "eab_key sec key = TrimSpace (mindex (secret_data sec) key)"

definition wanted_issuer :: "ingressAnnotations \<Rightarrow> secret option \<Rightarrow> json" where
  "wanted_issuer ann account =
     obj ([(''module'', JStr ''acme''), (''ca'', JStr (tlsCA ann))]
       @ (case account of
            None \<Rightarrow> []
          | Some sec \<Rightarrow>
              [(''external_account'',
                obj [(''key_id'', JStr (eab_key sec ''key_id'')), (''mac_key'', JStr (eab_key sec ''mac_key''))])]))"

definition wanted_policy :: "ingress \<Rightarrow> string list \<Rightarrow> ingressAnnotations \<Rightarrow> secret option \<Rightarrow> json" where
  "wanted_policy ing hosts ann account =
     obj ([(''@id'', JStr (''k8s-tls-policy-'' @ ing_namespace ing @ ''-'' @ ing_name ing)), (''subjects'', JStrs hosts)]
       @ (if tlsCA ann = [] then [] else [(''issuers'', JArr [wanted_issuer ann account])])
       @ (if tlsOnDemand ann then [(''on_demand'', JBool True)] else []))"

text \<open>The account Secret of an Ingress: read when both a CA and a Secret are named, and complete.\<close>

definition account_read :: "'w env \<Rightarrow> ingress \<Rightarrow> ingressAnnotations \<Rightarrow> 'w \<Rightarrow> secret option \<Rightarrow> 'w \<Rightarrow> bool" where
  "account_read e ing ann w account w1 =
     (if tlsCA ann = [] \<or> tlsCASecret ann = [] then account = None \<and> w1 = w
      else (case account of
              None \<Rightarrow> False
            | Some sec \<Rightarrow>
                get_secret e (ing_namespace ing) (tlsCASecret ann) w = (Inr sec, w1)
                \<and> eab_key sec ''key_id'' \<noteq> [] \<and> eab_key sec ''mac_key'' \<noteq> []))"

lemma policy_issuers_account:
  assumes "policy_issuers e ing ann w = (Inr iss, w1)"
  shows "\<exists>account. account_read e ing ann w account w1
      \<and> policy_json \<lparr>policy_ID = tlsPolicyID ing, Subjects = hosts, Issuers = iss, OnDemand = tlsOnDemand ann\<rparr>
          = wanted_policy ing hosts ann account"
proof (cases "tlsCA ann = [] \<or> tlsCASecret ann = []")
  case True
  with assms show ?thesis
    by (intro exI [of _ None])
      (auto simp: account_read_def policy_issuers_def wanted_policy_def wanted_issuer_def policy_json_def issuer_json_def
        tlsPolicyID_def unless_def split: if_splits)
next
  case False
  with assms obtain sec where "get_secret e (ing_namespace ing) (tlsCASecret ann) w = (Inr sec, w1)"
      "eab_key sec ''key_id'' \<noteq> []" "eab_key sec ''mac_key'' \<noteq> []"
      "iss = [\<lparr>Module = ''acme'', CA = tlsCA ann,
                ExternalAccount = Some \<lparr>KeyID = eab_key sec ''key_id'', MACKey = eab_key sec ''mac_key''\<rparr>\<rparr>]"
    by (auto simp: policy_issuers_def readEABSecret_def eab_key_def Let_def split: prod.splits sum.splits if_splits)
  with False show ?thesis
    by (intro exI [of _ "Some sec"])
      (simp add: account_read_def wanted_policy_def wanted_issuer_def policy_json_def issuer_json_def account_entry_def
        tlsPolicyID_def unless_def)
qed

lemma policy_issuers_logging:
  "policy_issuers (logging e) ing ann (w, l) = (fst (policy_issuers e ing ann w), snd (policy_issuers e ing ann w), l)"
  by (simp add: policy_issuers_def readEABSecret_def logging_def lift_log_def Let_def split: prod.split sum.split)

text \<open>The requests of a successful upsert of a policy: the query, then the one write the answer asks
  for, which Caddy has accepted.\<close>

definition policy_write :: "adminClient \<Rightarrow> string \<Rightarrow> bool \<Rightarrow> string \<Rightarrow> request" where
  "policy_write c x exs body =
     (if exs then write_request c ''PUT'' (''/id/'' @ x) (Some body)
      else write_request c ''POST'' ''/config/apps/tls/automation/policies/'' (Some body))"

lemma do_request_success:
  "do_request e c meth pth body w = (None, w') \<Longrightarrow>
   new_request e meth (base c @ pth) = None
   \<and> (\<exists>resp. http_do e (write_request c meth pth body) w = (Inr resp, w') \<and> accepted (Inr resp))"
  by (auto simp: do_request_def write_request_def accepted_def split: option.splits prod.splits sum.splits if_splits)

lemma upsertTLSPolicy_log:
  assumes "upsertTLSPolicy (logging e) c p (w, l) = (None, (w', l'))"
  shows "\<exists>resp w1 answer body.
      http_do e (get_request (base c @ ''/id/'' @ policy_ID p)) w = (Inr resp, w1)
      \<and> json_marshal e (policy_json p) = Inr body
      \<and> http_do e (policy_write c (policy_ID p) (status resp = 200) body) w1 = (Inr answer, w') \<and> accepted (Inr answer)
      \<and> l' = l @ [get_request (base c @ ''/id/'' @ policy_ID p), policy_write c (policy_ID p) (status resp = 200) body]"
proof -
  obtain resp w1 where g: "http_do e (get_request (base c @ id_path (policy_ID p))) w = (Inr resp, w1)"
      "routeExists (logging e) c (policy_ID p) (w, l) =
        (Inr (status resp = 200), (w1, l @ [get_request (base c @ id_path (policy_ID p))]))"
    using assms
    by (auto simp: upsertTLSPolicy_def routeExists_def logging_def split: option.splits prod.splits sum.splits)
  obtain body where b: "json_marshal e (policy_json p) = Inr body"
    using assms g(2) by (auto simp: upsertTLSPolicy_def split: sum.splits)
  let ?meth = "if status resp = 200 then ''PUT'' else ''POST''"
  let ?pth = "if status resp = 200 then id_path (policy_ID p) else ''/config/apps/tls/automation/policies/''"
  have w: "do_request (logging e) c ?meth ?pth (Some body) (w1, l @ [get_request (base c @ id_path (policy_ID p))]) = (None, (w', l'))"
    using assms g(2) b by (simp add: upsertTLSPolicy_def split: if_splits)
  then have "do_request e c ?meth ?pth (Some body) w1 = (None, w')"
    and l: "l' = (l @ [get_request (base c @ id_path (policy_ID p))]) @ [write_request c ?meth ?pth (Some body)]"
    using do_request_success [OF w] by (auto simp: do_request_log prod_eq_iff)
  moreover have "policy_write c (policy_ID p) (status resp = 200) body = write_request c ?meth ?pth (Some body)"
    by (simp add: policy_write_def id_path_def)
  ultimately show ?thesis
    using do_request_success g(1) b by (fastforce simp: id_path_def)
qed

text \<open>C36: What a successful \<open>Sync\<close> of an Ingress with TLS hosts sends: a GET of the Ingress's
  policy identifier and then exactly one write, a PUT to this identifier when the answer was 200
  and a POST to the list of policies otherwise, which Caddy has accepted. The body of the write is the
  policy document: the identifier, the unique non-empty hosts of \<open>spec.tls\<close>, an ACME issuer with the CA
  exactly when a CA is set, with the trimmed credentials of the Secret exactly when one is named
  (the Secret was read and is complete, so it never falls back to an issuer without them), and the
  on-demand flag. An Ingress without TLS hosts sends nothing.\<close>

theorem policy_Sync_sends:
  assumes "policy_Sync (logging e) m ing ann (w, []) = (None, (w', log))" "c = newAdminClient (policy_adminAPI m)"
    and "x = ''k8s-tls-policy-'' @ ing_namespace ing @ ''-'' @ ing_name ing"
  shows "distinct (tlsHosts ing) \<and> set (tlsHosts ing) = {h. h \<noteq> [] \<and> (\<exists>t \<in> set (ing_tls ing). h \<in> set (tls_hosts t))}
      \<and> (if tlsHosts ing = [] then log = []
         else \<exists>account w1 resp w2 answer body.
           account_read e ing ann w account w1
           \<and> http_do e (get_request (base c @ ''/id/'' @ x)) w1 = (Inr resp, w2)
           \<and> json_marshal e (wanted_policy ing (tlsHosts ing) ann account) = Inr body
           \<and> http_do e (policy_write c x (status resp = 200) body) w2 = (Inr answer, w') \<and> accepted (Inr answer)
           \<and> log = [get_request (base c @ ''/id/'' @ x), policy_write c x (status resp = 200) body])"
proof (cases "tlsHosts ing = []")
  case True
  with assms(1) show ?thesis using tlsHosts_props [of ing] by (simp add: policy_Sync_def)
next
  case False
  let ?p = "\<lambda>iss. \<lparr>policy_ID = tlsPolicyID ing, Subjects = tlsHosts ing, Issuers = iss, OnDemand = tlsOnDemand ann\<rparr>"
  obtain iss w1 where 1: "policy_issuers e ing ann w = (Inr iss, w1)"
      and 2: "upsertTLSPolicy (logging e) c (?p iss) (w1, []) = (None, (w', log))"
    using assms(1,2) False
    by (auto simp: policy_Sync_def policy_issuers_logging Let_def prod_eq_iff split: prod.splits sum.splits option.splits)
  obtain account where "account_read e ing ann w account w1" "policy_json (?p iss) = wanted_policy ing (tlsHosts ing) ann account"
    using policy_issuers_account [OF 1] by blast
  moreover have "x = tlsPolicyID ing" by (simp add: assms(3) tlsPolicyID_def)
  ultimately show ?thesis
    using upsertTLSPolicy_log [OF 2] tlsHosts_props [of ing] False by fastforce
qed

definition policy_ingress :: ingress where
  "policy_ingress =
     \<lparr>ing_namespace = ''shop'', ing_name = ''web'', ing_uid = ''u1'', annotations = [], ingressClassName = None,
      ing_tls = [\<lparr>tls_hosts = [''a.example'', [], ''a.example''], secretName = []\<rparr>], rules = []\<rparr>"

definition eab_secret :: secret where
  "eab_secret = \<lparr>secret_type = ''Opaque'', secret_data = [(''key_id'', ''kid ''), (''mac_key'', ''hmac'')]\<rparr>"

definition policy_env :: "unit env" where
  "policy_env = (offline :: unit env)\<lparr>
     http_do := (\<lambda>rq w. (Inr \<lparr>status = (if rq_method rq = ''GET'' then 404 else 200), resp_body = []\<rparr>, w)),
     json_marshal := (\<lambda>j. Inr (json_text j)),
     get_secret := (\<lambda>ns nm w. (Inr eab_secret, w))\<rparr>"

definition policy_annotations :: ingressAnnotations where
  "policy_annotations = (new_annotations policy_ingress)\<lparr>tlsCA := ''https://ca.example'', tlsCASecret := ''eab''\<rparr>"

text \<open>A new policy with EAB credentials is posted to the list of policies.\<close>

theorem policy_Sync_sends_witness:
  "snd (snd (policy_Sync (logging policy_env) (newTLSPolicyManager ''a'') policy_ingress policy_annotations ((), [])))
     = [get_request ''http://a/id/k8s-tls-policy-shop-web'',
        write_request (newAdminClient ''a'') ''POST'' ''/config/apps/tls/automation/policies/''
          (Some (json_text (obj [(''@id'', JStr ''k8s-tls-policy-shop-web''), (''subjects'', JArr [JStr ''a.example'']),
             (''issuers'', JArr [obj [(''module'', JStr ''acme''), (''ca'', JStr ''https://ca.example''),
                (''external_account'', obj [(''key_id'', JStr ''kid''), (''mac_key'', JStr ''hmac'')])]])])))]"
proof -
  let ?c = "newAdminClient ''a''" and ?m = "newTLSPolicyManager ''a''"
  have h: "tlsHosts policy_ingress = [''a.example'']" by code_simp
  have ann: "tlsCA policy_annotations = ''https://ca.example''" "tlsCASecret policy_annotations = ''eab''"
      "tlsOnDemand policy_annotations = False"
    by (simp_all add: policy_annotations_def new_annotations_def)
  obtain r l where rl: "policy_Sync (logging policy_env) ?m policy_ingress policy_annotations ((), []) = (r, ((), l))"
    by (metis (full_types) old.unit.exhaust surj_pair)
  have "fst (policy_Sync (logging policy_env) ?m policy_ingress policy_annotations ((), [])) = None" by code_simp
  with rl have l: "policy_Sync (logging policy_env) ?m policy_ingress policy_annotations ((), []) = (None, ((), l))" by simp
  have k: "eab_key eab_secret ''key_id'' = ''kid''" "eab_key eab_secret ''mac_key'' = ''hmac''" by code_simp+
  have read: "account_read policy_env policy_ingress policy_annotations () account w1 \<longleftrightarrow> account = Some eab_secret" for account w1
    using k by (auto simp: account_read_def ann policy_env_def split: option.split)
  have id: "''k8s-tls-policy-shop-web'' = ''k8s-tls-policy-'' @ ing_namespace policy_ingress @ ''-'' @ ing_name policy_ingress"
    by (simp add: policy_ingress_def)
  let ?x = "''k8s-tls-policy-shop-web''"
  have miss: "http_do policy_env (get_request u) w1 = (Inr resp, w2) \<Longrightarrow> status resp = 404" for u w1 w2 and resp
    by (auto simp: policy_env_def get_request_def)
  have json: "json_marshal policy_env j = Inr body \<longleftrightarrow> body = json_text j" for j body
    by (auto simp: policy_env_def)
  have "newAdminClient (policy_adminAPI ?m) = ?c" "base ?c = ''http://a''"
    by (simp_all add: newAdminClient_def newTLSPolicyManager_def)
  note base = this
  have "[''a.example''] \<noteq> []" by simp
  from policy_Sync_sends [OF l refl id, unfolded h base if_not_P [OF this], THEN conjunct2]
  obtain account w1 resp w2 answer body where r: "account_read policy_env policy_ingress policy_annotations () account w1"
      "http_do policy_env (get_request (''http://a'' @ ''/id/'' @ ?x)) w1 = (Inr resp, w2)"
      "json_marshal policy_env (wanted_policy policy_ingress [''a.example''] policy_annotations account) = Inr body"
      "l = [get_request (''http://a'' @ ''/id/'' @ ?x), policy_write ?c ?x (status resp = 200) body]"
    by (elim exE conjE) (rule that)
  have "account = Some eab_secret" using r(1) by (simp only: read)
  with r(3) have "body = json_text (wanted_policy policy_ingress [''a.example''] policy_annotations (Some eab_secret))"
    by (simp only: json)
  moreover have "(status resp = 200) = False" using miss [OF r(2)] by simp
  ultimately have "l = [get_request (''http://a'' @ ''/id/'' @ ?x),
          policy_write ?c ?x False (json_text (wanted_policy policy_ingress [''a.example''] policy_annotations (Some eab_secret)))]"
    using r(4) by (simp only:)
  moreover have "wanted_policy policy_ingress [''a.example''] policy_annotations (Some eab_secret) =
      obj [(''@id'', JStr ?x), (''subjects'', JArr [JStr ''a.example'']),
             (''issuers'', JArr [obj [(''module'', JStr ''acme''), (''ca'', JStr ''https://ca.example''),
                (''external_account'', obj [(''key_id'', JStr ''kid''), (''mac_key'', JStr ''hmac'')])]])]"
    unfolding wanted_policy_def wanted_issuer_def ann by (simp add: policy_ingress_def k)
  ultimately show ?thesis
    unfolding l by (simp add: policy_write_def)
qed

text \<open>Identifiers of policies collide as those of routes do.\<close>

lemma tlsPolicyID_collision:
  "tlsPolicyID (policy_ingress\<lparr>ing_namespace := ''shop-a'', ing_name := ''web''\<rparr>)
   = tlsPolicyID (policy_ingress\<lparr>ing_namespace := ''shop'', ing_name := ''a-web''\<rparr>)"
  by code_simp

end
