(* ===== verification/Access_Log.thy ===== *)
theory Access_Log
  imports Admin_Props
begin

section \<open>Access log suppression (access_log.go)\<close>

text \<open>
  The manager's state and operations. The order in which \<open>range\<close> visits the map of disabled
  Ingresses comes from the environment.
\<close>

record accessLogManager =
  al_serverName :: string
  al_httpServerName :: string
  al_adminAPI :: string
  disabled :: "(string list) gomap"
  lastSkip :: string

definition newAccessLogManager :: "string \<Rightarrow> string \<Rightarrow> string \<Rightarrow> accessLogManager" where
  "newAccessLogManager serverName httpServerName adminAPI =
     \<lparr>al_serverName = serverName, al_httpServerName = httpServerName, al_adminAPI = adminAPI,
      disabled = [], lastSkip = []\<rparr>"

text \<open>The method \<open>servers\<close>.\<close>

definition managed_servers :: "accessLogManager \<Rightarrow> string list" where
  "managed_servers m =
     [al_serverName m]
     @ (if al_httpServerName m \<noteq> [] \<and> al_httpServerName m \<noteq> al_serverName m
        then [al_httpServerName m] else [])"

text \<open>Writing the same body to a path of every server, up to the first error.\<close>

fun write_servers ::
    "(string \<Rightarrow> 'w \<Rightarrow> go_error option \<times> 'w) \<Rightarrow> (string \<Rightarrow> go_error) \<Rightarrow> string list \<Rightarrow> 'w \<Rightarrow> go_error option \<times> 'w" where
  "write_servers put what [] w = (None, w)"
| "write_servers put what (srv # srvs) w =
     (case put srv w of
        (Some err, w) \<Rightarrow> (Some (what srv @ '': '' @ err), w)
      | (None, w) \<Rightarrow> write_servers put what srvs w)"

definition access_logger_payload :: json where
  "access_logger_payload =
     obj [(''writer'', obj [(''output'', JStr ''stderr'')]),
          (''encoder'', obj [(''format'', JStr ''json'')]),
          (''include'', JStrs [''http.log.access''])]"

definition server_logs_payload :: json where
  "server_logs_payload = obj [(''default_logger_name'', JStr ''access''), (''skip_hosts'', JStrs [])]"

definition Enable :: "'w env \<Rightarrow> accessLogManager \<Rightarrow> 'w \<Rightarrow> go_error option \<times> 'w" where
  "Enable e m w =
     (let adm = newAdminClient (al_adminAPI m) in
      case json_marshal e access_logger_payload of
        Inl err \<Rightarrow> (Some (''marshal access logger: '' @ err), w)
      | Inr body \<Rightarrow>
          (case putOrPatch e adm ''/config/logging/logs/access'' (Some body) w of
             (Some err, w) \<Rightarrow> (Some (''configure access logger: '' @ err), w)
           | (None, w) \<Rightarrow>
               (case json_marshal e server_logs_payload of
                  Inl err \<Rightarrow> (Some (''marshal server logs config: '' @ err), w)
                | Inr body \<Rightarrow>
                    write_servers
                      (\<lambda>srv. putOrPatch e adm (''/config/apps/http/servers/'' @ srv @ ''/logs'') (Some body))
                      (\<lambda>srv. ''configure server logs ('' @ srv @ '')'')
                      (managed_servers m) w)))"

text \<open>The hosts of the disabled Ingresses, each once, for an order of the Ingresses.\<close>

definition skip_hosts :: "accessLogManager \<Rightarrow> string list \<Rightarrow> string list" where
  "skip_hosts m order =
     collect_unique (concat (map (\<lambda>k. case map_of (disabled m) k of None \<Rightarrow> [] | Some hs \<Rightarrow> hs) order))"

definition skip_path :: "string \<Rightarrow> string" where
  "skip_path srv = ''/config/apps/http/servers/'' @ srv @ ''/logs/skip_hosts''"

definition rebuild ::
    "'w env \<Rightarrow> accessLogManager \<Rightarrow> 'w \<Rightarrow> go_error option \<times> accessLogManager \<times> 'w" where
  "rebuild e m w =
     (let (order, w) = range_keys e (map fst (disabled m)) w in
      case json_marshal e (JStrs (skip_hosts m order)) of
        Inl err \<Rightarrow> (Some (''marshal skip_hosts: '' @ err), m, w)
      | Inr body \<Rightarrow>
          if lastSkip m = body then (None, m, w)
          else
            (case write_servers
                    (\<lambda>srv. do_request e (newAdminClient (al_adminAPI m)) ''PATCH'' (skip_path srv) (Some body))
                    (\<lambda>srv. ''update skip_hosts ('' @ srv @ '')'')
                    (managed_servers m) w of
               (Some err, w) \<Rightarrow> (Some err, m, w)
             | (None, w) \<Rightarrow> (None, m\<lparr>lastSkip := body\<rparr>, w)))"

definition Skip ::
    "'w env \<Rightarrow> string \<Rightarrow> string list \<Rightarrow> accessLogManager \<Rightarrow> 'w \<Rightarrow> go_error option \<times> accessLogManager \<times> 'w" where
  "Skip e ingKey hosts m w = rebuild e (m\<lparr>disabled := mput ingKey hosts (disabled m)\<rparr>) w"

definition Unskip ::
    "'w env \<Rightarrow> string \<Rightarrow> accessLogManager \<Rightarrow> 'w \<Rightarrow> go_error option \<times> accessLogManager \<times> 'w" where
  "Unskip e ingKey m w = rebuild e (m\<lparr>disabled := mdel ingKey (disabled m)\<rparr>) w"

section \<open>What a rebuild sends\<close>

lemma distinct_skip_hosts [simp]: "distinct (skip_hosts m order)"
  by (simp add: skip_hosts_def)

lemma set_skip_hosts:
  "set order = fst ` set (disabled m) \<Longrightarrow> keys_sorted (disabled m) \<Longrightarrow>
   set (skip_hosts m order) = (\<Union>(k, hs) \<in> set (disabled m). set hs)"
proof -
  assume o: "set order = fst ` set (disabled m)" and s: "keys_sorted (disabled m)"
  let ?hosts = "\<lambda>k. set (case map_of (disabled m) k of None \<Rightarrow> [] | Some hs \<Rightarrow> hs)"
  have "?hosts k = set hs" if "(k, hs) \<in> set (disabled m)" for k hs
    using map_of_is_SomeI [OF keys_sorted_distinct [OF s] that] by simp
  then have "(\<Union>k \<in> fst ` set (disabled m). ?hosts k) = (\<Union>(k, hs) \<in> set (disabled m). set hs)"
    by force
  then show ?thesis by (simp add: skip_hosts_def o)
qed

text \<open>The log of the writes to the servers: the same request for each server, in order, up to the
  first failure.\<close>

lemma write_servers_log:
  assumes "\<And>srv w l. \<exists>r. put' srv (w, l) = (fst (put srv w), snd (put srv w), l @ r) \<and> r = (if ok srv then [rq srv] else [])"
  shows "\<exists>n. write_servers put' what srvs (w, l) =
      (fst (write_servers put what srvs w), snd (write_servers put what srvs w), l @ map rq (filter ok (take n srvs)))
    \<and> (fst (write_servers put what srvs w) = None \<longrightarrow> n = length srvs)"
proof (induction srvs arbitrary: w l)
  case Nil
  show ?case by (intro exI [of _ 0]) simp
next
  case (Cons srv srvs)
  obtain x w1 where p: "put srv w = (x, w1)" by (cases "put srv w")
  then have p': "put' srv (w, l) = (x, w1, l @ (if ok srv then [rq srv] else []))"
    using assms [of srv w l] by auto
  show ?case
  proof (cases x)
    case (Some err)
    with p p' show ?thesis by (intro exI [of _ 1]) simp
  next
    case None
    obtain n where "write_servers put' what srvs (w1, l @ (if ok srv then [rq srv] else [])) =
        (fst (write_servers put what srvs w1), snd (write_servers put what srvs w1),
         (l @ (if ok srv then [rq srv] else [])) @ map rq (filter ok (take n srvs)))
        \<and> (fst (write_servers put what srvs w1) = None \<longrightarrow> n = length srvs)"
      using Cons.IH by blast
    with p p' None show ?thesis by (intro exI [of _ "Suc n"]) auto
  qed
qed

definition skip_request :: "accessLogManager \<Rightarrow> string \<Rightarrow> string \<Rightarrow> request" where
  "skip_request m body srv = write_request (newAdminClient (al_adminAPI m)) ''PATCH'' (skip_path srv) (Some body)"

text \<open>C37: When \<open>rebuild\<close> succeeds, the text it remembers is the JSON of a list that has each host of
  a suppressed Ingress exactly once and no other, whatever order the map is visited in; it has
  sent that text to every managed server, or nothing at all when it was the text remembered
  before.\<close>

theorem rebuild_sends:
  assumes codec: "\<And>ids. \<exists>t. json_marshal e (JStrs ids) = Inr t \<and> json_unmarshal e t = Inr (JStrs ids)"
    and urls: "\<And>meth url. new_request e meth url = None"
    and order: "\<And>ks w. set (fst (range_keys e ks w)) = set ks"
    and m: "keys_sorted (disabled m)"
    and r: "rebuild (logging e) m (w, []) = (None, m', (w', log))"
  shows "\<exists>skip. json_unmarshal e (lastSkip m') = Inr (JStrs skip)
      \<and> distinct skip \<and> set skip = (\<Union>(k, hs) \<in> set (disabled m). set hs)
      \<and> disabled m' = disabled m
      \<and> log = (if lastSkip m' = lastSkip m then [] else map (skip_request m (lastSkip m')) (managed_servers m))"
proof -
  obtain ks w1 where ks: "range_keys e (map fst (disabled m)) w = (ks, w1)"
    by (cases "range_keys e (map fst (disabled m)) w")
  have ks': "range_keys (logging e) (map fst (disabled m)) (w, []) = (ks, (w1, []))"
    using ks by (simp add: logging_def lift_log_def)
  have "set ks = fst ` set (disabled m)"
    using order [of "map fst (disabled m)" w] ks by simp
  then have set_skip: "set (skip_hosts m ks) = (\<Union>(k, hs) \<in> set (disabled m). set hs)"
    using set_skip_hosts m by blast
  obtain t where t: "json_marshal e (JStrs (skip_hosts m ks)) = Inr t" "json_unmarshal e t = Inr (JStrs (skip_hosts m ks))"
    using codec by blast
  let ?put = "\<lambda>srv. do_request e (newAdminClient (al_adminAPI m)) ''PATCH'' (skip_path srv) (Some t)"
  let ?put' = "\<lambda>srv. do_request (logging e) (newAdminClient (al_adminAPI m)) ''PATCH'' (skip_path srv) (Some t)"
  let ?what = "\<lambda>srv. ''update skip_hosts ('' @ srv @ '')''"
  have "\<exists>r. ?put' srv (w, l) = (fst (?put srv w), snd (?put srv w), l @ r) \<and> r = (if True then [skip_request m t srv] else [])" for srv w l
    using urls by (simp add: do_request_log skip_request_def)
  from write_servers_log [where put = ?put and put' = ?put' and rq = "skip_request m t" and ok = "\<lambda>_. True", OF this]
  obtain n where n: "write_servers ?put' ?what (managed_servers m) (w1, []) =
      (fst (write_servers ?put ?what (managed_servers m) w1), snd (write_servers ?put ?what (managed_servers m) w1),
       [] @ map (skip_request m t) (filter (\<lambda>_. True) (take n (managed_servers m))))"
     "fst (write_servers ?put ?what (managed_servers m) w1) = None \<longrightarrow> n = length (managed_servers m)"
    by blast
  show ?thesis
  proof (cases "lastSkip m = t")
    case True
    then have "m' = m" "log = []"
      using r ks' t by (simp_all add: rebuild_def)
    with True t set_skip show ?thesis by auto
  next
    case False
    then have "m' = m\<lparr>lastSkip := t\<rparr>" "log = map (skip_request m t) (managed_servers m)"
      using r ks' t n by (auto simp: rebuild_def split: prod.splits option.splits)
    with False t set_skip show ?thesis by auto
  qed
qed

text \<open>The same hosts in another order are sent again: the remembered text is not sorted.\<close>

lemma skip_order_matters:
  "skip_hosts (newAccessLogManager ''s'' [] ''a''\<lparr>disabled := [(''n/a'', [''a.example'']), (''n/b'', [''b.example''])]\<rparr>) [''n/a'', ''n/b'']
   \<noteq> skip_hosts (newAccessLogManager ''s'' [] ''a''\<lparr>disabled := [(''n/a'', [''a.example'']), (''n/b'', [''b.example''])]\<rparr>) [''n/b'', ''n/a'']"
  by code_simp

definition log_env :: "unit env" where
  "log_env = (offline :: unit env)\<lparr>
     http_do := (\<lambda>rq w. (Inr \<lparr>status = 200, resp_body = []\<rparr>, w)),
     json_marshal := (\<lambda>j. Inr (json_text j)),
     json_unmarshal := (\<lambda>s. case json_parse s of None \<Rightarrow> Inl ''invalid JSON'' | Some j \<Rightarrow> Inr j)\<rparr>"

definition log_manager :: accessLogManager where
  "log_manager = (newAccessLogManager ''srv0'' ''srv1'' ''a'')\<lparr>disabled := [(''shop/web'', [''a.example''])]\<rparr>"

theorem rebuild_sends_witness:
  "\<exists>m' w' log. rebuild (logging log_env) log_manager ((), []) = (None, m', (w', log))
     \<and> log = map (skip_request log_manager (json_text (JStrs [''a.example'']))) [''srv0'', ''srv1'']"
proof -
  let ?t = "json_text (JStrs [''a.example''])"
  have k: "skip_hosts log_manager [''shop/web''] = [''a.example'']" by code_simp
  have s: "managed_servers log_manager = [''srv0'', ''srv1'']" by code_simp
  have d: "disabled log_manager = [(''shop/web'', [''a.example''])]" "lastSkip log_manager = []"
    by (simp_all add: log_manager_def newAccessLogManager_def)
  have r: "\<exists>log. rebuild (logging log_env) log_manager ((), []) = (None, log_manager\<lparr>lastSkip := ?t\<rparr>, ((), log))"
    using k s d by (simp add: rebuild_def logging_def log_env_def lift_log_def offline_def do_request_def)
  then obtain log where log: "rebuild (logging log_env) log_manager ((), []) = (None, log_manager\<lparr>lastSkip := ?t\<rparr>, ((), log))" ..
  have "\<exists>skip. json_unmarshal log_env (lastSkip (log_manager\<lparr>lastSkip := ?t\<rparr>)) = Inr (JStrs skip)
      \<and> distinct skip \<and> set skip = (\<Union>(k, hs) \<in> set (disabled log_manager). set hs)
      \<and> disabled (log_manager\<lparr>lastSkip := ?t\<rparr>) = disabled log_manager
      \<and> log = (if lastSkip (log_manager\<lparr>lastSkip := ?t\<rparr>) = lastSkip log_manager then []
               else map (skip_request log_manager (lastSkip (log_manager\<lparr>lastSkip := ?t\<rparr>))) (managed_servers log_manager))"
    by (rule rebuild_sends [OF _ _ _ _ log])
      (simp_all add: log_env_def offline_def json_parse_text d keys_sorted_Cons)
  then have "log = map (skip_request log_manager ?t) [''srv0'', ''srv1'']"
    using d s by auto
  with log show ?thesis by blast
qed

end
