(* ===== verification/App.thy ===== *)
theory App
  imports Waf_Cm Routes Store Tls Tls_Policy Access_Log
begin

section \<open>The controller (app.go)\<close>

text \<open>
  The state of the module and its event handlers. A handler takes and returns the state and the
  world. Where the source logs an error and goes on, the model drops the error and goes on. Each
  handler of an Ingress runs under the mutex of its key, so it is modelled as one step.
\<close>

record App =
  IngressClass :: string
  ServerName :: string
  HTTPServerName :: string
  AdminAPI :: string
  Security :: SecurityConfig
  RedisCfg :: "RedisConfig option"
  AccessLog :: bool
  VerboseLogs :: bool
  store :: routeStore
  routeIDs :: "(string list) gomap"
  serverName :: string
  httpServerName :: string
  tlsManager :: TLSManager
  tlsPolicyMgr :: TLSPolicyManager
  accessLogMgr :: "accessLogManager option"

subsection \<open>Helpers\<close>

definition isOurs :: "App \<Rightarrow> ingress \<Rightarrow> bool" where
  "isOurs a ing =
     (ingressClassName ing = Some (IngressClass a)
      \<or> mindex (annotations ing) ''kubernetes.io/ingress.class'' = IngressClass a)"

definition ingressHosts :: "ingress \<Rightarrow> string list" where
  "ingressHosts ing = collect_unique (filter (\<lambda>h. h \<noteq> []) (map host (rules ing)))"

definition stringSet :: "string list \<Rightarrow> bool gomap" where
  "stringSet ids = gomap_of (map (\<lambda>i. (i, True)) ids)"

text \<open>Reading the cache of owned routes: a missing key is nil.\<close>

definition owned_ids :: "App \<Rightarrow> string \<Rightarrow> string list" where
  "owned_ids a key = (case map_of (routeIDs a) key of None \<Rightarrow> [] | Some ids \<Rightarrow> ids)"

text \<open>Upserting and deleting several routes; errors are logged only.\<close>

definition upsert_all :: "'w env \<Rightarrow> adminClient \<Rightarrow> string \<Rightarrow> caddyRoute list \<Rightarrow> 'w \<Rightarrow> 'w" where
  "upsert_all e adm server rs w = fold (\<lambda>r w. snd (upsertRoute e adm server r w)) rs w"

definition delete_all :: "'w env \<Rightarrow> adminClient \<Rightarrow> string list \<Rightarrow> 'w \<Rightarrow> 'w" where
  "delete_all e adm ids w = fold (\<lambda>i w. snd (deleteRoute e adm i w)) ids w"

subsection \<open>Adding and updating an Ingress\<close>

text \<open>The WAF ConfigMap's name goes into the object at hand, which is the one in the informer's cache: the
  result is that object after the call. The model passes it on to the rest of the handler, and a later
  delivery of the same version brings it again (\<open>inject_waf_cm_again\<close> in \<open>App_Props\<close>).\<close>

definition inject_waf_cm :: "'w env \<Rightarrow> ingress \<Rightarrow> 'w \<Rightarrow> ingress \<times> 'w" where
  "inject_waf_cm e ing w =
     (case ensureWAFConfigMap e ing w of
        (Inl err, w) \<Rightarrow> (ing, w)
      | (Inr cmName, w) \<Rightarrow>
          (if cmName \<noteq> []
           then ing\<lparr>annotations := mput annotationWAFRulesConfigMap cmName (annotations ing)\<rparr> else ing, w))"

definition sync_tls :: "'w env \<Rightarrow> ingress \<Rightarrow> ingressAnnotations \<Rightarrow> App \<times> 'w \<Rightarrow> App \<times> 'w" where
  "sync_tls e ing ann = (\<lambda>(a, w).
     (if ing_tls ing \<noteq> [] \<and> tlsHandler ann \<noteq> ''certmagic''
      then (let (m, w) = LoadFromIngress e ing (tlsManager a, w) in (a\<lparr>tlsManager := m\<rparr>, w))
      else (a, w)))"

definition unskip_log :: "'w env \<Rightarrow> string \<Rightarrow> App \<times> 'w \<Rightarrow> App \<times> 'w" where
  "unskip_log e key = (\<lambda>(a, w).
     (case accessLogMgr a of
        None \<Rightarrow> (a, w)
      | Some m \<Rightarrow> (let (err, m, w) = Unskip e key m w in (a\<lparr>accessLogMgr := Some m\<rparr>, w))))"

definition sync_access_log :: "'w env \<Rightarrow> ingress \<Rightarrow> ingressAnnotations \<Rightarrow> App \<times> 'w \<Rightarrow> App \<times> 'w" where
  "sync_access_log e ing ann = (\<lambda>(a, w).
     (case accessLogMgr a of
        None \<Rightarrow> (a, w)
      | Some m \<Rightarrow>
          if accessLogDisabled ann \<and> ingressHosts ing \<noteq> []
          then (let (err, m, w) = Skip e (ingress_key ing) (ingressHosts ing) m w in (a\<lparr>accessLogMgr := Some m\<rparr>, w))
          else unskip_log e (ingress_key ing) (a, w)))"

definition sync_policy :: "'w env \<Rightarrow> ingress \<Rightarrow> ingressAnnotations \<Rightarrow> App \<times> 'w \<Rightarrow> App \<times> 'w" where
  "sync_policy e ing ann = (\<lambda>(a, w).
     (if ing_tls ing \<noteq> [] \<and> tlsHandler ann = ''certmagic'' \<and> (tlsOnDemand ann \<or> tlsCA ann \<noteq> [])
      then (a, snd (policy_Sync e (tlsPolicyMgr a) ing ann w))
      else (a, w)))"

definition redirect_routes :: "App \<Rightarrow> ingress \<Rightarrow> ingressAnnotations \<Rightarrow> caddyRoute list" where
  "redirect_routes a ing ann =
     (if sslRedirect ann \<and> httpServerName a \<noteq> [] then httpRedirectRoutes ing else [])"

text \<open>The identifiers to delete, in the order in which the set of the old ones is visited.\<close>

definition stale_ids :: "'w env \<Rightarrow> string list \<Rightarrow> string list \<Rightarrow> 'w \<Rightarrow> string list \<times> 'w" where
  "stale_ids e oldIDs newIDs w =
     (let (order, w) = range_keys e (map fst (stringSet oldIDs)) w
      in (filter (\<lambda>i. map_of (stringSet newIDs) i = None) order, w))"

text \<open>HTTPS for an Ingress with \<open>spec.tls\<close>, HTTP for the others; no target when there is no HTTP
  server.\<close>

definition target_server :: "App \<Rightarrow> ingress \<Rightarrow> string option" where
  "target_server a ing =
     (if ing_tls ing = [] then (if httpServerName a = [] then None else Some (httpServerName a))
      else Some (serverName a))"

text \<open>The route part of the handler: redirects, stale routes, the new routes, the bookkeeping.\<close>

definition sync_routes ::
    "'w env \<Rightarrow> ingress \<Rightarrow> ingressAnnotations \<Rightarrow> App \<times> 'w \<Rightarrow> App \<times> 'w" where
  "sync_routes e ing ann = (\<lambda>(a, w).
     (let key = ingress_key ing;
          adm = newAdminClient (AdminAPI a);
          routes = convertIngress ing (Security a) ann;
          w = upsert_all e adm (httpServerName a) (redirect_routes a ing ann) w;
          newIDs = map route_id routes;
          (stale, w) = stale_ids e (owned_ids a key) newIDs w;
          w = delete_all e adm stale w
      in case target_server a ing of
           None \<Rightarrow> (a, w)
         | Some server \<Rightarrow>
             (let w = upsert_all e adm server routes w;
                  a = a\<lparr>routeIDs := mput key newIDs (routeIDs a)\<rparr>;
                  (err, st, w) = store_save e key newIDs (store a, w)
              in (a\<lparr>store := st\<rparr>, w))))"

definition handleAdd :: "'w env \<Rightarrow> ingress \<Rightarrow> App \<times> 'w \<Rightarrow> App \<times> 'w" where
  "handleAdd e ing = (\<lambda>(a, w).
     (if \<not> isOurs a ing then (a, w)
      else
        (let (ing, w) = inject_waf_cm e ing w;
             (ann, w) = resolveAnnotations e ing w
         in sync_routes e ing ann (sync_policy e ing ann (sync_access_log e ing ann
              (sync_tls e ing ann (a, w)))))))"

subsection \<open>Deleting an Ingress\<close>

definition remove_tls :: "'w env \<Rightarrow> ingress \<Rightarrow> App \<times> 'w \<Rightarrow> App \<times> 'w" where
  "remove_tls e ing = (\<lambda>(a, w).
     (if ing_tls ing \<noteq> []
      then (a\<lparr>tlsManager := RemoveFromIngress ing (tlsManager a)\<rparr>, snd (policy_Remove e (tlsPolicyMgr a) ing w))
      else (a, w)))"

definition handleDelete :: "'w env \<Rightarrow> ingress \<Rightarrow> App \<times> 'w \<Rightarrow> App \<times> 'w" where
  "handleDelete e ing aw =
     (let key = ingress_key ing;
          (a, w) = unskip_log e key (remove_tls e ing aw);
          ids = owned_ids a key;
          a = a\<lparr>routeIDs := mdel key (routeIDs a)\<rparr>;
          w = delete_all e (newAdminClient (AdminAPI a)) ids w;
          (err, st, w) = store_remove e key (store a, w)
      in (a\<lparr>store := st\<rparr>, w))"

text \<open>The informer's callbacks. Additions and updates share one; what is no Ingress is ignored, a
  tombstone on deletion too.\<close>

definition on_add :: "'w env \<Rightarrow> informer_object \<Rightarrow> App \<times> 'w \<Rightarrow> App \<times> 'w" where
  "on_add e ob aw = (case ob of IngressObject ing \<Rightarrow> handleAdd e ing aw | _ \<Rightarrow> aw)"

definition on_delete :: "'w env \<Rightarrow> informer_object \<Rightarrow> App \<times> 'w \<Rightarrow> App \<times> 'w" where
  "on_delete e ob aw = (case ob of IngressObject ing \<Rightarrow> handleDelete e ing aw | _ \<Rightarrow> aw)"

subsection \<open>Starting up\<close>

text \<open>Provisioning: defaults, the store, and the server names from the HTTP app. \<open>http_servers\<close> is
  the server map of the HTTP app in the order it is visited, \<open>None\<close> when the app is not
  there. The receiver's other fields have their zero values.\<close>

definition default_to :: "string \<Rightarrow> string \<Rightarrow> string" where
  "default_to d s = (if s = [] then d else s)"

definition open_store :: "'w env \<Rightarrow> App \<Rightarrow> 'w \<Rightarrow> routeStore \<times> 'w" where
  "open_store e a w =
     (case RedisCfg a of
        None \<Rightarrow> (Memory newMemoryStore, w)
      | Some cfg \<Rightarrow>
          (case newRedisStore e cfg (IngressClass a) w of
             (Inl err, w) \<Rightarrow> (Memory newMemoryStore, w)
           | (Inr rs, w) \<Rightarrow> (Redis rs, w)))"

definition discover :: "string \<Rightarrow> (string \<times> string list) list \<Rightarrow> string" where
  "discover port srvs =
     (case find (\<lambda>(name, addrs). name \<noteq> [] \<and> listens_on port addrs) srvs of
        None \<Rightarrow> [] | Some (name, addrs) \<Rightarrow> name)"

definition Provision ::
    "'w env \<Rightarrow> (string \<times> string list) list option \<Rightarrow> App \<times> 'w \<Rightarrow> App \<times> 'w" where
  "Provision e http_servers = (\<lambda>(a, w).
     (let a = a\<lparr>IngressClass := default_to ''caddy'' (IngressClass a),
                AdminAPI := default_to ''localhost:2019'' (AdminAPI a),
                Security := (Security a)\<lparr>WAFMode := default_to ''Detection'' (WAFMode (Security a))\<rparr>,
                routeIDs := [], serverName := [], httpServerName := []\<rparr>;
          (st, w) = open_store e a w;
          a = a\<lparr>store := st\<rparr>;
          a = (if ServerName a = [] \<or> HTTPServerName a = []
               then (case http_servers of
                       None \<Rightarrow> a
                     | Some srvs \<Rightarrow> a\<lparr>serverName := discover '':443'' srvs, httpServerName := discover '':80'' srvs\<rparr>)
               else a);
          a = (if ServerName a \<noteq> [] then a\<lparr>serverName := ServerName a\<rparr> else a);
          a = (if HTTPServerName a \<noteq> [] then a\<lparr>httpServerName := HTTPServerName a\<rparr> else a)
      in (a, w)))"

text \<open>The fallback of \<open>run\<close>: polling the admin API until the HTTPS server is there. \<open>Some None\<close> is
  the return on a closed stop channel; a poll that never succeeds and is never stopped has no
  value.\<close>

partial_function (option) poll_server ::
    "'w env \<Rightarrow> adminClient \<Rightarrow> string \<Rightarrow> 'w \<Rightarrow> (string option \<times> 'w) option" where
  "poll_server e adm hint w =
     (case resolveServerName e adm hint '':443'' w of
        (Inr name, w) \<Rightarrow> Some (Some name, w)
      | (Inl err, w) \<Rightarrow>
          (case backoff e 4 w of
             (Some stopped, w) \<Rightarrow> Some (None, w)
           | (None, w) \<Rightarrow> poll_server e adm hint w))"

definition resolve_http :: "'w env \<Rightarrow> App \<times> 'w \<Rightarrow> App \<times> 'w" where
  "resolve_http e = (\<lambda>(a, w).
     (if httpServerName a \<noteq> [] then (a, w)
      else (case resolveServerName e (newAdminClient (AdminAPI a)) (HTTPServerName a) '':80'' w of
              (Inl err, w) \<Rightarrow> (a, w)
            | (Inr name, w) \<Rightarrow> (a\<lparr>httpServerName := name\<rparr>, w))))"

text \<open>Restoring the owned routes from the store.\<close>

definition restore_routes :: "'w env \<Rightarrow> App \<times> 'w \<Rightarrow> App \<times> 'w" where
  "restore_routes e = (\<lambda>(a, w).
     (case store_loadAll e (store a, w) of
        (Inl err, st, w) \<Rightarrow> (a\<lparr>store := st\<rparr>, w)
      | (Inr stored, st, w) \<Rightarrow> (a\<lparr>store := st, routeIDs := mcopy stored (routeIDs a)\<rparr>, w)))"

definition configureDefaultLogger :: "'w env \<Rightarrow> App \<Rightarrow> 'w \<Rightarrow> 'w" where
  "configureDefaultLogger e a w =
     (let adm = newAdminClient (AdminAPI a);
          excludes = (if AccessLog a then [''http.log.access''] else [])
                     @ (if \<not> VerboseLogs a then [''admin.api''] else []);
          put = (\<lambda>pth j w. snd (putOrPatch e adm pth
                   (case json_marshal e j of Inl err \<Rightarrow> None | Inr body \<Rightarrow> Some body) w));
          w = (if excludes \<noteq> [] then put ''/config/logging/logs/default'' (obj [(''exclude'', JStrs excludes)]) w else w)
      in if \<not> VerboseLogs a
         then put ''/config/logging/logs/admin.api''
                (obj [(''writer'', obj [(''output'', JStr ''stderr'')]),
                      (''encoder'', obj [(''format'', JStr ''json'')]),
                      (''level'', JStr ''WARN''),
                      (''include'', JStrs [''admin.api''])]) w
         else w)"

definition start_access_log :: "'w env \<Rightarrow> App \<times> 'w \<Rightarrow> App \<times> 'w" where
  "start_access_log e = (\<lambda>(a, w).
     (if AccessLog a
      then (let m = newAccessLogManager (serverName a) (httpServerName a) (AdminAPI a)
            in (a\<lparr>accessLogMgr := Some m\<rparr>, snd (Enable e m w)))
      else (a, w)))"

text \<open>\<open>run\<close> up to the start of the informers: \<open>None\<close> when the poll does not end, \<open>Some (None, w)\<close>
  when it was stopped.\<close>

definition run_startup :: "'w env \<Rightarrow> App \<times> 'w \<Rightarrow> (App option \<times> 'w) option" where
  "run_startup e = (\<lambda>(a, w).
     (let poll = (if serverName a = []
                  then poll_server e (newAdminClient (AdminAPI a)) (ServerName a) w
                  else Some (Some (serverName a), w))
      in case poll of
           None \<Rightarrow> None
         | Some (None, w) \<Rightarrow> Some (None, w)
         | Some (Some name, w) \<Rightarrow>
             (let (a, w) = restore_routes e (resolve_http e (a\<lparr>serverName := name\<rparr>, w));
                  a = a\<lparr>tlsManager := newTLSManager (AdminAPI a),
                        tlsPolicyMgr := newTLSPolicyManager (AdminAPI a)\<rparr>;
                  (a, w) = start_access_log e (a, w);
                  w = configureDefaultLogger e a w
              in Some (Some a, w))))"

end
