(* ===== verification/App_Props.thy ===== *)
theory App_Props
  imports App
begin

section \<open>What the controller remembers\<close>

text \<open>
  The bookkeeping of the event handlers, for every behaviour of the servers: which fields a
  handler changes, that the store and the cache agree, and that other classes are ignored.
\<close>

subsection \<open>Frames\<close>

text \<open>The parts of the handlers that only touch the TLS manager, the log manager and the world.\<close>

definition book :: "App \<Rightarrow> routeStore \<times> (string list) gomap" where
  "book a = (store a, routeIDs a)"

definition settings :: "App \<Rightarrow> string \<times> string \<times> string \<times> string \<times> SecurityConfig" where
  "settings a = (IngressClass a, AdminAPI a, serverName a, httpServerName a, Security a)"

lemma book_sync [simp]:
  "book (fst (sync_tls e ing ann aw)) = book (fst aw)"
  "book (fst (unskip_log e key aw)) = book (fst aw)"
  "book (fst (sync_access_log e ing ann aw)) = book (fst aw)"
  "book (fst (sync_policy e ing ann aw)) = book (fst aw)"
  "book (fst (remove_tls e ing aw)) = book (fst aw)"
  by (cases aw; auto simp: book_def sync_tls_def unskip_log_def sync_access_log_def sync_policy_def
      remove_tls_def split: prod.split option.split)+

lemma settings_sync [simp]:
  "settings (fst (sync_tls e ing ann aw)) = settings (fst aw)"
  "settings (fst (unskip_log e key aw)) = settings (fst aw)"
  "settings (fst (sync_access_log e ing ann aw)) = settings (fst aw)"
  "settings (fst (sync_policy e ing ann aw)) = settings (fst aw)"
  "settings (fst (remove_tls e ing aw)) = settings (fst aw)"
  by (cases aw; auto simp: settings_def sync_tls_def unskip_log_def sync_access_log_def sync_policy_def
      remove_tls_def split: prod.split option.split)+

text \<open>What a handler records: on a sync with a target server the identifiers of the new routes.\<close>

definition new_ids :: "'w env \<Rightarrow> App \<Rightarrow> ingress \<Rightarrow> 'w \<Rightarrow> string list" where
  "new_ids e a ing w =
     (let (ing, w) = inject_waf_cm e ing w; (ann, w) = resolveAnnotations e ing w
      in map route_id (convertIngress ing (Security a) ann))"

lemma sync_routes_book:
  "book (fst (sync_routes e ing ann (a, w))) =
     (case target_server a ing of
        None \<Rightarrow> book a
      | Some server \<Rightarrow>
          let ids = map route_id (convertIngress ing (Security a) ann)
          in (case store a of Memory m \<Rightarrow> Memory (mput (ingress_key ing) ids m) | Redis r \<Rightarrow> Redis r,
              mput (ingress_key ing) ids (routeIDs a)))"
  by (auto simp: sync_routes_def book_def Let_def store_save_def memory_save_def case_prod_beta
      split: option.split routeStore.split)

lemma target_server_settings: "settings a = settings a' \<Longrightarrow> target_server a ing = target_server a' ing"
  by (simp add: target_server_def settings_def)

lemma inject_waf_cm_frame:
  "inject_waf_cm e ing w = (ing', w') \<Longrightarrow> ing_namespace ing' = ing_namespace ing \<and> ing_name ing' = ing_name ing
     \<and> ing_tls ing' = ing_tls ing \<and> rules ing' = rules ing"
  by (auto simp: inject_waf_cm_def split: prod.splits sum.splits if_splits)

text \<open>The object with the ConfigMap is the informer's object after the call, and so the one that later
  deliveries of the same version bring: they find the annotation and change neither it nor the
  cluster.\<close>

lemma inject_waf_cm_again:
  assumes "inject_waf_cm e ing w = (ing', w')" "ing' \<noteq> ing"
    and "keys_sorted (annotations ing)" "trimmed (wafConfigMapName (ing_name ing))"
  shows "inject_waf_cm e ing' w2 = (ing', w2)"
proof -
  obtain cm where cm: "ensureWAFConfigMap e ing w = (Inr cm, w')" "cm \<noteq> []"
      and i: "ing' = ing\<lparr>annotations := mput annotationWAFRulesConfigMap cm (annotations ing)\<rparr>"
    using assms(1,2) by (auto simp: inject_waf_cm_def split: prod.splits sum.splits if_splits)
  have t: "TrimSpace cm = cm" and on: "ToLower (TrimSpace (mindex (annotations ing) annotationWAF)) \<in> {''on'', ''detection''}"
    using cm assms(4) by (auto simp: ensureWAFConfigMap_def Let_def trimmed_TrimSpace split: prod.splits option.splits if_splits)
  have k: "annotationWAF \<noteq> annotationWAFRulesConfigMap" by code_simp
  have "mindex (annotations ing') annotationWAF = mindex (annotations ing) annotationWAF"
      "mindex (annotations ing') annotationWAFRulesConfigMap = cm"
    using k by (simp_all add: i mindex_def map_of_mput)
  then have "ensureWAFConfigMap e ing' w2 = (Inr cm, w2)"
    using t on cm(2) by (auto simp: ensureWAFConfigMap_def Let_def)
  moreover have "mput annotationWAFRulesConfigMap cm (annotations ing') = annotations ing'"
    using assms(3) by (simp add: i gm.put_put)
  ultimately show ?thesis using cm(2) by (simp add: inject_waf_cm_def i)
qed

lemma handleAdd_book:
  "book (fst (handleAdd e ing (a, w))) =
     (if isOurs a ing \<and> target_server a ing \<noteq> None
      then (case store a of Memory m \<Rightarrow> Memory (mput (ingress_key ing) (new_ids e a ing w) m) | Redis r \<Rightarrow> Redis r,
            mput (ingress_key ing) (new_ids e a ing w) (routeIDs a))
      else book a)"
proof (cases "isOurs a ing")
  case True
  obtain ing' w1 where i: "inject_waf_cm e ing w = (ing', w1)" by (cases "inject_waf_cm e ing w")
  obtain ann w2 where r: "resolveAnnotations e ing' w1 = (ann, w2)" by (cases "resolveAnnotations e ing' w1")
  obtain a2 w3 where aw: "sync_policy e ing' ann (sync_access_log e ing' ann (sync_tls e ing' ann (a, w2))) = (a2, w3)"
    by (meson surj_pair)
  have "book (fst (a2, w3)) = book a" "settings (fst (a2, w3)) = settings a"
    unfolding aw [symmetric] by simp_all
  then have b: "book a2 = book a" "settings a2 = settings a" by simp_all
  have "handleAdd e ing (a, w) = sync_routes e ing' ann (a2, w3)"
    using True i r aw by (simp add: handleAdd_def)
  moreover have "target_server a2 ing' = target_server a ing"
    using target_server_settings [OF b(2)] inject_waf_cm_frame [OF i] by (simp add: target_server_def)
  ultimately show ?thesis
    using True b inject_waf_cm_frame [OF i] i r sync_routes_book [of e ing' ann a2 w3]
    by (auto simp: new_ids_def book_def settings_def Let_def split: option.splits routeStore.split)
qed (simp add: handleAdd_def)

lemma handleDelete_book:
  "book (fst (handleDelete e ing (a, w))) =
     (case store a of Memory m \<Rightarrow> Memory (mdel (ingress_key ing) m) | Redis r \<Rightarrow> Redis r,
      mdel (ingress_key ing) (routeIDs a))"
proof -
  obtain a2 w2 where aw: "unskip_log e (ingress_key ing) (remove_tls e ing (a, w)) = (a2, w2)"
    by (meson surj_pair)
  have "book (fst (a2, w2)) = book a" unfolding aw [symmetric] by simp
  then show ?thesis
    by (auto simp: handleDelete_def aw book_def Let_def store_remove_def memory_remove_def case_prod_beta
        split: routeStore.split)
qed

subsection \<open>The store mirrors the cache\<close>

datatype app_event = AddIngress ingress | DeleteIngress ingress

definition app_step :: "'w env \<Rightarrow> app_event \<Rightarrow> App \<times> 'w \<Rightarrow> App \<times> 'w" where
  "app_step e ev aw = (case ev of AddIngress ing \<Rightarrow> handleAdd e ing aw | DeleteIngress ing \<Rightarrow> handleDelete e ing aw)"

lemma Provision_book:
  "RedisCfg a = None \<Longrightarrow> book (fst (Provision e hs (a, w))) = (Memory [], [])"
  by (simp add: Provision_def open_store_def newMemoryStore_def book_def Let_def case_prod_beta split: option.split)

text \<open>C22: Without Redis, and whatever Caddy and the API server answer, after provisioning and any
  sequence of Ingress events the store holds exactly the cache of owned routes.\<close>

theorem store_mirrors_cache:
  assumes "RedisCfg a = None"
  shows "store (fst (fold (app_step e) evs (Provision e hs (a, w))))
       = Memory (routeIDs (fst (fold (app_step e) evs (Provision e hs (a, w)))))"
proof -
  have "store (fst aw) = Memory (routeIDs (fst aw)) \<Longrightarrow>
      store (fst (fold (app_step e) evs aw)) = Memory (routeIDs (fst (fold (app_step e) evs aw)))" for aw
  proof (induction evs arbitrary: aw)
    case (Cons ev evs)
    obtain a' w' where aw: "aw = (a', w')" by (cases aw)
    have "store (fst (app_step e ev aw)) = Memory (routeIDs (fst (app_step e ev aw)))"
    proof (cases ev)
      case (AddIngress ing)
      then show ?thesis
        using handleAdd_book [of e ing a' w'] Cons.prems aw
        by (auto simp: app_step_def book_def split: if_splits)
    next
      case (DeleteIngress ing)
      then show ?thesis
        using handleDelete_book [of e ing a' w'] Cons.prems aw by (simp add: app_step_def book_def)
    qed
    from Cons.IH [OF this] show ?case by simp
  qed simp
  moreover have "store (fst (Provision e hs (a, w))) = Memory (routeIDs (fst (Provision e hs (a, w))))"
    using Provision_book [OF assms, of e hs w] by (simp add: book_def)
  ultimately show ?thesis by blast
qed

definition demo_app :: App where
  "demo_app = \<lparr>IngressClass = [], ServerName = ''srv0'', HTTPServerName = ''srv1'', AdminAPI = ''a'',
     Security = \<lparr>WAF = False, WAFMode = [], SecurityHeaders = False, InjectRealIP = False\<rparr>, RedisCfg = None,
     AccessLog = False, VerboseLogs = False, store = Memory [], routeIDs = [], serverName = [], httpServerName = [],
     tlsManager = newTLSManager [], tlsPolicyMgr = newTLSPolicyManager [], accessLogMgr = None\<rparr>"

theorem store_mirrors_cache_witness:
  "store (fst (fold (app_step (offline :: unit env)) [AddIngress (tls_ingress [''crt''])] (Provision offline None (demo_app, ()))))
   = Memory (routeIDs (fst (fold (app_step (offline :: unit env)) [AddIngress (tls_ingress [''crt''])] (Provision offline None (demo_app, ())))))"
  by (rule store_mirrors_cache) (simp add: demo_app_def)

text \<open>What the controller owns for an Ingress is what its last effective sync converted: an event
  of another class changes no ownership, a sync records the identifiers of the routes converted
  from the Ingress as annotated, a deletion forgets the key, and no event changes the ownership
  of another Ingress.\<close>

lemma ownership_step:
  "map_of (routeIDs (fst (app_step e ev (a, w)))) key =
     (case ev of
        AddIngress ing \<Rightarrow>
          if key = ingress_key ing \<and> isOurs a ing \<and> target_server a ing \<noteq> None
          then Some (new_ids e a ing w) else map_of (routeIDs a) key
      | DeleteIngress ing \<Rightarrow> if key = ingress_key ing then None else map_of (routeIDs a) key)"
proof (cases ev)
  case (AddIngress ing)
  then show ?thesis
    using handleAdd_book [of e ing a w] by (auto simp: app_step_def book_def map_of_mput split: if_splits)
next
  case (DeleteIngress ing)
  then show ?thesis
    using handleDelete_book [of e ing a w] by (auto simp: app_step_def book_def map_of_mdel)
qed

fun event_ingress :: "app_event \<Rightarrow> ingress" where
  "event_ingress (AddIngress ing) = ing"
| "event_ingress (DeleteIngress ing) = ing"

text \<open>An entry restored from the store whose Ingress is gone stays: only an event of the same Ingress ever
  changes what is recorded for it, and the start-up adds none.\<close>

lemma orphans_stay:
  assumes "list_all (\<lambda>ev. ingress_key (event_ingress ev) \<noteq> key) evs"
  shows "map_of (routeIDs (fst (fold (app_step e) evs (a, w)))) key = map_of (routeIDs a) key"
  using assms
proof (induction evs arbitrary: a w)
  case (Cons ev evs)
  obtain a' w' where s: "app_step e ev (a, w) = (a', w')" by (meson surj_pair)
  have "map_of (routeIDs a') key = map_of (routeIDs a) key"
    using ownership_step [of e ev a w key] Cons.prems unfolding s by (cases ev) auto
  with Cons s show ?case by simp
qed simp

text \<open>A deletion that client-go only noticed when it listed again arrives as a tombstone and is dropped:
  the routes stay.\<close>

lemma tombstone_ignored: "on_delete e OtherObject aw = aw"
  by (simp add: on_delete_def)

end
