(* ===== verification/Admin_Spec.thy ===== *)
theory Admin_Spec
  imports Admin_Props
begin

section \<open>The admin API as a contract\<close>

text \<open>
  Caddy's configuration seen as the list of its HTTP routes, each with the server it belongs to.
  \<open>admin_api\<close> states the documented behaviour of the three endpoints the client uses, as long
  as the identifiers in the configuration are unique, which Caddy checks on every load. Caddy
  provisions a posted route before it accepts it: \<open>valid\<close> are the routes its modules accept, and any other
  is answered with an error and leaves the configuration as it was. Under the contract \<open>upsertRoute\<close> and
  \<open>deleteRoute\<close> refine list functions.
\<close>

type_synonym config = "(string \<times> json) list"

text \<open>Every \<open>@id\<close> in a JSON value: Caddy indexes nested objects too.\<close>

fun json_ids :: "json \<Rightarrow> string list" where
  "json_ids (JArr js) = concat (map json_ids js)"
| "json_ids (JObj m) =
     (case map_of m ''@id'' of Some (JStr s) \<Rightarrow> [s] | _ \<Rightarrow> [])
     @ concat (map (\<lambda>(k, j). json_ids j) m)"
| "json_ids _ = []"

definition top_id :: "json \<Rightarrow> string option" where
  "top_id j = (case jget ''@id'' j of Some (JStr s) \<Rightarrow> Some s | _ \<Rightarrow> None)"

definition config_ids :: "config \<Rightarrow> string list" where
  "config_ids v = concat (map (json_ids \<circ> snd) v)"

definition other_routes :: "string \<Rightarrow> config \<Rightarrow> config" where
  "other_routes x v = filter (\<lambda>(s, j). top_id j \<noteq> Some x) v"

text \<open>What \<open>upsertRoute\<close> does: nothing when some server already has this very route, and otherwise it
  removes the route of that identifier and adds the new one at the end of the server, if Caddy accepts
  it. A rejected route leaves the identifier without a route: the old one is deleted first.\<close>

type_synonym validity = "string \<Rightarrow> json \<Rightarrow> bool"

definition upsert_config :: "validity \<Rightarrow> string \<Rightarrow> string \<Rightarrow> json \<Rightarrow> config \<Rightarrow> config" where
  "upsert_config valid s x j v =
     (if list_ex (\<lambda>(s', j'). j' = j) v then v else other_routes x v @ (if valid s j then [(s, j)] else []))"

text \<open>The route is there afterwards.\<close>

definition landed :: "validity \<Rightarrow> string \<Rightarrow> json \<Rightarrow> config \<Rightarrow> bool" where
  "landed valid s j v = (list_ex (\<lambda>(s', j'). j' = j) v \<or> valid s j)"

lemma top_id_in_ids: "top_id j = Some x \<Longrightarrow> x \<in> set (json_ids j)"
  by (cases j) (auto simp: top_id_def split: option.splits json.splits)

lemma config_ids_simps [simp]:
  "config_ids [] = []"
  "config_ids ((s, j) # v) = json_ids j @ config_ids v"
  "config_ids (v @ v') = config_ids v @ config_ids v'"
  by (simp_all add: config_ids_def)

lemma other_routes_absent: "x \<notin> set (config_ids v) \<Longrightarrow> other_routes x v = v"
  by (induction v) (auto simp: other_routes_def dest: top_id_in_ids)

lemma other_routes_append [simp]: "other_routes x (v @ v') = other_routes x v @ other_routes x v'"
  by (simp add: other_routes_def)

lemma other_routes_Cons: "other_routes x ((s, j) # v) = (if top_id j = Some x then other_routes x v else (s, j) # other_routes x v)"
  by (simp add: other_routes_def)

lemma list_ex_content: "list_ex (\<lambda>(s', j'). j' = j) v \<longleftrightarrow> j \<in> snd ` set v"
  by (force simp: list_ex_iff)

lemma upsert_config_absent:
  "j \<notin> snd ` set v \<Longrightarrow> upsert_config valid s x j v = other_routes x v @ (if valid s j then [(s, j)] else [])"
  by (simp add: upsert_config_def list_ex_content)

lemma other_routes_idem [simp]: "other_routes x (other_routes x v) = other_routes x v"
  by (simp add: other_routes_def)

lemma upsert_config_present: "j \<in> snd ` set v \<Longrightarrow> upsert_config valid s x j v = v"
  by (simp add: upsert_config_def list_ex_content)

text \<open>With unique identifiers at most one route has a given one.\<close>

lemma split_config:
  assumes "distinct (config_ids v)" "(s, j) \<in> set v" "top_id j = Some x"
  obtains pre post where "v = pre @ (s, j) # post" "other_routes x v = pre @ post"
proof -
  obtain pre post where v: "v = pre @ (s, j) # post"
    using assms(2) by (meson split_list)
  have "x \<notin> set (config_ids pre)" "x \<notin> set (config_ids post)"
    using assms(1) top_id_in_ids [OF assms(3)] v by auto
  then have "other_routes x v = pre @ post"
    using v assms(3) by (simp add: other_routes_absent other_routes_Cons)
  with v that show thesis by blast
qed

text \<open>Identifiers and server names that need no escaping in a URL.\<close>

definition url_char :: "char \<Rightarrow> bool" where
  "url_char ch = (let n = of_char ch :: int in
     48 \<le> n \<and> n \<le> 57 \<or> 65 \<le> n \<and> n \<le> 90 \<or> 97 \<le> n \<and> n \<le> 122 \<or> ch \<in> {CHR ''-'', CHR ''_'', CHR ''.''})"

definition url_safe :: "string \<Rightarrow> bool" where
  "url_safe s = (s \<noteq> [] \<and> list_all url_char s)"

text \<open>Values that survive \<open>encoding/json\<close> unchanged, also through an \<open>interface{}\<close>: strings are valid
  UTF-8, and numbers exact as 64-bit floating point.\<close>

definition tail_byte :: "int \<Rightarrow> bool" where
  "tail_byte n = (128 \<le> n \<and> n < 192)"

fun utf8_codes :: "int list \<Rightarrow> bool" where
  "utf8_codes [] = True"
| "utf8_codes (a # r) =
     (if a < 128 then utf8_codes r
      else
        (case r of
           [] \<Rightarrow> False
         | b # r \<Rightarrow>
             if a < 224 then 194 \<le> a \<and> tail_byte b \<and> utf8_codes r
             else
               (case r of
                  [] \<Rightarrow> False
                | c # r \<Rightarrow>
                    if a < 240
                    then tail_byte b \<and> tail_byte c \<and> (a = 224 \<longrightarrow> 160 \<le> b) \<and> (a = 237 \<longrightarrow> b < 160) \<and> utf8_codes r
                    else
                      (case r of
                         [] \<Rightarrow> False
                       | d # r \<Rightarrow>
                           a < 245 \<and> tail_byte b \<and> tail_byte c \<and> tail_byte d \<and> (a = 240 \<longrightarrow> 144 \<le> b)
                           \<and> (a = 244 \<longrightarrow> b < 144) \<and> utf8_codes r))))"

definition utf8 :: "string \<Rightarrow> bool" where
  "utf8 s = utf8_codes (map of_char s)"

fun exact :: "json \<Rightarrow> bool" where
  "exact (JStr s) = utf8 s"
| "exact (JNum n) = (\<bar>n\<bar> \<le> 2 ^ 53)"
| "exact (JArr js) = list_all exact js"
| "exact (JObj m) = (keys_sorted m \<and> list_all (\<lambda>(k, j). utf8 k \<and> exact j) m)"
| "exact _ = True"

text \<open>\<open>e\<close> is the environment, \<open>c\<close> the client, \<open>view\<close> the configuration a world holds, and \<open>ok\<close> an
  invariant of the worlds the API keeps. A decoded value is encoded again to a text that decodes to it
  (\<open>recode\<close>); a value the program builds is decoded to itself when it is \<open>exact\<close>.\<close>

locale admin_api =
  fixes e :: "'w env" and c :: adminClient
    and view :: "'w \<Rightarrow> config" and ok :: "'w \<Rightarrow> bool" and valid :: validity
  assumes codec: "exact j \<Longrightarrow> \<exists>t. json_marshal e j = Inr t \<and> json_unmarshal e t = Inr j"
    and recode: "json_unmarshal e b = Inr j \<Longrightarrow> \<exists>t. json_marshal e j = Inr t \<and> json_unmarshal e t = Inr j"
    and urls: "url_safe x \<Longrightarrow> new_request e m (base c @ id_path x) = None"
    and post_url: "valid s j \<Longrightarrow> new_request e ''POST'' (base c @ routes_path s) = None"
    and unique: "ok w \<Longrightarrow> distinct (config_ids (view w))"
    and sleep: "ok w \<Longrightarrow> ok (snd (backoff e k w)) \<and> view (snd (backoff e k w)) = view w"
    and get_found: "ok w \<Longrightarrow> url_safe x \<Longrightarrow> (s, j) \<in> set (view w) \<Longrightarrow> top_id j = Some x \<Longrightarrow>
      \<exists>b w'. http_do e (get_request (base c @ id_path x)) w = (Inr \<lparr>status = 200, resp_body = b\<rparr>, w')
           \<and> json_unmarshal e b = Inr j \<and> ok w' \<and> view w' = view w"
    and get_absent: "ok w \<Longrightarrow> url_safe x \<Longrightarrow> x \<notin> set (config_ids (view w)) \<Longrightarrow>
      \<exists>b w'. http_do e (get_request (base c @ id_path x)) w = (Inr \<lparr>status = 404, resp_body = b\<rparr>, w')
           \<and> ok w' \<and> view w' = view w"
    and delete_found: "ok w \<Longrightarrow> url_safe x \<Longrightarrow> (s, j) \<in> set (view w) \<Longrightarrow> top_id j = Some x \<Longrightarrow>
      \<exists>b w'. http_do e (write_request c ''DELETE'' (id_path x) None) w = (Inr \<lparr>status = 200, resp_body = b\<rparr>, w')
           \<and> ok w' \<and> view w' = other_routes x (view w)"
    and post_valid: "ok w \<Longrightarrow> valid s j \<Longrightarrow> distinct (config_ids (view w) @ json_ids j) \<Longrightarrow> json_unmarshal e t = Inr j \<Longrightarrow>
      \<exists>b w'. http_do e (write_request c ''POST'' (routes_path s) (Some t)) w = (Inr \<lparr>status = 200, resp_body = b\<rparr>, w')
           \<and> ok w' \<and> view w' = view w @ [(s, j)]"
    and post_invalid: "ok w \<Longrightarrow> \<not> valid s j \<Longrightarrow> json_unmarshal e t = Inr j \<Longrightarrow>
      \<exists>x w'. http_do e (write_request c ''POST'' (routes_path s) (Some t)) w = (x, w')
           \<and> \<not> accepted x \<and> ok w' \<and> view w' = view w"
begin

text \<open>Normalised texts are equal exactly when the values are.\<close>

lemma same_json_iff:
  assumes "json_unmarshal e a = Inr j" "json_unmarshal e b = Inr j'"
  shows "same_json e a b \<longleftrightarrow> j = j'"
proof -
  obtain t where t: "json_marshal e j = Inr t" "json_unmarshal e t = Inr j"
    using recode [OF assms(1)] by blast
  obtain t' where t': "json_marshal e j' = Inr t'" "json_unmarshal e t' = Inr j'"
    using recode [OF assms(2)] by blast
  have "same_json e a b \<longleftrightarrow> t = t'"
    using assms t t' by (simp add: same_json_def normaliseJSON_def)
  then show ?thesis using t t' by auto
qed

lemma getRoute_found:
  assumes "ok w" "url_safe x" "(s, j) \<in> set (view w)" "top_id j = Some x"
  shows "\<exists>b w'. getRoute e c x w = (Inr (Some b), w') \<and> json_unmarshal e b = Inr j \<and> ok w' \<and> view w' = view w"
  using get_found [OF assms] urls [OF assms(2)] by (fastforce simp: getRoute_def)

lemma getRoute_absent:
  assumes "ok w" "url_safe x" "x \<notin> set (config_ids (view w))"
  shows "\<exists>w'. getRoute e c x w = (Inr None, w') \<and> ok w' \<and> view w' = view w"
  using get_absent [OF assms] urls [OF assms(2)] by (fastforce simp: getRoute_def)

lemma do_delete:
  assumes "ok w" "url_safe x" "(s, j) \<in> set (view w)" "top_id j = Some x"
  shows "\<exists>w'. do_request e c ''DELETE'' (id_path x) None w = (None, w') \<and> ok w' \<and> view w' = other_routes x (view w)"
  using delete_found [OF assms] urls [OF assms(2)] by (fastforce simp: do_request_def write_request_def)

lemma do_post:
  assumes "ok w" "distinct (config_ids (view w) @ json_ids j)" "json_unmarshal e t = Inr j"
  shows "\<exists>err w'. post_route e c s t w = (err, w') \<and> ok w' \<and> (err = None \<longleftrightarrow> valid s j)
      \<and> view w' = view w @ (if valid s j then [(s, j)] else [])"
proof (cases "valid s j")
  case True
  then show ?thesis
    using post_valid [OF assms(1) True assms(2,3)] post_url [OF True]
    by (fastforce simp: post_route_def do_request_def write_request_def)
next
  case False
  obtain x w' where x: "http_do e (write_request c ''POST'' (routes_path s) (Some t)) w = (x, w')"
      "\<not> accepted x" "ok w'" "view w' = view w"
    using post_invalid [OF assms(1) False assms(3)] by blast
  show ?thesis
  proof (cases "new_request e ''POST'' (base c @ routes_path s)")
    case None
    with x False show ?thesis
      by (auto simp: post_route_def do_request_def write_request_def accepted_def split: sum.splits)
  next
    case (Some err)
    with assms(1) False show ?thesis by (simp add: post_route_def do_request_def)
  qed
qed

text \<open>One attempt settles the configuration, and its error says whether the route is there.\<close>

lemma upsert_attempt_spec:
  assumes w: "ok w" and x: "url_safe x" "top_id j = Some x"
    and fresh: "distinct (config_ids (other_routes x (view w)) @ json_ids j)"
    and t: "json_unmarshal e t = Inr j"
  shows "\<exists>err w'. upsert_attempt e c s x t w = (err, w') \<and> ok w' \<and> view w' = upsert_config valid s x j (view w)
      \<and> (err = None \<longleftrightarrow> landed valid s j (view w))"
proof (cases "\<exists>s' j'. (s', j') \<in> set (view w) \<and> top_id j' = Some x")
  case True
  then obtain s' j' where j': "(s', j') \<in> set (view w)" "top_id j' = Some x" by blast
  obtain b w1 where g: "getRoute e c x w = (Inr (Some b), w1)" "json_unmarshal e b = Inr j'" "ok w1" "view w1 = view w"
    using getRoute_found [OF w x(1) j'] by blast
  have same: "same_json e b t \<longleftrightarrow> j' = j"
    using same_json_iff [OF g(2) t] .
  show ?thesis
  proof (cases "j' = j")
    case True
    then have "j \<in> snd ` set (view w)" using j'(1) by force
    with True g same show ?thesis
      by (simp add: upsert_attempt_def upsert_config_present landed_def list_ex_content)
  next
    case False
    obtain pre post where v: "view w = pre @ (s', j') # post" "other_routes x (view w) = pre @ post"
      by (rule split_config [OF unique [OF w] j'])
    have n: "j \<notin> snd ` set (view w)"
      using v False fresh x(2) top_id_in_ids [OF x(2)] by (fastforce simp: config_ids_def)
    obtain w2 where d: "do_request e c ''DELETE'' (id_path x) None w1 = (None, w2)" "ok w2" "view w2 = other_routes x (view w)"
      using do_delete [OF g(3) x(1), of s' j'] j' g(4) by auto
    obtain err w3 where "post_route e c s t w2 = (err, w3)" "ok w3" "err = None \<longleftrightarrow> valid s j"
        "view w3 = view w2 @ (if valid s j then [(s, j)] else [])"
      using do_post [where s = s, OF d(2) _ t] fresh d(3) by auto
    with False n g same d show ?thesis
      by (simp add: upsert_attempt_def upsert_config_absent landed_def list_ex_content)
  qed
next
  case False
  then have o: "other_routes x (view w) = view w"
    by (auto simp: other_routes_def filter_id_conv)
  then have nx: "x \<notin> set (config_ids (view w))"
    using fresh top_id_in_ids [OF x(2)] by auto
  obtain w1 where g: "getRoute e c x w = (Inr None, w1)" "ok w1" "view w1 = view w"
    using getRoute_absent [OF w x(1) nx] by blast
  have n: "j \<notin> snd ` set (view w)" using False x(2) by auto
  obtain err w2 where "post_route e c s t w1 = (err, w2)" "ok w2" "err = None \<longleftrightarrow> valid s j"
      "view w2 = view w1 @ (if valid s j then [(s, j)] else [])"
    using do_post [where s = s, OF g(2) _ t] fresh g(3) o by auto
  with n o g show ?thesis by (simp add: upsert_attempt_def upsert_config_absent landed_def list_ex_content)
qed

text \<open>So the attempts after a failed one change nothing.\<close>

lemma upsert_config_again:
  assumes "\<not> landed valid s j v" "top_id j = Some x"
  shows "\<not> landed valid s j (upsert_config valid s x j v)"
    "upsert_config valid s x j (upsert_config valid s x j v) = upsert_config valid s x j v"
proof -
  have v: "upsert_config valid s x j v = other_routes x v"
    using assms(1) by (simp add: landed_def upsert_config_def)
  have "j \<notin> snd ` set (other_routes x v)" using assms(2) by (auto simp: other_routes_def)
  then show "\<not> landed valid s j (upsert_config valid s x j v)"
      "upsert_config valid s x j (upsert_config valid s x j v) = upsert_config valid s x j v"
    using assms(1) unfolding v by (simp_all add: landed_def list_ex_content upsert_config_absent)
qed

lemma upsert_loop_spec:
  assumes "ok w" "url_safe x" "top_id j = Some x" "distinct (config_ids (other_routes x (view w)) @ json_ids j)"
    and "json_unmarshal e t = Inr j"
    and "0 < i \<longrightarrow> \<not> landed valid s j (view w) \<and> upsert_config valid s x j (view w) = view w" "3 \<le> i \<longrightarrow> err0 \<noteq> None"
  shows "\<exists>err w'. upsert_loop e c s x t i err0 w = (err, w') \<and> ok w' \<and> view w' = upsert_config valid s x j (view w)
      \<and> (err = None \<longleftrightarrow> landed valid s j (view w))"
  using assms
proof (induction "3 - i" arbitrary: i err0 w rule: less_induct)
  case less
  show ?case
  proof (cases "i < 3")
    case True
    obtain b w1 where b: "(if 0 < i then backoff e i w else (None, w)) = (b, w1)" by (meson surj_pair)
    have w1: "ok w1" "view w1 = view w"
      using b sleep [OF less.prems(1), of i] less.prems(1) by (auto split: if_splits)
    show ?thesis
    proof (cases b)
      case None
      obtain err w2 where a: "upsert_attempt e c s x t w1 = (err, w2)" "ok w2"
          "view w2 = upsert_config valid s x j (view w)" "err = None \<longleftrightarrow> landed valid s j (view w)"
        using upsert_attempt_spec [OF w1(1) less.prems(2,3) _ less.prems(5), of s] less.prems(4) w1(2) by auto
      show ?thesis
      proof (cases err)
        case None
        with a b \<open>b = None\<close> True show ?thesis by (simp add: upsert_loop.simps [of _ _ _ _ _ i])
      next
        case (Some er)
        then have nl: "\<not> landed valid s j (view w)" using a(4) by simp
        note again = upsert_config_again [OF nl less.prems(3)]
        have fresh2: "distinct (config_ids (other_routes x (view w2)) @ json_ids j)"
          using less.prems(4) nl a(3) by (simp add: landed_def upsert_config_def)
        have "3 - Suc i < 3 - i" using True by simp
        from less.hyps [OF this a(2) less.prems(2,3) fresh2 less.prems(5), of "Some er"] again a(3)
        obtain err' w' where "upsert_loop e c s x t (Suc i) (Some er) w2 = (err', w')" "ok w'"
            "view w' = upsert_config valid s x j (view w)" "err' \<noteq> None"
          by auto
        with a b Some \<open>b = None\<close> True nl show ?thesis by (simp add: upsert_loop.simps [of _ _ _ _ _ i])
      qed
    next
      case (Some er)
      then have "0 < i" using b by (auto split: if_splits)
      with less.prems(6) b w1 Some True show ?thesis by (simp add: upsert_loop.simps [of _ _ _ _ _ i])
    qed
  next
    case False
    with less.prems show ?thesis by (simp add: upsert_loop.simps [of _ _ _ _ _ i])
  qed
qed

lemma upsertRoute_spec:
  assumes "ok w" "url_safe (route_id r)" "exact (route_json r)"
    and "distinct (config_ids (other_routes (route_id r) (view w)) @ json_ids (route_json r))"
  shows "\<exists>err w'. upsertRoute e c s r w = (err, w') \<and> ok w'
           \<and> view w' = upsert_config valid s (route_id r) (route_json r) (view w)
           \<and> (err = None \<longleftrightarrow> landed valid s (route_json r) (view w))"
proof -
  have "top_id (route_json r) = Some (route_id r)"
    using assms(2) by (simp add: top_id_def route_json_def unless_def url_safe_def)
  moreover obtain t where t: "json_marshal e (route_json r) = Inr t" "json_unmarshal e t = Inr (route_json r)"
    using codec [OF assms(3)] by blast
  ultimately obtain err w' where "upsert_loop e c s (route_id r) t 0 None w = (err, w')" "ok w'"
      "view w' = upsert_config valid s (route_id r) (route_json r) (view w)"
      "err = None \<longleftrightarrow> landed valid s (route_json r) (view w)"
    using upsert_loop_spec [OF assms(1,2) _ assms(4), of t 0 s None] by auto
  with t show ?thesis by (simp add: upsertRoute_def)
qed

lemma deleteRoute_spec:
  assumes "ok w" "url_safe x" "x \<notin> set (config_ids (other_routes x (view w)))"
  shows "\<exists>w'. deleteRoute e c x w = (None, w') \<and> ok w' \<and> view w' = other_routes x (view w)"
proof (cases "\<exists>s j. (s, j) \<in> set (view w) \<and> top_id j = Some x")
  case True
  then obtain s j where j: "(s, j) \<in> set (view w)" "top_id j = Some x" by blast
  obtain b w1 where g: "getRoute e c x w = (Inr (Some b), w1)" "ok w1" "view w1 = view w"
    using getRoute_found [OF assms(1,2) j] by blast
  obtain w2 where "do_request e c ''DELETE'' (id_path x) None w1 = (None, w2)" "ok w2" "view w2 = other_routes x (view w)"
    using do_delete [OF g(2) assms(2), of s j] j g(3) by auto
  with g show ?thesis by (simp add: deleteRoute_def)
next
  case False
  then have o: "other_routes x (view w) = view w"
    by (auto simp: other_routes_def filter_id_conv)
  obtain w1 where "getRoute e c x w = (Inr None, w1)" "ok w1" "view w1 = view w"
    using getRoute_absent [OF assms(1,2)] assms(3) o by auto
  with o show ?thesis by (simp add: deleteRoute_def)
qed

end

end
