(* ===== verification/Admin_Ref.thy ===== *)
theory Admin_Ref
  imports Admin_Spec Route_Types
begin

section \<open>A reference server, and the client's properties\<close>

text \<open>
  A server that keeps the routes as a list and answers the client's requests as Caddy documents
  them, with the JSON codec of \<open>Json_Text\<close>; it accepts the routes that are well typed in the sense of
  \<open>Route_Types\<close>. It interprets the contract \<open>admin_api\<close>, so the
  properties that assume the contract have instances.
\<close>

definition ok_config :: "config \<Rightarrow> bool" where
  "ok_config v = distinct (config_ids v)"

definition ref_valid :: validity where
  "ref_valid s j = conforms (\<lambda>h. False) TRoute j"

definition answer :: "int \<Rightarrow> go_error + response" where
  "answer code = Inr \<lparr>status = code, resp_body = []\<rparr>"

definition servers_prefix :: string where
  "servers_prefix = ''/config/apps/http/servers/''"

definition server_of_path :: "string \<Rightarrow> string" where
  "server_of_path p = take (length p - length servers_prefix - length ''/routes/'') (drop (length servers_prefix) p)"

definition ref_post :: "string \<Rightarrow> string option \<Rightarrow> config \<Rightarrow> (go_error + response) \<times> config" where
  "ref_post p body v =
     (case body of
        None \<Rightarrow> (answer 400, v)
      | Some t \<Rightarrow>
          (case json_parse t of
             None \<Rightarrow> (answer 400, v)
           | Some j \<Rightarrow>
               if ref_valid (server_of_path p) j \<and> distinct (config_ids v @ json_ids j)
               then (answer 200, v @ [(server_of_path p, j)])
               else (answer 400, v)))"

definition ref_http :: "string \<Rightarrow> request \<Rightarrow> config \<Rightarrow> (go_error + response) \<times> config" where
  "ref_http b rq v =
     (let p = drop (length b) (rq_url rq);
          x = drop (length ''/id/'') p
      in if prefix ''/id/'' p then
           (case find (\<lambda>(s, j). top_id j = Some x) v of
              None \<Rightarrow> (answer 404, v)
            | Some (s, j) \<Rightarrow>
                if rq_method rq = ''GET'' then (Inr \<lparr>status = 200, resp_body = json_text j\<rparr>, v)
                else if rq_method rq = ''DELETE'' then (answer 200, other_routes x v)
                else (answer 405, v))
         else if rq_method rq = ''POST'' \<and> prefix servers_prefix p \<and> suffix ''/routes/'' p then ref_post p (rq_body rq) v
         else (answer 404, v))"

definition ref_env :: "string \<Rightarrow> config env" where
  "ref_env b = (offline :: config env)\<lparr>http_do := ref_http b,
     json_marshal := (\<lambda>j. Inr (json_text j)),
     json_unmarshal := (\<lambda>s. case json_parse s of None \<Rightarrow> Inl ''invalid JSON'' | Some j \<Rightarrow> Inr j)\<rparr>"

lemma ref_env_simps [simp]:
  "new_request (ref_env b) m u = None"
  "http_do (ref_env b) = ref_http b"
  "json_marshal (ref_env b) j = Inr (json_text j)"
  "json_unmarshal (ref_env b) (json_text j) = Inr j"
  "backoff (ref_env b) n w = (None, w)"
  by (simp_all add: ref_env_def offline_def json_parse_text)

lemma json_unmarshal_ref: "json_unmarshal (ref_env b) t = Inr j \<Longrightarrow> json_parse t = Some j"
  by (simp add: ref_env_def split: option.splits)

lemma server_of_routes_path: "server_of_path (routes_path s) = s"
  by (simp add: server_of_path_def routes_path_def servers_prefix_def)

lemma find_top_id:
  "find (\<lambda>(s, j). top_id j = Some x) v = Some (s, j) \<Longrightarrow> (s, j) \<in> set v \<and> top_id j = Some x"
  by (auto simp: find_Some_iff in_set_conv_nth)

lemma find_top_id_absent: "x \<notin> set (config_ids v) \<Longrightarrow> find (\<lambda>(s, j). top_id j = Some x) v = None"
  using top_id_in_ids by (fastforce simp: find_None_iff config_ids_def)

lemma find_top_id_unique:
  assumes "distinct (config_ids v)" "(s, j) \<in> set v" "top_id j = Some x"
  shows "find (\<lambda>(s, j). top_id j = Some x) v = Some (s, j)"
proof -
  obtain pre post where v: "v = pre @ (s, j) # post"
    using assms(2) by (meson split_list)
  have "x \<notin> set (config_ids pre)"
    using assms(1) top_id_in_ids [OF assms(3)] v by auto
  then have "find (\<lambda>(s, j). top_id j = Some x) (pre @ w) = find (\<lambda>(s, j). top_id j = Some x) w" for w
    by (induction pre) (auto dest: top_id_in_ids)
  with v assms(3) show ?thesis by simp
qed

lemma config_ids_other_routes: "set (config_ids (other_routes x v)) \<subseteq> set (config_ids v)"
  by (auto simp: config_ids_def other_routes_def)

lemma distinct_other_routes: "distinct (config_ids v) \<Longrightarrow> distinct (config_ids (other_routes x v))"
proof (induction v)
  case Nil
  show ?case by (simp add: other_routes_def)
next
  case (Cons sj v)
  then show ?case
    using config_ids_other_routes [of x v] by (cases sj) (auto simp: other_routes_Cons)
qed

lemma ok_other_routes: "ok_config v \<Longrightarrow> ok_config (other_routes x v)"
  by (simp add: ok_config_def distinct_other_routes)

lemma ref_get:
  "ref_http b (get_request (b @ id_path x)) v =
     (case find (\<lambda>(s, j). top_id j = Some x) v of
        None \<Rightarrow> (answer 404, v)
      | Some (s, j) \<Rightarrow> (Inr \<lparr>status = 200, resp_body = json_text j\<rparr>, v))"
  by (simp add: ref_http_def get_request_def id_path_def split: option.split)

lemma ref_delete:
  "ref_http (base c) (write_request c ''DELETE'' (id_path x) None) v =
     (case find (\<lambda>(s, j). top_id j = Some x) v of
        None \<Rightarrow> (answer 404, v)
      | Some (s, j) \<Rightarrow> (answer 200, other_routes x v))"
  by (simp add: ref_http_def write_request_def id_path_def split: option.split)

lemma ref_post_routes:
  "ref_http (base c) (write_request c ''POST'' (routes_path s) body) v = ref_post (routes_path s) body v"
proof -
  have "\<not> prefix ''/id/'' (routes_path s)" and "prefix servers_prefix (routes_path s)"
    by (simp_all add: routes_path_def servers_prefix_def)
  moreover have "suffix ''/routes/'' (routes_path s)"
    by (simp add: routes_path_def suffix_to_prefix)
  ultimately show ?thesis by (simp add: ref_http_def write_request_def Let_def)
qed

interpretation ref_api: admin_api "ref_env (base c)" c "\<lambda>v. v" ok_config ref_valid for c
proof unfold_locales
  fix w x s j
  assume w: "ok_config w" and j: "(s, j) \<in> set w" "top_id j = Some x"
  then have "find (\<lambda>(s, j). top_id j = Some x) w = Some (s, j)"
    by (intro find_top_id_unique) (auto simp: ok_config_def)
  with w show "\<exists>b w'. http_do (ref_env (base c)) (get_request (base c @ id_path x)) w = (Inr \<lparr>status = 200, resp_body = b\<rparr>, w')
           \<and> json_unmarshal (ref_env (base c)) b = Inr j \<and> ok_config w' \<and> w' = w"
    and "\<exists>b w'. http_do (ref_env (base c)) (write_request c ''DELETE'' (id_path x) None) w = (Inr \<lparr>status = 200, resp_body = b\<rparr>, w')
           \<and> ok_config w' \<and> w' = other_routes x w"
    by (simp_all add: ref_get ref_delete answer_def ok_other_routes)
next
  fix w s j t
  assume "ok_config w" "ref_valid s j" "distinct (config_ids w @ json_ids j)" "json_unmarshal (ref_env (base c)) t = Inr j"
  then show "\<exists>b w'. http_do (ref_env (base c)) (write_request c ''POST'' (routes_path s) (Some t)) w
      = (Inr \<lparr>status = 200, resp_body = b\<rparr>, w') \<and> ok_config w' \<and> w' = w @ [(s, j)]"
    by (auto simp: ref_post_routes ref_post_def server_of_routes_path answer_def ok_config_def
        dest!: json_unmarshal_ref)
next
  fix w s j t
  assume "ok_config w" "\<not> ref_valid s j" "json_unmarshal (ref_env (base c)) t = Inr j"
  then show "\<exists>x w'. http_do (ref_env (base c)) (write_request c ''POST'' (routes_path s) (Some t)) w = (x, w')
      \<and> \<not> accepted x \<and> ok_config w' \<and> w' = w"
    by (auto simp: ref_post_routes ref_post_def server_of_routes_path answer_def accepted_def dest!: json_unmarshal_ref)
qed (auto simp: ok_config_def ref_get answer_def find_top_id_absent)

subsection \<open>Upserting and deleting a route\<close>

text \<open>C9: Against an admin API that behaves as documented, \<open>upsertRoute\<close> leaves exactly the specified
  configuration: nothing changes when a server already has this very route, and otherwise the route
  of that identifier is removed and the new one added on the given server if Caddy accepts it; every
  other route stays as it was. It returns an error exactly when the route is not there afterwards, and
  then its identifier has no route at all: the retries do not bring the old one back.\<close>

theorem upsertRoute_refines:
  assumes "admin_api e c view ok valid" "ok w"
    and "url_safe (route_id r)" "exact (route_json r)"
    and "distinct (config_ids (other_routes (route_id r) (view w)) @ json_ids (route_json r))"
  shows "\<exists>err w'. upsertRoute e c s r w = (err, w') \<and> ok w'
      \<and> view w' = upsert_config valid s (route_id r) (route_json r) (view w)
      \<and> (err = None \<longleftrightarrow> route_json r \<in> snd ` set (view w) \<or> valid s (route_json r))"
  using admin_api.upsertRoute_spec [OF assms] unfolding landed_def list_ex_content .

definition demo_route :: caddyRoute where
  "demo_route = \<lparr>route_id = ''r1'', route_match = [], route_handle = [static_status 403], terminal = True\<rparr>"

lemma demo_base: "base (newAdminClient ''a'') = ''http://a''"
  by (simp add: newAdminClient_def)

lemma demo_api: "admin_api (ref_env ''http://a'') (newAdminClient ''a'') (\<lambda>v. v) ok_config ref_valid"
  using ref_api.admin_api_axioms [of "newAdminClient ''a''"] by (simp add: demo_base)

lemma demo_route_id: "route_id demo_route = ''r1''"
  by (simp add: demo_route_def)

lemma demo_route_ok:
  "url_safe (route_id demo_route)" "exact (route_json demo_route)"
  "json_ids (route_json demo_route) = [''r1'']" "ref_valid s (route_json demo_route)"
  by (code_simp, code_simp, code_simp, code_simp)

text \<open>A route with a handler that is no object, as an auth-policy ConfigMap can supply it.\<close>

definition bad_route :: caddyRoute where
  "bad_route = demo_route\<lparr>route_handle := [JStr ''deny'']\<rparr>"

lemma bad_route_ok:
  "route_id bad_route = ''r1''" "url_safe (route_id bad_route)" "exact (route_json bad_route)"
  "json_ids (route_json bad_route) = [''r1'']" "\<not> ref_valid s (route_json bad_route)"
  by (code_simp, code_simp, code_simp, code_simp, code_simp)

text \<open>The good route replaces the old one; the bad one fails and takes the old one with it.\<close>

theorem upsertRoute_refines_witness:
  "upsertRoute (ref_env ''http://a'') (newAdminClient ''a'') ''srv0'' demo_route
     [(''srv1'', obj [(''@id'', JStr ''r1'')])] = (None, [(''srv0'', route_json demo_route)])
   \<and> (\<exists>err. upsertRoute (ref_env ''http://a'') (newAdminClient ''a'') ''srv0'' bad_route
        [(''srv1'', obj [(''@id'', JStr ''r1'')])] = (Some err, []))"
proof -
  let ?v = "[(''srv1'', obj [(''@id'', JStr ''r1'')])]"
  have ok: "ok_config ?v" by code_simp
  have o: "other_routes ''r1'' ?v = []" by code_simp
  have u: "upsert_config ref_valid ''srv0'' ''r1'' (route_json demo_route) ?v = [(''srv0'', route_json demo_route)]"
    "upsert_config ref_valid ''srv0'' ''r1'' (route_json bad_route) ?v = []"
    by code_simp+
  have n: "route_json bad_route \<notin> snd ` set ?v" "\<not> ref_valid ''srv0'' (route_json bad_route)"
    by code_simp+
  have d: "distinct (config_ids (other_routes (route_id demo_route) ?v) @ json_ids (route_json demo_route))"
    "distinct (config_ids (other_routes (route_id bad_route) ?v) @ json_ids (route_json bad_route))"
    unfolding demo_route_id bad_route_ok(1) o demo_route_ok(3) bad_route_ok(4) by simp_all
  obtain x where "upsertRoute (ref_env ''http://a'') (newAdminClient ''a'') ''srv0'' demo_route ?v =
      (x, upsert_config ref_valid ''srv0'' (route_id demo_route) (route_json demo_route) ?v)" "x = None"
    using upsertRoute_refines [where s = "''srv0''", OF demo_api, OF ok demo_route_ok(1,2) d(1)] demo_route_ok(4) by blast
  moreover obtain y where "upsertRoute (ref_env ''http://a'') (newAdminClient ''a'') ''srv0'' bad_route ?v =
      (y, upsert_config ref_valid ''srv0'' (route_id bad_route) (route_json bad_route) ?v)" "y \<noteq> None"
    using upsertRoute_refines [where s = "''srv0''", OF demo_api, OF ok bad_route_ok(2,3) d(2)] n by blast
  ultimately show ?thesis unfolding demo_route_id bad_route_ok(1) u by auto
qed

text \<open>C10: A second \<open>upsertRoute\<close> of a route that Caddy has accepted is a no-op, and its only request is the
  GET: no mutation, so no reload. It stays a no-op for another target server, so a route is not moved
  between the HTTP and the HTTPS server as long as its content stays the same.\<close>

theorem upsertRoute_idempotent:
  assumes api: "admin_api e c view ok valid" "ok w"
    and r: "url_safe (route_id r)" "exact (route_json r)"
    and "distinct (config_ids (other_routes (route_id r) (view w)) @ json_ids (route_json r))"
    and w': "upsertRoute e c s r w = (None, w')"
  shows "\<exists>w''. upsertRoute (logging e) c s' r (w', []) = (None, w'', [get_request (base c @ id_path (route_id r))])
      \<and> view w'' = view w'"
proof -
  have "ok w'" and v: "view w' = upsert_config valid s (route_id r) (route_json r) (view w)"
      and l: "landed valid s (route_json r) (view w)"
    using admin_api.upsertRoute_spec [where s = s, OF api r assms(5)] w' by auto
  have t: "top_id (route_json r) = Some (route_id r)"
    using r(1) by (simp add: top_id_def route_json_def unless_def url_safe_def)
  have "\<exists>s0. (s0, route_json r) \<in> set (view w')"
    using v l by (auto simp: upsert_config_def landed_def list_ex_iff)
  then obtain s0 where s0: "(s0, route_json r) \<in> set (view w')" ..
  obtain b w'' where g: "getRoute e c (route_id r) w' = (Inr (Some b), w'')" "json_unmarshal e b = Inr (route_json r)"
      "view w'' = view w'"
    using admin_api.getRoute_found [OF api(1) \<open>ok w'\<close> r(1) s0 t] by blast
  obtain body where body: "json_marshal e (route_json r) = Inr body" "json_unmarshal e body = Inr (route_json r)"
    using admin_api.codec [OF api(1) r(2)] by blast
  have same: "same_json e b body"
    using admin_api.same_json_iff [OF api(1) g(2) body(2)] by simp
  have "new_request e ''GET'' (base c @ id_path (route_id r)) = None"
    using admin_api.urls [OF api(1) r(1)] .
  then have "getRoute (logging e) c (route_id r) (w', []) = (Inr (Some b), w'', [get_request (base c @ id_path (route_id r))])"
    using g(1) by (simp add: getRoute_log)
  then have "upsertRoute (logging e) c s' r (w', []) = (None, w'', [get_request (base c @ id_path (route_id r))])"
    using body(1) same by (simp add: upsertRoute_def upsert_loop.simps [of _ _ _ _ _ 0] upsert_attempt_def)
  with g(3) show ?thesis by blast
qed

theorem upsertRoute_idempotent_witness:
  "upsertRoute (ref_env ''http://a'') (newAdminClient ''a'') ''srv0'' demo_route [] = (None, [(''srv0'', route_json demo_route)])
   \<and> snd (snd (upsertRoute (logging (ref_env ''http://a'')) (newAdminClient ''a'') ''srv9'' demo_route
        ([(''srv0'', route_json demo_route)], []))) = [get_request ''http://a/id/r1'']"
proof -
  have ok: "ok_config []" by code_simp
  have d: "distinct (config_ids (other_routes (route_id demo_route) []) @ json_ids (route_json demo_route))"
    using demo_route_ok(3) by (simp add: other_routes_def)
  have u: "upsertRoute (ref_env ''http://a'') (newAdminClient ''a'') ''srv0'' demo_route [] = (None, [(''srv0'', route_json demo_route)])"
    using admin_api.upsertRoute_spec [where s = "''srv0''", OF demo_api, OF ok demo_route_ok(1,2) d] demo_route_ok(4)
    by (simp add: upsert_config_def landed_def other_routes_def)
  from upsertRoute_idempotent [where s' = "''srv9''", OF demo_api, OF ok demo_route_ok(1,2) d u] u
  show ?thesis by (auto simp: id_path_def demo_base demo_route_id)
qed

text \<open>C11: \<open>deleteRoute\<close> succeeds, also when there is no such route, and afterwards no server has a
  route with the identifier while every other route stays.\<close>

theorem deleteRoute_refines:
  assumes "admin_api e c view ok valid" "ok w" "url_safe x"
    and "x \<notin> set (config_ids (other_routes x (view w)))"
  shows "\<exists>w'. deleteRoute e c x w = (None, w') \<and> ok w' \<and> view w' = other_routes x (view w)
      \<and> x \<notin> set (config_ids (view w'))"
  using admin_api.deleteRoute_spec [OF assms] assms(4) by auto

theorem deleteRoute_refines_witness:
  "deleteRoute (ref_env ''http://a'') (newAdminClient ''a'') ''r1'' [(''srv0'', route_json demo_route)] = (None, [])"
proof -
  let ?v = "[(''srv0'', route_json demo_route)]"
  have ok: "ok_config ?v" using demo_route_ok by (simp add: ok_config_def)
  have o: "other_routes ''r1'' ?v = []" by code_simp
  have x: "url_safe ''r1''" by code_simp
  from deleteRoute_refines [OF demo_api, OF ok x] o show ?thesis by auto
qed

end
