(* ===== verification/App_Spec.thy ===== *)
theory App_Spec
  imports App_Props Admin_Ref
begin

section \<open>What the event handlers do to Caddy's configuration\<close>

text \<open>
  The controller against a Caddy that behaves as documented: the contract of the admin API
  extended by the requests that do not concern the routes, and by an API server and a store that
  are separate from Caddy.
\<close>

text \<open>The paths the controller writes to beside the routes: the certificates, the policies, the
  access log, the hosts a server does not log, and identifiers that no route uses.\<close>

definition quiet_path :: "config \<Rightarrow> string \<Rightarrow> bool" where
  "quiet_path V p =
     (p \<in> {''/config/apps/tls/certificates'', ''/config/apps/tls/automation/policies/'', ''/config/logging/logs/access''}
      \<or> (\<exists>srv. url_safe srv \<and> p = skip_path srv)
      \<or> (\<exists>x. url_safe x \<and> x \<notin> set (config_ids V) \<and> p = id_path x))"

text \<open>The policy's identifier needs no escaping and is not that of a route.\<close>

definition free_policy :: "config \<Rightarrow> ingress \<Rightarrow> bool" where
  "free_policy V ing = (url_safe (tlsPolicyID ing) \<and> tlsPolicyID ing \<notin> set (config_ids V))"

text \<open>All parts of the controller talk to the same admin API, and the servers whose logs are managed
  have plain names.\<close>

definition log_wired :: "adminClient \<Rightarrow> accessLogManager \<Rightarrow> bool" where
  "log_wired c m = (newAdminClient (al_adminAPI m) = c \<and> list_all url_safe (managed_servers m))"

lemma log_wired_update [simp]:
  "log_wired c (m\<lparr>disabled := d\<rparr>) = log_wired c m"
  "log_wired c (m\<lparr>lastSkip := t\<rparr>) = log_wired c m"
  by (simp_all add: log_wired_def managed_servers_def)

definition wired :: "adminClient \<Rightarrow> App \<Rightarrow> bool" where
  "wired c a =
     (newAdminClient (AdminAPI a) = c \<and> newAdminClient (tls_adminAPI (tlsManager a)) = c
      \<and> newAdminClient (policy_adminAPI (tlsPolicyMgr a)) = c
      \<and> (case accessLogMgr a of None \<Rightarrow> True | Some m \<Rightarrow> log_wired c m))"

subsection \<open>The configuration a handler is to leave\<close>

definition upsert_routes :: "validity \<Rightarrow> string \<Rightarrow> caddyRoute list \<Rightarrow> config \<Rightarrow> config" where
  "upsert_routes valid s rs v = fold (\<lambda>r. upsert_config valid s (route_id r) (route_json r)) rs v"

definition without_ids :: "string list \<Rightarrow> config \<Rightarrow> config" where
  "without_ids xs v = filter (\<lambda>(s, j). list_all (\<lambda>x. top_id j \<noteq> Some x) xs) v"

text \<open>After a sync: the redirects on the HTTP server, no stale route, the new routes, as far as Caddy
  accepts them.\<close>

definition dropped_ids :: "string list \<Rightarrow> caddyRoute list \<Rightarrow> string list" where
  "dropped_ids owned routes = filter (\<lambda>x. x \<notin> set (map route_id routes)) owned"

definition synced_config ::
    "validity \<Rightarrow> string \<Rightarrow> string \<Rightarrow> string list \<Rightarrow> caddyRoute list \<Rightarrow> caddyRoute list \<Rightarrow> config \<Rightarrow> config" where
  "synced_config valid server http_server owned redirects routes v =
     upsert_routes valid server routes (without_ids (dropped_ids owned routes) (upsert_routes valid http_server redirects v))"

text \<open>No identifier of the new routes is used elsewhere in the configuration, except by the route it
  replaces, and the identifiers to delete are not nested in another route.\<close>

definition tidy :: "string list \<Rightarrow> json \<Rightarrow> bool" where
  "tidy xs j = list_all (\<lambda>x. x \<in> set (json_ids j) \<longrightarrow> top_id j = Some x) xs"

definition separate :: "caddyRoute list \<Rightarrow> json \<Rightarrow> bool" where
  "separate rs j =
     list_all (\<lambda>r. top_id j = Some (route_id r) \<or> list_all (\<lambda>x. x \<notin> set (json_ids (route_json r))) (json_ids j)) rs"

definition plain_routes :: "caddyRoute list \<Rightarrow> bool" where
  "plain_routes rs =
     (list_all (\<lambda>r. url_safe (route_id r) \<and> exact (route_json r)) rs
      \<and> distinct (concat (map (json_ids \<circ> route_json) rs)))"

definition deployable :: "string list \<Rightarrow> caddyRoute list \<Rightarrow> config \<Rightarrow> bool" where
  "deployable owned rs v =
     (plain_routes rs \<and> list_all url_safe owned
      \<and> list_all (\<lambda>(s, j). separate rs j \<and> tidy owned j) v \<and> list_all (tidy owned \<circ> route_json) rs)"

text \<open>What the handler works with: the object with the WAF ConfigMap, and its annotations.\<close>

definition prepared :: "'w env \<Rightarrow> ingress \<Rightarrow> 'w \<Rightarrow> ingress \<times> ingressAnnotations \<times> 'w" where
  "prepared e ing w = (let (ing, w) = inject_waf_cm e ing w; (ann, w) = resolveAnnotations e ing w in (ing, ann, w))"

lemma upsert_routes_simps [simp]:
  "upsert_routes valid s [] v = v"
  "upsert_routes valid s (r # rs) v = upsert_routes valid s rs (upsert_config valid s (route_id r) (route_json r) v)"
  by (simp_all add: upsert_routes_def)

lemma without_ids_simps [simp]:
  "without_ids [] v = v"
  "without_ids (x # xs) v = without_ids xs (other_routes x v)"
  by (auto simp: without_ids_def other_routes_def filter_id_conv intro!: filter_cong)

lemma without_ids_cong: "set xs = set ys \<Longrightarrow> without_ids xs v = without_ids ys v"
  by (simp add: without_ids_def list_all_iff)

lemma separate_sub: "separate rs j \<Longrightarrow> set rs' \<subseteq> set rs \<Longrightarrow> separate rs' j"
  unfolding separate_def list_all_iff by blast

lemma separate_config_sub: "list_all (\<lambda>(s, j). separate rs j) V \<Longrightarrow> set rs' \<subseteq> set rs \<Longrightarrow> list_all (\<lambda>(s, j). separate rs' j) V"
  using separate_sub by (fastforce simp: list_all_iff)

lemma set_upsert_config: "set (upsert_config valid s x j v) \<subseteq> insert (s, j) (set v)"
  by (auto simp: upsert_config_def other_routes_def split: if_splits)

lemma set_upsert_routes: "set (upsert_routes valid s rs v) \<subseteq> set v \<union> (\<lambda>r. (s, route_json r)) ` set rs"
proof (induction rs arbitrary: v)
  case (Cons r rs)
  from Cons.IH [of "upsert_config valid s (route_id r) (route_json r) v"] set_upsert_config [of valid s "route_id r" "route_json r" v]
  show ?case by auto
qed simp

lemma top_id_route: "url_safe (route_id r) \<Longrightarrow> top_id (route_json r) = Some (route_id r)"
  by (simp add: top_id_def route_json_def unless_def url_safe_def)

text \<open>A route is settled when it is there, or when Caddy rejects it and its identifier has no route.\<close>

definition settled :: "validity \<Rightarrow> string \<Rightarrow> caddyRoute \<Rightarrow> config \<Rightarrow> bool" where
  "settled valid s r v =
     (route_json r \<in> snd ` set v
      \<or> \<not> valid s (route_json r) \<and> list_all (\<lambda>(s', j). top_id j \<noteq> Some (route_id r)) v)"

lemma settled_upsert: "settled valid s r (upsert_config valid s (route_id r) (route_json r) v)"
  by (force simp: settled_def upsert_config_def list_ex_content list_all_iff other_routes_def)

lemma settled_stays:
  assumes "settled valid s r v" "url_safe (route_id r)" "url_safe (route_id r')" "route_id r' \<noteq> route_id r"
  shows "settled valid s r (upsert_config valid' s' (route_id r') (route_json r') v)"
proof (cases "route_json r \<in> snd ` set v")
  case True
  have "top_id (route_json r) = Some (route_id r)" using assms(2) by (rule top_id_route)
  with True have "route_json r \<in> snd ` set (upsert_config valid' s' (route_id r') (route_json r') v)"
    using assms(4) by (force simp: upsert_config_def other_routes_def)
  then show ?thesis by (simp add: settled_def)
next
  case False
  have "top_id (route_json r') = Some (route_id r')" using assms(3) by (rule top_id_route)
  with False show ?thesis
    using assms(1,4) set_upsert_config [of valid' s' "route_id r'" "route_json r'" v]
    unfolding settled_def list_all_iff by fastforce
qed

lemma settled_fold:
  assumes "settled valid s r v" "url_safe (route_id r)" "list_all (\<lambda>r. url_safe (route_id r)) rs" "route_id r \<notin> set (map route_id rs)"
  shows "settled valid s r (upsert_routes valid' s' rs v)"
  using assms
proof (induction rs arbitrary: v)
  case (Cons r' rs)
  then have "settled valid s r (upsert_config valid' s' (route_id r') (route_json r') v)"
    by (intro settled_stays) auto
  with Cons show ?case by simp
qed simp

lemma upsert_routes_keeps:
  assumes "(s0, j) \<in> set v" "top_id j = Some x" "x \<notin> set (map route_id rs)"
  shows "(s0, j) \<in> set (upsert_routes valid s rs v)"
  using assms
proof (induction rs arbitrary: v)
  case (Cons r rs)
  then have "(s0, j) \<in> set (upsert_config valid s (route_id r) (route_json r) v)"
    by (auto simp: upsert_config_def other_routes_def)
  with Cons show ?case by simp
qed simp

lemma upsert_routes_settled:
  assumes "list_all (\<lambda>r. url_safe (route_id r)) rs" "distinct (map route_id rs)" "r \<in> set rs"
  shows "settled valid s r (upsert_routes valid s rs v)"
  using assms
proof (induction rs arbitrary: v)
  case (Cons r' rs)
  show ?case
  proof (cases "r = r'")
    case True
    then show ?thesis
      using Cons.prems settled_upsert [of valid s r v] settled_fold [of valid s r _ rs valid s] by simp
  qed (use Cons in auto)
qed simp

lemma settled_without:
  assumes "settled valid s r v" "top_id (route_json r) = Some (route_id r)" "route_id r \<notin> set xs"
  shows "settled valid s r (without_ids xs v)"
proof (cases "route_json r \<in> snd ` set v")
  case True
  then obtain s0 where "(s0, route_json r) \<in> set v" by auto
  then have "(s0, route_json r) \<in> set (without_ids xs v)"
    using assms(2,3) by (auto simp: without_ids_def list_all_iff)
  then show ?thesis unfolding settled_def by force
next
  case False
  with assms(1) show ?thesis by (auto simp: settled_def without_ids_def list_all_iff)
qed

lemma upsert_settled:
  assumes "settled valid s r v" "top_id (route_json r) = Some (route_id r)"
  shows "upsert_config valid s (route_id r) (route_json r) v = v"
  using assms by (auto simp: settled_def upsert_config_def list_ex_content other_routes_def list_all_iff filter_id_conv)

lemma upsert_routes_present:
  "(\<And>r. r \<in> set rs \<Longrightarrow> settled valid s r v \<and> top_id (route_json r) = Some (route_id r)) \<Longrightarrow> upsert_routes valid s rs v = v"
proof (induction rs)
  case (Cons r rs)
  then show ?case by (simp add: upsert_settled)
qed simp

lemma upsert_routes_filter:
  assumes "\<And>s j r. r \<in> set rs \<Longrightarrow> top_id j = Some (route_id r) \<Longrightarrow> \<not> P (s, j)"
    and "list_all (\<lambda>r. url_safe (route_id r)) rs"
  shows "filter P (upsert_routes valid s rs v) = filter P v"
  using assms
proof (induction rs arbitrary: v)
  case (Cons r rs)
  have P: "top_id j = Some (route_id r) \<Longrightarrow> \<not> P (s, j)" for s j
    using Cons.prems(1) by auto
  then have "filter P (other_routes (route_id r) v) = filter P v"
    by (auto simp: other_routes_def intro!: filter_cong)
  moreover have "\<not> P (s, route_json r)"
    using P Cons.prems(2) top_id_route [of r] by simp
  ultimately have "filter P (upsert_config valid s (route_id r) (route_json r) v) = filter P v"
    by (auto simp: upsert_config_def)
  moreover have "filter P (upsert_routes valid s rs (upsert_config valid s (route_id r) (route_json r) v)) =
      filter P (upsert_config valid s (route_id r) (route_json r) v)"
    by (rule Cons.IH) (use Cons.prems in auto)
  ultimately show ?case by simp
qed simp

lemma plain_routes_ids: "plain_routes rs \<Longrightarrow> distinct (map route_id rs)"
proof (induction rs)
  case (Cons r rs)
  have "route_id r \<in> set (json_ids (route_json r))"
    using Cons.prems by (intro top_id_in_ids top_id_route) (simp add: plain_routes_def)
  moreover have "route_id r' \<in> set (json_ids (route_json r'))" if "r' \<in> set rs" for r'
    using Cons.prems that by (intro top_id_in_ids top_id_route) (simp add: plain_routes_def list_all_iff)
  ultimately show ?case
    using Cons by (fastforce simp: plain_routes_def)
qed simp

locale caddy_world = admin_api +
  assumes quiet_http: "ok w \<Longrightarrow> quiet_path (view w) p \<Longrightarrow> rq_url rq = base c @ p \<Longrightarrow>
      ok (snd (http_do e rq w)) \<and> view (snd (http_do e rq w)) = view w"
    and quiet_range: "ok w \<Longrightarrow> ok (snd (range_keys e ks w)) \<and> view (snd (range_keys e ks w)) = view w
      \<and> set (fst (range_keys e ks w)) = set ks"
    and quiet_secret: "ok w \<Longrightarrow> ok (snd (get_secret e ns nm w)) \<and> view (snd (get_secret e ns nm w)) = view w"
    and quiet_configmap: "ok w \<Longrightarrow> ok (snd (get_configmap e ns nm w)) \<and> view (snd (get_configmap e ns nm w)) = view w"
    and quiet_create: "ok w \<Longrightarrow> ok (snd (create_configmap e ns cm w)) \<and> view (snd (create_configmap e ns cm w)) = view w"
    and quiet_patch: "ok w \<Longrightarrow> ok (snd (patch_ingress e ns nm p w)) \<and> view (snd (patch_ingress e ns nm p w)) = view w"
    and quiet_redis_set: "ok w \<Longrightarrow> ok (snd (redis_set e k v w)) \<and> view (snd (redis_set e k v w)) = view w"
    and quiet_redis_del: "ok w \<Longrightarrow> ok (snd (redis_del e k w)) \<and> view (snd (redis_del e k w)) = view w"
begin

text \<open>The world is fine and shows the configuration \<open>V\<close>.\<close>

definition held :: "config \<Rightarrow> 'a \<Rightarrow> bool" where
  "held V w = (ok w \<and> view w = V)"

named_theorems held_rules \<open>operations that leave the configuration alone\<close>

lemma held_http:
  "held V w \<Longrightarrow> quiet_path V p \<Longrightarrow>
   http_do e \<lparr>rq_method = m, rq_url = base c @ p, rq_body = b, rq_ctype = t\<rparr> w = (x, w') \<Longrightarrow> held V w'"
  using quiet_http [of w p "\<lparr>rq_method = m, rq_url = base c @ p, rq_body = b, rq_ctype = t\<rparr>"]
  by (auto simp: held_def)

lemma held_range: "held V w \<Longrightarrow> range_keys e ks w = (x, w') \<Longrightarrow> held V w'"
  using quiet_range [of w ks] by (auto simp: held_def)

lemma held_secret: "held V w \<Longrightarrow> get_secret e ns nm w = (x, w') \<Longrightarrow> held V w'"
  using quiet_secret [of w ns nm] by (auto simp: held_def)

lemma held_configmap: "held V w \<Longrightarrow> get_configmap e ns nm w = (x, w') \<Longrightarrow> held V w'"
  using quiet_configmap [of w ns nm] by (auto simp: held_def)

lemma held_create: "held V w \<Longrightarrow> create_configmap e ns cm w = (x, w') \<Longrightarrow> held V w'"
  using quiet_create [of w ns cm] by (auto simp: held_def)

lemma held_patch: "held V w \<Longrightarrow> patch_ingress e ns nm p w = (x, w') \<Longrightarrow> held V w'"
  using quiet_patch [of w ns nm p] by (auto simp: held_def)

lemma held_redis_set: "held V w \<Longrightarrow> redis_set e k v w = (x, w') \<Longrightarrow> held V w'"
  using quiet_redis_set [of w k v] by (auto simp: held_def)

lemma held_redis_del: "held V w \<Longrightarrow> redis_del e k w = (x, w') \<Longrightarrow> held V w'"
  using quiet_redis_del [of w k] by (auto simp: held_def)

lemmas held_env = held_range held_secret held_configmap held_create held_patch held_redis_set held_redis_del

subsection \<open>Requests beside the routes\<close>

lemma held_do: "held V w \<Longrightarrow> quiet_path V p \<Longrightarrow> do_request e c m p b w = (x, w') \<Longrightarrow> held V w'"
  by (auto simp: do_request_def split: option.splits prod.splits sum.splits if_splits dest: held_http)

lemma quiet_paths:
  "quiet_path V ''/config/apps/tls/certificates''"
  "quiet_path V ''/config/apps/tls/automation/policies/''"
  by (simp_all add: quiet_path_def)

lemma quiet_skip: "url_safe srv \<Longrightarrow> quiet_path V (skip_path srv)"
  by (auto simp: quiet_path_def)

lemma quiet_policy: "url_safe x \<and> x \<notin> set (config_ids V) \<Longrightarrow> quiet_path V (id_path x)"
  by (auto simp: quiet_path_def)

lemmas held_do_policies = held_do [OF _ quiet_paths(2)]

lemmas held_do_skip = held_do [OF _ quiet_skip]

lemma held_post: "held V w \<Longrightarrow> quiet_path V p \<Longrightarrow> postJSON e c p j w = (x, w') \<Longrightarrow> held V w'"
  by (auto simp: postJSON_def split: sum.splits dest: held_do)

lemmas held_post_certs = held_post [OF _ quiet_paths(1)]

lemma held_exists:
  "held V w \<Longrightarrow> url_safe x \<and> x \<notin> set (config_ids V) \<Longrightarrow> routeExists e c x w = (r, w') \<Longrightarrow> held V w'"
  by (auto simp: routeExists_def get_request_def split: option.splits prod.splits sum.splits
      dest: held_http [OF _ quiet_policy])

lemma held_upsert_policy:
  "held V w \<Longrightarrow> upsertTLSPolicy e c p w = (r, w') \<Longrightarrow> url_safe (policy_ID p) \<and> policy_ID p \<notin> set (config_ids V) \<Longrightarrow> held V w'"
  by (auto simp: upsertTLSPolicy_def split: prod.splits sum.splits if_splits
      dest: held_exists held_do_policies held_do [OF _ quiet_policy])

lemmas held_upsert_policy_record =
  held_upsert_policy [where p = "\<lparr>policy_ID = i, Subjects = hs, Issuers = iss, OnDemand = od\<rparr>" for i hs iss od, simplified]

lemma held_delete_policy:
  "held V w \<Longrightarrow> url_safe x \<and> x \<notin> set (config_ids V) \<Longrightarrow> deleteTLSPolicy e c x w = (r, w') \<Longrightarrow> held V w'"
  by (auto simp: deleteTLSPolicy_def split: prod.splits sum.splits if_splits
      dest: held_exists held_do [OF _ quiet_policy])

subsection \<open>Managers beside the routes\<close>

lemma held_load_entry:
  assumes "held V (snd mw)" "newAdminClient (tls_adminAPI (fst mw)) = c"
  shows "held V (snd (load_entry e ing t mw)) \<and> tls_adminAPI (fst (load_entry e ing t mw)) = tls_adminAPI (fst mw)"
  using assms
  by (cases mw)
    (auto simp: load_entry_def Let_def track_ref_def store_cert_def pushCertToCaddy_def
      split: prod.splits sum.splits option.splits if_splits dest: held_secret held_post_certs)

lemma held_load:
  assumes "held V (snd mw)" "newAdminClient (tls_adminAPI (fst mw)) = c"
  shows "held V (snd (LoadFromIngress e ing mw)) \<and> tls_adminAPI (fst (LoadFromIngress e ing mw)) = tls_adminAPI (fst mw)"
proof -
  have "held V (snd (fold (load_entry e ing) ts mw)) \<and> tls_adminAPI (fst (fold (load_entry e ing) ts mw)) = tls_adminAPI (fst mw)" for ts
    using assms
  proof (induction ts arbitrary: mw)
    case (Cons t ts)
    from held_load_entry [OF Cons.prems, of ing t] Cons.prems(2) Cons.IH [of "load_entry e ing t mw"]
    show ?case by simp
  qed simp
  then show ?thesis by (simp add: LoadFromIngress_def)
qed

lemma held_write_servers:
  assumes "\<And>srv w x w'. url_safe srv \<Longrightarrow> held V w \<Longrightarrow> put srv w = (x, w') \<Longrightarrow> held V w'"
  shows "list_all url_safe srvs \<Longrightarrow> held V w \<Longrightarrow> write_servers put what srvs w = (x, w') \<Longrightarrow> held V w'"
  by (induction srvs arbitrary: w) (auto split: prod.splits option.splits dest: assms)

lemma held_rebuild:
  assumes "held V w" "log_wired c m" "rebuild e m w = (x, m', w')"
  shows "held V w' \<and> log_wired c m'"
proof -
  have "held V w' " if "list_all url_safe srvs" "held V w"
    "write_servers (\<lambda>srv. do_request e c ''PATCH'' (skip_path srv) b) what srvs w = (x, w')" for w x w' b what srvs
    by (rule held_write_servers [OF _ that]) (rule held_do_skip)
  moreover have "newAdminClient (al_adminAPI m) = c" "list_all url_safe (managed_servers m)"
    using assms(2) by (simp_all add: log_wired_def)
  ultimately show ?thesis
    using assms by (auto simp: rebuild_def split: prod.splits sum.splits option.splits if_splits dest: held_range)
qed

lemma held_Skip:
  assumes "held V w" "log_wired c m" "Skip e k hs m w = (x, m', w')"
  shows "held V w' \<and> log_wired c m'"
  using held_rebuild [OF assms(1) _ assms(3) [unfolded Skip_def]] assms(2) by simp

lemma held_Unskip:
  assumes "held V w" "log_wired c m" "Unskip e k m w = (x, m', w')"
  shows "held V w' \<and> log_wired c m'"
  using held_rebuild [OF assms(1) _ assms(3) [unfolded Unskip_def]] assms(2) by simp

lemma held_issuers: "held V w \<Longrightarrow> policy_issuers e ing ann w = (x, w') \<Longrightarrow> held V w'"
  by (auto simp: policy_issuers_def readEABSecret_def Let_def
      split: prod.splits sum.splits if_splits dest: held_secret)

lemma held_policy_Sync:
  "held V w \<Longrightarrow> newAdminClient (policy_adminAPI m) = c \<Longrightarrow> free_policy V ing \<Longrightarrow>
   held V (snd (policy_Sync e m ing ann w))"
  by (auto simp: policy_Sync_def free_policy_def Let_def split: prod.split sum.split option.split
      dest: held_issuers held_upsert_policy_record)

lemma held_policy_Remove:
  "held V w \<Longrightarrow> newAdminClient (policy_adminAPI m) = c \<Longrightarrow> free_policy V ing \<Longrightarrow>
   held V (snd (policy_Remove e m ing w))"
  by (auto simp: policy_Remove_def free_policy_def split: prod.splits option.splits dest: held_delete_policy)

lemma held_create_waf: "held V w \<Longrightarrow> createWAFConfigMapIfAbsent e ns cm ing w = (x, w') \<Longrightarrow> held V w'"
  by (auto simp: createWAFConfigMapIfAbsent_def split: prod.splits sum.splits option.splits if_splits
      dest: held_configmap held_create)

lemma held_ensure: "held V w \<Longrightarrow> ensureWAFConfigMap e ing w = (x, w') \<Longrightarrow> held V w'"
  by (auto simp: ensureWAFConfigMap_def Let_def split: prod.splits option.splits if_splits
      dest: held_create_waf held_patch)

lemma held_waf: "held V w \<Longrightarrow> inject_waf_cm e ing w = (ing', w') \<Longrightarrow> held V w'"
  by (auto simp: inject_waf_cm_def split: prod.splits sum.splits if_splits dest: held_ensure)

lemma held_resolve: "held V w \<Longrightarrow> held V (snd (resolveAnnotations e ing w))"
proof -
  have 1: "held V (snd rw) \<Longrightarrow> held V (snd (resolve_waf_rules e ing rw))" for rw
    by (cases rw) (auto simp: resolve_waf_rules_def fetchWAFDirectives_def Let_def
      split: prod.splits sum.splits option.splits if_splits dest: held_configmap)
  have 2: "held V (snd rw) \<Longrightarrow> held V (snd (resolve_auth_policy e ing rw))" for rw
    by (cases rw) (auto simp: resolve_auth_policy_def fetchAuthPolicyHandler_def Let_def
      split: prod.splits sum.splits option.splits if_splits dest: held_configmap)
  have 3: "held V (snd rw) \<Longrightarrow> held V (snd (resolve_basic_auth e ing rw))" for rw
    by (cases rw) (auto simp: resolve_basic_auth_def fetchBasicAuthAccounts_def Let_def
      split: prod.splits sum.splits option.splits if_splits dest: held_secret)
  show "held V w \<Longrightarrow> held V (snd (resolveAnnotations e ing w))"
    using 1 [of "(resolve_pure ing, w)"] 2 3 by (auto simp: resolveAnnotations_def Let_def case_prod_beta)
qed

subsection \<open>The handlers beside the routes\<close>

lemma held_sync_tls:
  "wired c (fst aw) \<Longrightarrow> held V (snd aw) \<Longrightarrow> wired c (fst (sync_tls e ing ann aw)) \<and> held V (snd (sync_tls e ing ann aw))"
  using held_load [of V "(tlsManager (fst aw), snd aw)" ing]
  by (cases aw) (auto simp: sync_tls_def wired_def split: prod.split)

lemma wired_log: "wired c a \<Longrightarrow> log_wired c m' \<Longrightarrow> wired c (a\<lparr>accessLogMgr := Some m'\<rparr>)"
  by (simp add: wired_def)

lemma held_unskip_log:
  assumes "wired c (fst aw)" "held V (snd aw)"
  shows "wired c (fst (unskip_log e k aw)) \<and> held V (snd (unskip_log e k aw))"
proof -
  obtain a w where aw: "aw = (a, w)" by (cases aw)
  show ?thesis
  proof (cases "accessLogMgr a")
    case (Some m)
    obtain x m' w' where u: "Unskip e k m w = (x, m', w')" by (metis prod_cases3)
    have "log_wired c m" using assms(1) aw Some by (simp add: wired_def)
    from held_Unskip [OF _ this u] assms aw Some u wired_log [of a m'] show ?thesis
      by (simp add: unskip_log_def)
  qed (use assms aw in \<open>simp add: unskip_log_def\<close>)
qed

lemma held_sync_access_log:
  assumes "wired c (fst aw)" "held V (snd aw)"
  shows "wired c (fst (sync_access_log e ing ann aw)) \<and> held V (snd (sync_access_log e ing ann aw))"
proof -
  obtain a w where aw: "aw = (a, w)" by (cases aw)
  show ?thesis
  proof (cases "accessLogMgr a")
    case (Some m)
    obtain x m' w' where u: "Skip e (ingress_key ing) (ingressHosts ing) m w = (x, m', w')" by (metis prod_cases3)
    have "log_wired c m" using assms(1) aw Some by (simp add: wired_def)
    from held_Skip [OF _ this u] assms aw Some u wired_log [of a m'] held_unskip_log [OF assms, of "ingress_key ing"]
    show ?thesis by (simp add: sync_access_log_def)
  qed (use assms aw in \<open>simp add: sync_access_log_def\<close>)
qed

lemma held_sync_policy:
  "wired c (fst aw) \<Longrightarrow> held V (snd aw) \<Longrightarrow> free_policy V ing \<Longrightarrow>
   wired c (fst (sync_policy e ing ann aw)) \<and> held V (snd (sync_policy e ing ann aw))"
  using held_policy_Sync [of V "snd aw" "tlsPolicyMgr (fst aw)" ing ann]
  by (cases aw) (auto simp: sync_policy_def wired_def)

lemma held_remove_tls:
  "wired c (fst aw) \<Longrightarrow> held V (snd aw) \<Longrightarrow> free_policy V ing \<Longrightarrow>
   wired c (fst (remove_tls e ing aw)) \<and> held V (snd (remove_tls e ing aw))"
proof -
  have "tls_adminAPI (fold (remove_entry ing) ts m) = tls_adminAPI m" for ts m
    by (induction ts arbitrary: m) (auto simp: remove_entry_def drop_ref_def Let_def split: option.splits)
  then have "tls_adminAPI (RemoveFromIngress ing m) = tls_adminAPI m" for m
    by (simp add: RemoveFromIngress_def)
  then show "wired c (fst aw) \<Longrightarrow> held V (snd aw) \<Longrightarrow> free_policy V ing \<Longrightarrow> ?thesis"
    using held_policy_Remove [of V "snd aw" "tlsPolicyMgr (fst aw)" ing]
    by (cases aw) (auto simp: remove_tls_def wired_def)
qed

lemma held_store_save: "held V w \<Longrightarrow> store_save e k ids (st, w) = (x, st', w') \<Longrightarrow> held V w'"
  by (auto simp: store_save_def redis_save_def split: routeStore.splits prod.splits sum.splits dest: held_redis_set)

lemma held_store_remove: "held V w \<Longrightarrow> store_remove e k (st, w) = (x, st', w') \<Longrightarrow> held V w'"
  by (auto simp: store_remove_def redis_remove_def split: routeStore.splits prod.splits dest: held_redis_del)

lemma held_stale_ids:
  "held V w \<Longrightarrow> stale_ids e old new w = (stale, w') \<Longrightarrow> held V w' \<and> set stale = set old - set new"
proof -
  have s: "set (map fst (stringSet ids)) = set ids" and m: "map_of (stringSet ids) i = None \<longleftrightarrow> i \<notin> set ids" for ids i
  proof -
    show m: "map_of (stringSet ids) i = None \<longleftrightarrow> i \<notin> set ids" for i
      by (force simp: stringSet_def map_of_eq_None_iff)
    show "set (map fst (stringSet ids)) = set ids"
      using m by (auto simp: map_of_eq_None_iff)
  qed
  show "held V w \<Longrightarrow> stale_ids e old new w = (stale, w') \<Longrightarrow> ?thesis"
    using s [of old] m [of new] quiet_range [of w "map fst (stringSet old)"]
    by (auto simp: stale_ids_def held_def split: prod.splits)
qed

subsection \<open>The routes\<close>

lemma held_upsert:
  assumes "held V w" "url_safe (route_id r)" "exact (route_json r)"
    and "distinct (json_ids (route_json r))" "list_all (\<lambda>(s, j). separate [r] j) V"
  shows "held (upsert_config valid s (route_id r) (route_json r) V) (snd (upsertRoute e c s r w))"
proof -
  have w: "ok w" "view w = V" using assms(1) by (simp_all add: held_def)
  have "distinct (config_ids (other_routes (route_id r) V))"
    using unique [OF w(1)] w(2) distinct_other_routes by auto
  moreover have "set (config_ids (other_routes (route_id r) V)) \<inter> set (json_ids (route_json r)) = {}"
    using assms(5) by (fastforce simp: config_ids_def other_routes_def list_all_iff separate_def)
  ultimately have "distinct (config_ids (other_routes (route_id r) (view w)) @ json_ids (route_json r))"
    using assms(4) w(2) by simp
  from upsertRoute_spec [where s = s, OF w(1) assms(2,3) this] w(2) show ?thesis
    by (auto simp: held_def)
qed

lemma held_upsert_all:
  assumes "held V w" "plain_routes rs" "list_all (\<lambda>(s, j). separate rs j) V"
  shows "held (upsert_routes valid s rs V) (upsert_all e c s rs w)"
  using assms
proof (induction rs arbitrary: V w)
  case Nil
  then show ?case by (simp add: upsert_all_def)
next
  case (Cons r rs)
  let ?V = "upsert_config valid s (route_id r) (route_json r) V"
  have p: "url_safe (route_id r)" "exact (route_json r)" "distinct (json_ids (route_json r))" "plain_routes rs"
    and sep: "separate rs (route_json r)"
    using Cons.prems(2) by (auto simp: plain_routes_def separate_def list_all_iff)
  have "list_all (\<lambda>(s, j). separate [r] j) V"
    using separate_config_sub [OF Cons.prems(3)] by simp
  with Cons.prems p have h: "held ?V (snd (upsertRoute e c s r w))"
    by (intro held_upsert) simp_all
  have "list_all (\<lambda>(s, j). separate rs j) V"
    using separate_config_sub [OF Cons.prems(3)] by auto
  then have "list_all (\<lambda>(s, j). separate rs j) ?V"
    using sep set_upsert_config [of valid s "route_id r" "route_json r" V] by (auto simp: list_all_iff)
  from Cons.IH [OF h p(4) this] show ?case by (simp add: upsert_all_def)
qed

lemma held_delete_all:
  assumes "held V w" "list_all url_safe xs" "list_all (\<lambda>(s, j). tidy xs j) V"
  shows "held (without_ids xs V) (delete_all e c xs w)"
  using assms
proof (induction xs arbitrary: V w)
  case Nil
  then show ?case by (simp add: delete_all_def)
next
  case (Cons x xs)
  have w: "ok w" "view w = V" using Cons.prems(1) by (simp_all add: held_def)
  have "x \<notin> set (config_ids (other_routes x V))"
    using Cons.prems(3) by (fastforce simp: config_ids_def other_routes_def list_all_iff tidy_def)
  then have "held (other_routes x V) (snd (deleteRoute e c x w))"
    using deleteRoute_spec [OF w(1), of x] w(2) Cons.prems(2) by (auto simp: held_def)
  moreover have "list_all (\<lambda>(s, j). tidy xs j) (other_routes x V)"
    using Cons.prems(3) by (auto simp: list_all_iff other_routes_def tidy_def)
  ultimately show ?case
    using Cons.IH Cons.prems(2) by (simp add: delete_all_def)
qed

lemma held_sync_routes:
  assumes "newAdminClient (AdminAPI a) = c" "held V w" "target_server a ing = Some s"
    and reds: "reds = redirect_routes a ing ann"
    and rs: "rs = convertIngress ing (Security a) ann"
    and owned: "owned = owned_ids a (ingress_key ing)"
    and dep: "deployable owned (reds @ rs) V"
  shows "\<exists>a' w'. sync_routes e ing ann (a, w) = (a', w')
      \<and> held (synced_config valid s (httpServerName a) owned reds rs V) w' \<and> owned_ids a' (ingress_key ing) = map route_id rs
      \<and> (wired c a \<longrightarrow> wired c a') \<and> settings a' = settings a"
proof -
  let ?V1 = "upsert_routes valid (httpServerName a) reds V"
  let ?V2 = "without_ids (dropped_ids owned rs) ?V1"
  have plain: "plain_routes reds" "plain_routes rs" and cross: "\<And>r. r \<in> set reds \<Longrightarrow> separate rs (route_json r)"
    using dep by (auto simp: deployable_def plain_routes_def separate_def list_all_iff)
  have sep: "list_all (\<lambda>(s, j). separate reds j) V" "list_all (\<lambda>(s, j). separate rs j) V"
    using dep separate_sub [of "reds @ rs"] by (fastforce simp: deployable_def list_all_iff)+
  obtain w1 where w1: "w1 = upsert_all e c (httpServerName a) reds w" "held ?V1 w1"
    using held_upsert_all [OF assms(2) plain(1) sep(1)] by blast
  obtain gone w2 where g: "stale_ids e owned (map route_id rs) w1 = (gone, w2)" by (meson surj_pair)
  with held_stale_ids [OF w1(2) g] have w2: "held ?V1 w2" and gone: "set gone = set (dropped_ids owned rs)"
    by (auto simp: dropped_ids_def)
  have V1: "(s', j) \<in> set ?V1 \<Longrightarrow> (s', j) \<in> set V \<or> (\<exists>r \<in> set reds. j = route_json r)" for s' j
    using set_upsert_routes [of valid "httpServerName a" reds V] by auto
  have "list_all (\<lambda>(s, j). tidy owned j) ?V1"
    using dep V1 by (fastforce simp: deployable_def list_all_iff)
  then have "list_all (\<lambda>(s, j). tidy gone j) ?V1"
    using gone by (auto simp: tidy_def list_all_iff dropped_ids_def)
  moreover have "list_all url_safe gone"
    using dep gone by (auto simp: deployable_def list_all_iff dropped_ids_def)
  ultimately have w3: "held ?V2 (delete_all e c gone w2)"
    using held_delete_all [OF w2, of gone] without_ids_cong [OF gone] by simp
  have "list_all (\<lambda>(s, j). separate rs j) ?V2"
    using V1 sep(2) cross by (fastforce simp: list_all_iff without_ids_def)
  then have w4: "held (synced_config valid s (httpServerName a) owned reds rs V) (upsert_all e c s rs (delete_all e c gone w2))"
    unfolding synced_config_def by (intro held_upsert_all [OF w3 plain(2)]) auto
  obtain x st w5 where st: "store_save e (ingress_key ing) (map route_id rs) (store a, upsert_all e c s rs (delete_all e c gone w2)) = (x, st, w5)"
    by (metis prod_cases3)
  from held_store_save [OF w4 st] show ?thesis
    using assms(1,3) reds rs owned w1(1) g st
    by (simp add: sync_routes_def Let_def owned_ids_def map_of_mput wired_def settings_def)
qed

lemma held_handleAdd:
  assumes w: "held V w" "wired c a" "isOurs a ing"
    and t: "target_server a ing = Some s"
    and f: "free_policy V ing"
    and p: "prepared e ing w = (ing', ann, w1)"
    and reds: "reds = redirect_routes a ing' ann"
    and rs: "rs = convertIngress ing' (Security a) ann"
    and owned: "owned = owned_ids a (ingress_key ing)"
    and dep: "deployable owned (reds @ rs) V"
  shows "\<exists>a' w'. handleAdd e ing (a, w) = (a', w')
      \<and> held (synced_config valid s (httpServerName a) owned reds rs V) w' \<and> owned_ids a' (ingress_key ing) = map route_id rs
      \<and> wired c a' \<and> settings a' = settings a"
proof -
  obtain w0 where i: "inject_waf_cm e ing w = (ing', w0)" and r: "resolveAnnotations e ing' w0 = (ann, w1)"
    using p by (auto simp: prepared_def split: prod.splits)
  have fr: "ing_namespace ing' = ing_namespace ing" "ing_name ing' = ing_name ing" "ing_tls ing' = ing_tls ing"
    using inject_waf_cm_frame [OF i] by simp_all
  then have k: "ingress_key ing' = ingress_key ing" "free_policy V ing'"
    using f by (simp_all add: free_policy_def tlsPolicyID_def)
  have "held V w0" using w(1) i by (rule held_waf)
  then have h1: "held V w1" using held_resolve [of V w0 ing'] r by simp
  let ?aw1 = "sync_tls e ing' ann (a, w1)"
  let ?aw2 = "sync_access_log e ing' ann ?aw1"
  have 1: "wired c (fst ?aw1)" "held V (snd ?aw1)"
    using held_sync_tls [of "(a, w1)" V ing' ann] w(2) h1 by simp_all
  have 2: "wired c (fst ?aw2)" "held V (snd ?aw2)"
    using held_sync_access_log [OF 1] by simp_all
  obtain a3 w3 where 3: "sync_policy e ing' ann ?aw2 = (a3, w3)" by (meson surj_pair)
  with held_sync_policy [OF 2 k(2), of ann] have h3: "wired c a3" "held V w3" by simp_all
  have "book (fst (a3, w3)) = book a" "settings (fst (a3, w3)) = settings a"
    unfolding 3 [symmetric] by simp_all
  then have a3: "settings a3 = settings a" "routeIDs a3 = routeIDs a" "httpServerName a3 = httpServerName a" "serverName a3 = serverName a"
      "Security a3 = Security a"
    by (simp_all add: book_def) (simp_all add: settings_def)
  have "handleAdd e ing (a, w) = sync_routes e ing' ann (a3, w3)"
    using w(3) i r 3 by (simp add: handleAdd_def)
  moreover have "newAdminClient (AdminAPI a3) = c" using h3(1) by (simp add: wired_def)
  moreover have "target_server a3 ing' = Some s"
    using t a3 fr by (auto simp: target_server_def split: if_splits)
  moreover have "reds = redirect_routes a3 ing' ann" using reds a3 by (simp add: redirect_routes_def)
  moreover have "owned = owned_ids a3 (ingress_key ing')" using owned a3 k(1) by (simp add: owned_ids_def)
  ultimately show ?thesis
    using held_sync_routes [of a3 V w3 ing' s reds ann rs owned] h3 rs dep a3 k(1) by simp
qed

lemma held_handleDelete:
  assumes w: "held V w" "wired c a" and f: "free_policy V ing"
    and owned: "owned = owned_ids a (ingress_key ing)"
    and x: "list_all url_safe owned" "list_all (\<lambda>(s, j). tidy owned j) V"
  shows "\<exists>a' w'. handleDelete e ing (a, w) = (a', w') \<and> held (without_ids owned V) w' \<and> owned_ids a' (ingress_key ing) = []
      \<and> wired c a' \<and> settings a' = settings a"
proof -
  let ?aw = "remove_tls e ing (a, w)"
  have "wired c (fst ?aw)" "held V (snd ?aw)"
    using held_remove_tls [of "(a, w)" V ing] w f by simp_all
  note 1 = held_unskip_log [OF this, of "ingress_key ing"]
  obtain a2 w2 where u: "unskip_log e (ingress_key ing) ?aw = (a2, w2)" by (meson surj_pair)
  with 1 have h: "wired c a2" "held V w2" by simp_all
  have "book (fst (a2, w2)) = book a" "settings (fst (a2, w2)) = settings a" unfolding u [symmetric] by simp_all
  then have o: "owned_ids a2 (ingress_key ing) = owned" and st2: "settings a2 = settings a"
    using owned by (simp_all add: book_def owned_ids_def)
  have c: "newAdminClient (AdminAPI a2) = c" using h(1) by (simp add: wired_def)
  obtain y st w4 where st: "store_remove e (ingress_key ing) (store a2, delete_all e c owned w2) = (y, st, w4)"
    by (metis prod_cases3)
  have "held (without_ids owned V) w4"
    by (rule held_store_remove [OF held_delete_all [OF h(2) x] st])
  then show ?thesis
    using u o c st st2 h(1) by (simp add: handleDelete_def Let_def owned_ids_def map_of_mdel wired_def settings_def)
qed

end

section \<open>The handlers' properties\<close>

text \<open>Under \<open>deployable\<close> the specified configuration has what a user expects of a sync.\<close>

lemma deployable_plain:
  "deployable owned (reds @ rs) v \<Longrightarrow> list_all (\<lambda>r. url_safe (route_id r)) (reds @ rs) \<and> distinct (map route_id (reds @ rs))"
  using plain_routes_ids [of "reds @ rs"] by (auto simp: deployable_def plain_routes_def list_all_iff)

lemma synced_live:
  assumes "deployable owned (reds @ rs) v" "r \<in> set rs"
  shows "settled valid s r (synced_config valid s h owned reds rs v)"
  unfolding synced_config_def
  by (rule upsert_routes_settled) (use assms deployable_plain [OF assms(1)] in auto)

lemma synced_not_stale:
  assumes "deployable owned (reds @ rs) v" "x \<in> set owned" "x \<notin> set (map route_id rs)"
    and "(s0, j) \<in> set (synced_config valid s h owned reds rs v)"
  shows "top_id j \<noteq> Some x"
proof -
  have "x \<in> set (dropped_ids owned rs)" using assms(2,3) by (simp add: dropped_ids_def)
  moreover have "top_id (route_json r) = Some (route_id r)" if "r \<in> set rs" for r
    using that deployable_plain [OF assms(1)] by (intro top_id_route) (auto simp: list_all_iff)
  moreover have "(s0, j) \<in> set (without_ids (dropped_ids owned rs) (upsert_routes valid h reds v)) \<or> (\<exists>r \<in> set rs. j = route_json r)"
    using assms(4) set_upsert_routes [of valid s rs "without_ids (dropped_ids owned rs) (upsert_routes valid h reds v)"]
    by (auto simp: synced_config_def)
  ultimately show ?thesis
    using assms(3) by (auto simp: without_ids_def list_all_iff)
qed

text \<open>A sync touches no other entry of the configuration.\<close>

lemma synced_foreign:
  assumes "deployable owned (reds @ rs) v"
  shows "without_ids (owned @ map route_id (reds @ rs)) (synced_config valid s h owned reds rs v)
       = without_ids (owned @ map route_id (reds @ rs)) v"
proof -
  let ?P = "\<lambda>(s, j). list_all (\<lambda>x. top_id j \<noteq> Some x) (owned @ map route_id (reds @ rs))"
  have up: "filter ?P (upsert_routes valid s' rs' v') = filter ?P v'" if "set rs' \<subseteq> set (reds @ rs)" for s' rs' v'
    by (rule upsert_routes_filter) (use that deployable_plain [OF assms] in \<open>auto simp: list_all_iff\<close>)
  have "filter ?P (synced_config valid s h owned reds rs v) = filter ?P (without_ids (dropped_ids owned rs) (upsert_routes valid h reds v))"
    unfolding synced_config_def by (rule up) simp
  also have "\<dots> = filter ?P (upsert_routes valid h reds v)"
    by (auto simp: without_ids_def dropped_ids_def list_all_iff intro!: filter_cong)
  also have "\<dots> = filter ?P v" by (rule up) simp
  finally show ?thesis by (simp add: without_ids_def)
qed

text \<open>C6: A sync of an Ingress of this class refines its specification. Against a Caddy that behaves
  as documented, whatever routes it accepts and whatever the API server and the store answer, the
  handler leaves the configuration \<open>synced_config\<close>: the redirects upserted on the HTTP server, the stale
  routes removed, the converted routes upserted on the target server, where upserting a route that Caddy
  rejects removes the old route and adds none. The handler owns exactly the converted routes,
  those Caddy has rejected among them.\<close>

theorem handleAdd_refines:
  assumes "caddy_world e c view ok valid" "ok w" "wired c a" "isOurs a ing"
    and "target_server a ing = Some s" "free_policy (view w) ing"
    and "prepared e ing w = (ing', ann, w1)"
    and "reds = redirect_routes a ing' ann"
    and "rs = convertIngress ing' (Security a) ann"
    and "owned = owned_ids a (ingress_key ing)" "deployable owned (reds @ rs) (view w)"
    and "handleAdd e ing (a, w) = (a', w')"
  shows "ok w' \<and> view w' = synced_config valid s (httpServerName a) owned reds rs (view w)
      \<and> owned_ids a' (ingress_key ing) = map route_id rs"
proof -
  have "caddy_world.held view ok (view w) w"
    using assms(2) by (simp add: caddy_world.held_def [OF assms(1)])
  from caddy_world.held_handleAdd [OF assms(1), OF this assms(3-11)] assms(12)
  show ?thesis by (auto simp: caddy_world.held_def [OF assms(1)])
qed

text \<open>What a user sees after such a sync: every converted route is in Caddy's configuration with
  exactly the generated content, or was rejected and has no route under its identifier; no route the
  Ingress owned before and no longer has is left, and the routes of others are the same in the same
  order.\<close>

lemma handleAdd_effect:
  assumes "caddy_world e c view ok valid" "ok w" "wired c a" "isOurs a ing"
    and "target_server a ing = Some s" "free_policy (view w) ing"
    and "prepared e ing w = (ing', ann, w1)"
    and "reds = redirect_routes a ing' ann"
    and "rs = convertIngress ing' (Security a) ann"
    and "owned = owned_ids a (ingress_key ing)" "deployable owned (reds @ rs) (view w)"
    and "handleAdd e ing (a, w) = (a', w')"
  shows "(\<forall>r \<in> set rs. settled valid s r (view w'))
      \<and> (\<forall>x \<in> set owned - set (map route_id rs). \<forall>(s0, j) \<in> set (view w'). top_id j \<noteq> Some x)
      \<and> without_ids (owned @ map route_id (reds @ rs)) (view w') = without_ids (owned @ map route_id (reds @ rs)) (view w)"
proof -
  have "caddy_world.held view ok (view w) w"
    using assms(2) by (simp add: caddy_world.held_def [OF assms(1)])
  from caddy_world.held_handleAdd [OF assms(1), OF this assms(3-11)] assms(12)
  have "view w' = synced_config valid s (httpServerName a) owned reds rs (view w)"
    by (auto simp: caddy_world.held_def [OF assms(1)])
  then show ?thesis
    using synced_live [OF assms(11)] synced_not_stale [OF assms(11)] synced_foreign [OF assms(11)] by auto
qed

lemma dropped_none: "dropped_ids (map route_id rs) rs = []"
  by (simp add: dropped_ids_def)

lemma synced_entries:
  "(s0, j) \<in> set (synced_config valid s h owned reds rs v) \<Longrightarrow> (s0, j) \<in> set v \<or> (\<exists>r \<in> set (reds @ rs). j = route_json r)"
  using set_upsert_routes [of valid s rs "without_ids (dropped_ids owned rs) (upsert_routes valid h reds v)"] set_upsert_routes [of valid h reds v]
  by (auto simp: synced_config_def without_ids_def)

lemma plain_routes_disjoint:
  assumes "distinct (concat (map (json_ids \<circ> route_json) rs))" "r \<in> set rs" "r' \<in> set rs" "r \<noteq> r'"
  shows "set (json_ids (route_json r)) \<inter> set (json_ids (route_json r')) = {}"
  using assms by (induction rs) auto

lemma deployable_separate:
  assumes "deployable owned rs v" "r \<in> set rs"
  shows "separate rs (route_json r)"
proof -
  have d: "distinct (concat (map (json_ids \<circ> route_json) rs))" and t: "top_id (route_json r) = Some (route_id r)"
    using assms by (auto simp: deployable_def plain_routes_def list_all_iff intro!: top_id_route)
  show ?thesis
    using plain_routes_disjoint [OF d assms(2)] t by (fastforce simp: separate_def list_all_iff)
qed

lemma separate_tidy:
  assumes "separate rs j" "list_all (\<lambda>r. url_safe (route_id r)) rs"
  shows "tidy (map route_id rs) j"
  using assms top_id_in_ids [OF top_id_route] by (fastforce simp: separate_def tidy_def list_all_iff)

lemma deployable_synced:
  assumes "deployable owned (reds @ rs) v"
  shows "deployable (map route_id rs) (reds @ rs) (synced_config valid s h owned reds rs v)"
proof -
  have safe: "list_all (\<lambda>r. url_safe (route_id r)) rs" using deployable_plain [OF assms] by simp
  have sep: "separate (reds @ rs) j" if "(s0, j) \<in> set (synced_config valid s h owned reds rs v)" for s0 j
    using synced_entries [OF that] deployable_separate [OF assms] assms by (auto simp: deployable_def list_all_iff)
  have tid: "separate (reds @ rs) j \<Longrightarrow> tidy (map route_id rs) j" for j
    using separate_tidy [OF separate_sub, of "reds @ rs" j rs] safe by simp
  have "list_all (\<lambda>(s, j). separate (reds @ rs) j \<and> tidy (map route_id rs) j) (synced_config valid s h owned reds rs v)"
    using sep tid by (auto simp: list_all_iff)
  moreover have "list_all (tidy (map route_id rs) \<circ> route_json) (reds @ rs)"
    using tid deployable_separate [OF assms] by (auto simp: list_all_iff)
  moreover have "plain_routes (reds @ rs)" using assms by (simp add: deployable_def)
  ultimately show ?thesis using safe by (simp add: deployable_def list_all_iff)
qed

text \<open>The redirect routes are not recorded as owned, so a deletion after the sync leaves them.\<close>

lemma redirects_settled:
  assumes "deployable owned (reds @ rs) v" "r \<in> set reds" "route_id r \<notin> set owned"
  shows "settled valid h r (without_ids (map route_id rs) (synced_config valid s h owned reds rs v))"
    "settled valid h r (synced_config valid s h owned reds rs v)"
proof -
  have d: "list_all (\<lambda>r. url_safe (route_id r)) (reds @ rs)" "distinct (map route_id reds)" "route_id r \<notin> set (map route_id rs)"
    and t: "top_id (route_json r) = Some (route_id r)" "url_safe (route_id r)"
    using deployable_plain [OF assms(1)] assms(2) by (auto simp: list_all_iff intro!: top_id_route)
  have "settled valid h r (upsert_routes valid h reds v)"
    using d assms(2) by (intro upsert_routes_settled) simp_all
  then have "settled valid h r (without_ids (dropped_ids owned rs) (upsert_routes valid h reds v))"
    by (rule settled_without [OF _ t(1)]) (use assms(3) in \<open>auto simp: dropped_ids_def\<close>)
  then show s: "settled valid h r (synced_config valid s h owned reds rs v)"
    unfolding synced_config_def using d t by (intro settled_fold) simp_all
  show "settled valid h r (without_ids (map route_id rs) (synced_config valid s h owned reds rs v))"
    by (rule settled_without [OF s t(1) d(3)])
qed

lemma redirects_survive:
  assumes "deployable owned (reds @ rs) v" "r \<in> set reds" "route_id r \<notin> set owned" "valid h (route_json r)"
  shows "\<exists>s0. (s0, route_json r) \<in> set (without_ids (map route_id rs) (synced_config valid s h owned reds rs v))"
  using redirects_settled(1) [OF assms(1-3), of valid h s] assms(4) by (auto simp: settled_def)

lemma synced_again:
  assumes dep: "deployable owned (reds @ rs) v" and "set (map route_id reds) \<inter> set owned = {}"
  shows "synced_config valid s h (map route_id rs) reds rs (synced_config valid s h owned reds rs v) = synced_config valid s h owned reds rs v"
proof -
  let ?v = "synced_config valid s h owned reds rs v"
  have t: "top_id (route_json r) = Some (route_id r)" if "r \<in> set (reds @ rs)" for r
    using deployable_plain [OF dep] that by (intro top_id_route) (auto simp: list_all_iff)
  have "settled valid h r ?v" if "r \<in> set reds" for r
  proof -
    have "route_id r \<notin> set owned" using that assms(2) by auto
    then show ?thesis by (rule redirects_settled(2) [OF dep that])
  qed
  then have 1: "upsert_routes valid h reds ?v = ?v" using t by (intro upsert_routes_present) simp
  have 2: "upsert_routes valid s rs ?v = ?v" using synced_live [OF dep] t by (intro upsert_routes_present) simp
  have "synced_config valid s h (map route_id rs) reds rs ?v = upsert_routes valid s rs (upsert_routes valid h reds ?v)"
    by (simp only: synced_config_def [where owned = "map route_id rs"] dropped_none without_ids_simps)
  with 1 2 show ?thesis by simp
qed

text \<open>C8: Syncing is stable: when the informer delivers the same Ingress again, as it does every thirty
  seconds, and its annotations resolve to the same values, the second sync leaves Caddy's
  configuration and the ownership as the first one left them. A route Caddy has rejected is sent and
  rejected again, which changes nothing either.\<close>

theorem handleAdd_resync:
  assumes w: "caddy_world e c view ok valid" "ok w" "wired c a" "isOurs a ing"
    and s: "target_server a ing = Some s"
    and f: "free_policy (view w) ing" "list_all (\<lambda>r. tlsPolicyID ing \<notin> set (json_ids (route_json r))) (reds @ rs)"
    and p: "prepared e ing w = (ing', ann, w1)" "prepared e ing w' = (ing', ann, w2)"
    and reds: "reds = redirect_routes a ing' ann"
    and rs: "rs = convertIngress ing' (Security a) ann"
    and owned: "owned = owned_ids a (ingress_key ing)" "set (map route_id reds) \<inter> set owned = {}"
    and dep: "deployable owned (reds @ rs) (view w)"
    and run: "handleAdd e ing (a, w) = (a', w')" "handleAdd e ing (a', w') = (a'', w'')"
  shows "view w'' = view w' \<and> owned_ids a'' (ingress_key ing) = owned_ids a' (ingress_key ing)"
proof -
  note held_def = caddy_world.held_def [OF w(1)]
  let ?V = "synced_config valid s (httpServerName a) owned reds rs (view w)"
  have h: "caddy_world.held view ok (view w) w" using w(2) by (simp add: held_def)
  from caddy_world.held_handleAdd [OF w(1), OF h w(3,4) s f(1) p(1) reds rs owned(1) dep] run(1)
  have h': "caddy_world.held view ok ?V w'" and o: "owned_ids a' (ingress_key ing) = map route_id rs"
    and w': "wired c a'" and st: "settings a' = settings a"
    by auto
  have same: "isOurs a' ing" "target_server a' ing = Some s" "reds = redirect_routes a' ing' ann"
      "httpServerName a' = httpServerName a" "rs = convertIngress ing' (Security a') ann"
    using w(4) s reds rs st target_server_settings [OF st, of ing] by (simp_all add: settings_def isOurs_def redirect_routes_def)
  have "tlsPolicyID ing \<notin> set (config_ids ?V)"
    using f synced_entries [of _ _ valid s "httpServerName a" owned reds rs "view w"]
    by (fastforce simp: free_policy_def config_ids_def list_all_iff)
  then have "free_policy ?V ing" using f(1) by (simp add: free_policy_def)
  from caddy_world.held_handleAdd [OF w(1), OF h' w' same(1,2) this p(2) same(3,5) o [symmetric]
      deployable_synced [OF dep]] same(4) run(2)
  have "view w'' = synced_config valid s (httpServerName a) (map route_id rs) reds rs ?V"
    and "owned_ids a'' (ingress_key ing) = map route_id rs"
    by (auto simp: held_def)
  moreover have "view w' = ?V" using h' by (simp add: held_def)
  ultimately show ?thesis using synced_again [OF dep owned(2)] o by simp
qed

text \<open>C7: Deleting an Ingress removes exactly the routes it owns and forgets them, whether or not the
  other requests succeed. The redirect routes of \<open>ssl-redirect\<close> are not among the owned ones and
  stay.\<close>

theorem handleDelete_refines:
  assumes "caddy_world e c view ok valid" "ok w" "wired c a" "free_policy (view w) ing"
    and "owned = owned_ids a (ingress_key ing)" "list_all url_safe owned"
    and "list_all (\<lambda>(s, j). tidy owned j) (view w)"
    and "handleDelete e ing (a, w) = (a', w')"
  shows "ok w' \<and> view w' = without_ids owned (view w) \<and> owned_ids a' (ingress_key ing) = []"
proof -
  have "caddy_world.held view ok (view w) w"
    using assms(2) by (simp add: caddy_world.held_def [OF assms(1)])
  from caddy_world.held_handleDelete [OF assms(1), OF this assms(3-7)] assms(8)
  show ?thesis by (auto simp: caddy_world.held_def [OF assms(1)])
qed

subsection \<open>The reference server is such a world\<close>

lemma ref_quiet:
  assumes "quiet_path v p" "rq_url rq = b @ p"
  shows "snd (ref_http b rq v) = v"
proof -
  have "snd (ref_http b rq v) = v" if p: "p = id_path x" "x \<notin> set (config_ids v)" for x
    using assms(2) find_top_id_absent [OF p(2)] by (simp add: ref_http_def p(1) id_path_def)
  moreover have "snd (ref_http b rq v) = v" if "\<not> prefix ''/id/'' p" "\<not> suffix ''/routes/'' p"
    using assms(2) that by (simp add: ref_http_def Let_def)
  ultimately show ?thesis
    using assms(1) by (auto simp: quiet_path_def skip_path_def suffix_to_prefix)
qed

interpretation ref_world: caddy_world "ref_env (base c)" c "\<lambda>v. v" ok_config ref_valid for c
  by unfold_locales (simp_all add: ref_quiet ref_env_def offline_def)

text \<open>An instance: the Ingress \<open>shop/web\<close> replaces its one stale route beside a route of someone
  else.\<close>

definition live_app :: App where
  "live_app = demo_app\<lparr>IngressClass := ''caddy'', httpServerName := ''srv1'',
     tlsManager := newTLSManager ''a'', tlsPolicyMgr := newTLSPolicyManager ''a'',
     routeIDs := [(''shop/web'', [''caddy-k8s-shop-web-old''])]\<rparr>"

definition live_ingress :: ingress where
  "live_ingress = \<lparr>ing_namespace = ''shop'', ing_name = ''web'', ing_uid = [], annotations = [],
     ingressClassName = Some ''caddy'', ing_tls = [],
     rules = [\<lparr>host = ''h'', http_paths = Some [\<lparr>path = ''/'', pathType = None,
       backendService = Some \<lparr>svc_name = ''s'', svc_port = 80\<rparr>\<rparr>]\<rparr>]\<rparr>"

definition named_route :: "string \<Rightarrow> string \<times> json" where
  "named_route x = (''srv1'', obj [(''@id'', JStr x), (''handle'', JArr [])])"

definition live_config :: config where
  "live_config = [named_route ''caddy-k8s-shop-web-old'', named_route ''mine'']"

definition live_env :: "config env" where
  "live_env = ref_env ''http://a''"

definition live_routes :: "caddyRoute list" where
  "live_routes = convertIngress live_ingress (Security live_app) (new_annotations live_ingress)"

lemma live_world: "caddy_world live_env (newAdminClient ''a'') (\<lambda>v. v) ok_config ref_valid"
  using ref_world.caddy_world_axioms [of "newAdminClient ''a''"] by (simp add: demo_base live_env_def)

lemma live_prepared: "prepared live_env live_ingress v = (live_ingress, new_annotations live_ingress, v)"
  by code_simp

lemma live_hyps:
  "ok_config live_config" "wired (newAdminClient ''a'') live_app" "isOurs live_app live_ingress"
  "target_server live_app live_ingress = Some ''srv1''" "free_policy live_config live_ingress"
  "[] = redirect_routes live_app live_ingress (new_annotations live_ingress)"
  "owned_ids live_app (ingress_key live_ingress) = [''caddy-k8s-shop-web-old'']"
  "deployable [''caddy-k8s-shop-web-old''] live_routes live_config"
  by code_simp+

lemma live_synced:
  "synced_config ref_valid ''srv1'' (httpServerName live_app) [''caddy-k8s-shop-web-old''] [] live_routes live_config
     = [named_route ''mine'', (''srv1'', route_json (live_routes ! 0))]"
  "map route_id live_routes = [''caddy-k8s-shop-web-h'']"
  by code_simp+

theorem handleAdd_refines_witness:
  "snd (handleAdd live_env live_ingress (live_app, live_config)) = [named_route ''mine'', (''srv1'', route_json (live_routes ! 0))]
   \<and> owned_ids (fst (handleAdd live_env live_ingress (live_app, live_config))) ''shop/web'' = [''caddy-k8s-shop-web-h'']"
proof -
  obtain a' w' where h: "handleAdd live_env live_ingress (live_app, live_config) = (a', w')" by (meson surj_pair)
  have k: "ingress_key live_ingress = ''shop/web''" by code_simp
  have d: "deployable (owned_ids live_app (ingress_key live_ingress)) ([] @ live_routes) live_config"
    using live_hyps(7,8) by simp
  from handleAdd_refines [OF live_world, OF live_hyps(1-5) live_prepared live_hyps(6) live_routes_def refl d h]
  show ?thesis using live_synced live_hyps(7) h k by simp
qed

lemma handleAdd_effect_instance:
  "settled ref_valid ''srv1'' (live_routes ! 0) (snd (handleAdd live_env live_ingress (live_app, live_config)))"
proof -
  obtain a' w' where h: "handleAdd live_env live_ingress (live_app, live_config) = (a', w')" by (meson surj_pair)
  have d: "deployable (owned_ids live_app (ingress_key live_ingress)) ([] @ live_routes) live_config"
    using live_hyps(7,8) by simp
  have "length live_routes = 1" using arg_cong [OF live_synced(2), of length] by simp
  then have "live_routes ! 0 \<in> set live_routes" by simp
  with handleAdd_effect [OF live_world, OF live_hyps(1-5) live_prepared live_hyps(6) live_routes_def refl d h]
  show ?thesis using h by simp
qed

theorem handleAdd_resync_witness:
  "snd (handleAdd live_env live_ingress (handleAdd live_env live_ingress (live_app, live_config)))
     = snd (handleAdd live_env live_ingress (live_app, live_config))"
proof -
  obtain a' w' where 1: "handleAdd live_env live_ingress (live_app, live_config) = (a', w')" by (meson surj_pair)
  obtain a'' w'' where 2: "handleAdd live_env live_ingress (a', w') = (a'', w'')" by (meson surj_pair)
  have d: "deployable (owned_ids live_app (ingress_key live_ingress)) ([] @ live_routes) live_config"
    using live_hyps(7,8) by simp
  have f: "list_all (\<lambda>r. tlsPolicyID live_ingress \<notin> set (json_ids (route_json r))) ([] @ live_routes)"
    by code_simp
  from handleAdd_resync [OF live_world, OF live_hyps(1-5) f live_prepared live_prepared live_hyps(6)
      live_routes_def refl _ d 1 2]
  show ?thesis using 1 2 by simp
qed

theorem handleDelete_refines_witness:
  "snd (handleDelete live_env live_ingress (live_app, live_config)) = [named_route ''mine'']"
proof -
  obtain a' w' where h: "handleDelete live_env live_ingress (live_app, live_config) = (a', w')" by (meson surj_pair)
  have t: "list_all url_safe (owned_ids live_app (ingress_key live_ingress))"
    "list_all (\<lambda>(s, j). tidy (owned_ids live_app (ingress_key live_ingress)) j) live_config"
    "without_ids (owned_ids live_app (ingress_key live_ingress)) live_config = [named_route ''mine'']"
    by code_simp+
  from handleDelete_refines [OF live_world, OF live_hyps(1,2,5) refl t(1,2) h] t(3) h show ?thesis by simp
qed

end
