(* ===== verification/App_Cycle.thy ===== *)
theory App_Cycle
  imports App_Spec
begin

section \<open>An Ingress from its first sync to its deletion\<close>

text \<open>
  The two refinements of \<open>App_Spec\<close> composed: what is left in Caddy's configuration when an Ingress
  has been synced and then deleted.
\<close>

lemma without_ids_synced:
  assumes "deployable owned (reds @ rs) v"
  shows "without_ids (map route_id rs) (synced_config valid s h owned reds rs v)
       = without_ids (owned @ map route_id rs) (synced_config valid s h owned reds rs v)"
  unfolding without_ids_def
  by (rule filter_cong) (use synced_not_stale [OF assms] in \<open>auto simp: list_all_iff image_iff\<close>)

lemma without_ids_fresh:
  "list_all (\<lambda>(s, j). list_all (\<lambda>x. top_id j \<noteq> Some x) xs) v \<Longrightarrow> without_ids xs v = v"
  by (simp add: without_ids_def filter_id_conv list_all_iff)

lemma free_policy_synced:
  assumes "free_policy v ing" "list_all (\<lambda>r. tlsPolicyID ing \<notin> set (json_ids (route_json r))) (reds @ rs)"
  shows "free_policy (synced_config valid s h owned reds rs v) ing"
proof -
  have "tlsPolicyID ing \<notin> set (config_ids (synced_config valid s h owned reds rs v))"
    using assms synced_entries [of _ _ valid s h owned reds rs v]
    by (fastforce simp: free_policy_def config_ids_def list_all_iff)
  then show ?thesis using assms(1) by (simp add: free_policy_def)
qed

text \<open>An Ingress leaves nothing behind. When an Ingress without \<open>ssl-redirect\<close> has been synced and is
  then deleted, Caddy's configuration is the one before the sync without the routes the Ingress
  owned or was given; in particular, an Ingress that was new to the configuration leaves it
  exactly as it was, and the controller owns nothing on its behalf.\<close>

lemma sync_then_delete:
  assumes w: "caddy_world e c view ok valid" "ok w" "wired c a" "isOurs a ing"
    and s: "target_server a ing = Some s"
    and p: "prepared e ing w = (ing', ann, w1)" "redirect_routes a ing' ann = []"
    and rs: "rs = convertIngress ing' (Security a) ann"
    and f: "free_policy (view w) ing" "list_all (\<lambda>r. tlsPolicyID ing \<notin> set (json_ids (route_json r))) rs"
    and dep: "owned = owned_ids a (ingress_key ing)" "deployable owned rs (view w)"
    and run: "handleAdd e ing (a, w) = (a', w')" "handleDelete e ing (a', w') = (a'', w'')"
  shows "view w'' = without_ids (owned @ map route_id rs) (view w) \<and> owned_ids a'' (ingress_key ing) = []
      \<and> (list_all (\<lambda>(s, j). list_all (\<lambda>x. top_id j \<noteq> Some x) (owned @ map route_id rs)) (view w) \<longrightarrow> view w'' = view w)"
proof -
  note held_def = caddy_world.held_def [OF w(1)]
  let ?V = "synced_config valid s (httpServerName a) owned [] rs (view w)"
  have d: "deployable owned ([] @ rs) (view w)" using dep(2) by simp
  have h: "caddy_world.held view ok (view w) w" using w(2) by (simp add: held_def)
  from caddy_world.held_handleAdd [OF w(1), OF h w(3,4) s f(1) p(1) p(2) [symmetric] rs dep(1) d] run(1)
  have h': "caddy_world.held view ok ?V w'" and o: "owned_ids a' (ingress_key ing) = map route_id rs" and w': "wired c a'"
    by auto
  have "free_policy ?V ing" using f by (intro free_policy_synced) simp_all
  moreover have "list_all url_safe (map route_id rs)" "list_all (\<lambda>(s, j). tidy (map route_id rs) j) ?V"
    using deployable_synced [OF d, of valid s "httpServerName a"] by (auto simp: deployable_def list_all_iff)
  ultimately have "view w'' = without_ids (map route_id rs) ?V \<and> owned_ids a'' (ingress_key ing) = []"
    using caddy_world.held_handleDelete [OF w(1), OF h' w' _ o [symmetric]] run(2) by (auto simp: held_def)
  moreover have "without_ids (map route_id rs) ?V = without_ids (owned @ map route_id rs) (view w)"
    using without_ids_synced [OF d] synced_foreign [OF d] by simp
  ultimately show ?thesis by (simp add: without_ids_fresh)
qed

text \<open>The Ingress of \<open>App_Spec\<close> with its one old route: the route of someone else stays alone.\<close>

lemma sync_then_delete_instance:
  "snd (handleDelete live_env live_ingress (handleAdd live_env live_ingress (live_app, live_config))) = [named_route ''mine'']"
proof -
  obtain a' w' where 1: "handleAdd live_env live_ingress (live_app, live_config) = (a', w')" by (meson surj_pair)
  obtain a'' w'' where 2: "handleDelete live_env live_ingress (a', w') = (a'', w'')" by (meson surj_pair)
  have d: "deployable (owned_ids live_app (ingress_key live_ingress)) live_routes live_config"
    using live_hyps(7,8) by simp
  have f: "list_all (\<lambda>r. tlsPolicyID live_ingress \<notin> set (json_ids (route_json r))) live_routes"
    and v: "without_ids (owned_ids live_app (ingress_key live_ingress) @ map route_id live_routes) live_config = [named_route ''mine'']"
    by code_simp+
  from sync_then_delete [OF live_world, OF live_hyps(1-4) live_prepared live_hyps(6) [symmetric] live_routes_def
      live_hyps(5) f refl d 1 2] v
  show ?thesis using 1 2 by simp
qed

end
