(* ===== verification/App_Run.thy ===== *)
theory App_Run
  imports App_Spec
begin

section \<open>The controller over many Ingresses and events\<close>

text \<open>
  The refinements of \<open>App_Spec\<close> composed over a sequence of events. The identifiers the Ingresses may
  use are given by \<open>names\<close> (key, identifier) and \<open>red\<close> (redirects); every other entry of Caddy's
  configuration is foreign.
\<close>

subsection \<open>Identifiers and entries\<close>
















subsection \<open>Events whose routes fit\<close>

text \<open>What an Ingress is converted to, in whatever state of the cluster: identifiers that need no
  escaping, each used once, by this Ingress only and not inside a route.\<close>

definition fitting :: "(string \<Rightarrow> bool) \<Rightarrow> (string \<Rightarrow> bool) \<Rightarrow> caddyRoute list \<Rightarrow> caddyRoute list \<Rightarrow> bool" where
  "fitting mine red reds rs =
     (list_all (\<lambda>r. url_safe (route_id r) \<and> exact (route_json r) \<and> json_ids (route_json r) = [route_id r]) (reds @ rs)
      \<and> distinct (map route_id (reds @ rs))
      \<and> list_all (\<lambda>r. mine (route_id r)) rs \<and> list_all (\<lambda>r. red (route_id r)) reds)"







subsection \<open>A sync and a deletion keep ownership and liveness together\<close>








text \<open>What an event does to the controller and to Caddy's configuration: the abstract step that a handler
  refines.\<close>

inductive effect ::
    "validity \<Rightarrow> (string \<Rightarrow> string \<Rightarrow> bool) \<Rightarrow> (string \<Rightarrow> bool) \<Rightarrow> (ingress \<Rightarrow> caddyRoute list \<Rightarrow> bool) \<Rightarrow>
     app_event \<Rightarrow> App \<times> config \<Rightarrow> App \<times> config \<Rightarrow> bool"
  for valid names red conv where
  Skip: "\<not> isOurs a ing \<Longrightarrow> effect valid names red conv (AddIngress ing) (a, v) (a, v)"
| Sync:
    "isOurs a ing \<Longrightarrow> k = ingress_key ing \<Longrightarrow> target_server a ing = Some s \<Longrightarrow> conv ing rs \<Longrightarrow>
     fitting (names k) red reds rs \<Longrightarrow>
     owned_ids a' k = map route_id rs \<Longrightarrow> (\<And>k'. k' \<noteq> k \<Longrightarrow> owned_ids a' k' = owned_ids a k') \<Longrightarrow>
     effect valid names red conv (AddIngress ing) (a, v) (a', synced_config valid s h (owned_ids a k) reds rs v)"
| Remove:
    "k = ingress_key ing \<Longrightarrow> owned_ids a' k = [] \<Longrightarrow> (\<And>k'. k' \<noteq> k \<Longrightarrow> owned_ids a' k' = owned_ids a k') \<Longrightarrow>
     effect valid names red conv (DeleteIngress ing) (a, v) (a', without_ids (owned_ids a k) v)"

inductive_cases effect_AddE: "effect valid names red conv (AddIngress ing) (a, v) (a', v')"
inductive_cases effect_DeleteE: "effect valid names red conv (DeleteIngress ing) (a, v) (a', v')"








lemma named_route_ids [simp]:
  "json_ids (snd (named_route x)) = [x]" "top_id (snd (named_route x)) = Some x"
  by (simp_all add: named_route_def top_id_def obj_def gomap_of_def)





end
