(* ===== verification/App_Start.thy ===== *)
theory App_Start
  imports App_Props
begin

section \<open>Starting the controller\<close>

text \<open>
  Provisioning and \<open>run\<close> up to the informers: the server names, the wait for the HTTPS server, and
  what the controller remembers of the time before a restart.
\<close>

subsection \<open>The names of the servers\<close>

text \<open>What discovery may return for a port: no name, when no named server listens there, or the name
  of one that does.\<close>

definition discovered :: "string \<Rightarrow> (string \<times> string list) list \<Rightarrow> string \<Rightarrow> bool" where
  "discovered port srvs name =
     (if name = [] then list_all (\<lambda>(n, addrs). n = [] \<or> \<not> listens_on port addrs) srvs
      else list_ex (\<lambda>(n, addrs). n = name \<and> listens_on port addrs) srvs)"

lemma discover_discovered: "discovered port srvs (discover port srvs)"
proof (cases "find (\<lambda>(name, addrs). name \<noteq> [] \<and> listens_on port addrs) srvs")
  case None
  then have "discover port srvs = []" by (simp add: discover_def)
  with None show ?thesis by (auto simp: discovered_def find_None_iff list_all_iff)
next
  case (Some x)
  obtain n addrs where x: "x = (n, addrs)" by (cases x)
  with Some have "(n, addrs) \<in> set srvs" "n \<noteq> []" "listens_on port addrs"
    by (auto simp: find_Some_iff in_set_conv_nth)
  with Some x show ?thesis by (auto simp: discovered_def discover_def list_ex_iff)
qed

text \<open>Provisioning as one record.\<close>

definition provisioned_name :: "string \<Rightarrow> string \<Rightarrow> (string \<times> string list) list option \<Rightarrow> string" where
  "provisioned_name configured port hs =
     (if configured \<noteq> [] then configured else (case hs of None \<Rightarrow> [] | Some srvs \<Rightarrow> discover port srvs))"

definition with_defaults :: "App \<Rightarrow> App" where
  "with_defaults a = a\<lparr>IngressClass := default_to ''caddy'' (IngressClass a),
     AdminAPI := default_to ''localhost:2019'' (AdminAPI a),
     Security := (Security a)\<lparr>WAFMode := default_to ''Detection'' (WAFMode (Security a))\<rparr>,
     routeIDs := [], serverName := [], httpServerName := []\<rparr>"

lemma Provision_record:
  assumes "open_store e (with_defaults a) w = (st, w')"
  shows "Provision e hs (a, w) =
     ((with_defaults a)\<lparr>store := st, serverName := provisioned_name (ServerName a) '':443'' hs,
         httpServerName := provisioned_name (HTTPServerName a) '':80'' hs\<rparr>, w')"
  using assms
  by (cases hs; cases "ServerName a = []"; cases "HTTPServerName a = []")
    (simp_all add: Provision_def with_defaults_def Let_def provisioned_name_def)

lemma Provision_store:
  "open_store e (with_defaults a) w =
     (case RedisCfg a of
        None \<Rightarrow> (Memory [], w)
      | Some cfg \<Rightarrow>
          (case newRedisStore e cfg (default_to ''caddy'' (IngressClass a)) w of
             (Inl err, w) \<Rightarrow> (Memory [], w) | (Inr rs, w) \<Rightarrow> (Redis rs, w)))"
  by (simp add: open_store_def newMemoryStore_def with_defaults_def split: option.split sum.split prod.split)

text \<open>After provisioning the names of the two servers are the configured ones where they are
  configured, and otherwise come from the HTTP app: a server that listens on the port, or none
  exactly when no named server does. The class, the admin address and the WAF mode have their
  defaults, no route is owned yet, and a Redis that does not answer is replaced by the memory
  store.\<close>

lemma Provision_settings:
  assumes "Provision e (Some srvs) (a, w) = (a', w')"
  shows "(if ServerName a \<noteq> [] then serverName a' = ServerName a
          else discovered '':443'' srvs (serverName a'))
    \<and> (if HTTPServerName a \<noteq> [] then httpServerName a' = HTTPServerName a
       else discovered '':80'' srvs (httpServerName a'))
    \<and> IngressClass a' = (if IngressClass a = [] then ''caddy'' else IngressClass a)
    \<and> AdminAPI a' = (if AdminAPI a = [] then ''localhost:2019'' else AdminAPI a)
    \<and> Security a' = (Security a)\<lparr>WAFMode := if WAFMode (Security a) = [] then ''Detection'' else WAFMode (Security a)\<rparr>
    \<and> routeIDs a' = []
    \<and> store a' = (case RedisCfg a of
                    None \<Rightarrow> Memory []
                  | Some cfg \<Rightarrow>
                      (case fst (newRedisStore e cfg (IngressClass a') w) of
                         Inl err \<Rightarrow> Memory [] | Inr rs \<Rightarrow> Redis rs))"
proof -
  obtain st v where o: "open_store e (with_defaults a) w = (st, v)" by (meson surj_pair)
  have a': "a' = (with_defaults a)\<lparr>store := st, serverName := provisioned_name (ServerName a) '':443'' (Some srvs),
         httpServerName := provisioned_name (HTTPServerName a) '':80'' (Some srvs)\<rparr>"
    using assms Provision_record [OF o, of "Some srvs"] by simp
  have "st = (case RedisCfg a of
        None \<Rightarrow> Memory []
      | Some cfg \<Rightarrow>
          (case fst (newRedisStore e cfg (IngressClass a') w) of Inl err \<Rightarrow> Memory [] | Inr rs \<Rightarrow> Redis rs))"
    using o unfolding Provision_store by (auto simp: a' with_defaults_def split: option.splits sum.splits prod.splits)
  then show ?thesis
    by (simp add: a' with_defaults_def provisioned_name_def discover_discovered default_to_def)
qed

lemma Provision_settings_instance:
  "serverName (fst (Provision (offline :: unit env) (Some [(''srv1'', ['':80'']), (''srv0'', ['':443''])])
      (demo_app\<lparr>ServerName := [], HTTPServerName := []\<rparr>, ()))) = ''srv0''"
proof -
  let ?a = "demo_app\<lparr>ServerName := [], HTTPServerName := []\<rparr>"
  obtain a' w' where p: "Provision (offline :: unit env) (Some [(''srv1'', ['':80'']), (''srv0'', ['':443''])]) (?a, ()) = (a', w')"
    by (meson surj_pair)
  from Provision_settings [OF p] have "discovered '':443'' [(''srv1'', ['':80'']), (''srv0'', ['':443''])] (serverName a')"
    by simp
  then show ?thesis
    using p by (auto simp: discovered_def listens_on_def HasSuffix_def suffix_to_prefix split: if_splits)
qed

subsection \<open>Waiting for the HTTPS server\<close>

text \<open>C24: The wait for the HTTPS server ends: when a poll succeeds after any number of failed ones, with
  the pauses between them not interrupted, \<open>run\<close> goes on with the name that poll found; when the
  module is stopped during a pause, the wait ends without a name.\<close>

theorem poll_server_ends:
  assumes "\<forall>i < k. \<exists>err v. resolveServerName e c hint '':443'' (ws i) = (Inl err, v) \<and> backoff e 4 v = (None, ws (Suc i))"
    and "resolveServerName e c hint '':443'' (ws k) = (Inr name, w') \<and> found = Some name
      \<or> (\<exists>err v stop. resolveServerName e c hint '':443'' (ws k) = (Inl err, v) \<and> backoff e 4 v = (Some stop, w') \<and> found = None)"
  shows "poll_server e c hint (ws 0) = Some (found, w')"
  using assms
proof (induction k arbitrary: ws)
  case 0
  then show ?case by (auto simp: poll_server.simps [of e c hint "ws 0"])
next
  case (Suc k)
  then obtain err v where 0: "resolveServerName e c hint '':443'' (ws 0) = (Inl err, v)" "backoff e 4 v = (None, ws 1)"
    by (metis One_nat_def zero_less_Suc)
  have "poll_server e c hint (ws (Suc 0)) = Some (found, w')"
    by (rule Suc.IH [of "\<lambda>i. ws (Suc i)"]) (use Suc.prems in auto)
  with 0 show ?case by (simp add: poll_server.simps [of e c hint "ws 0"])
qed

text \<open>A Caddy whose admin API comes up at the third request.\<close>

definition late_env :: "nat env" where
  "late_env = (offline :: nat env)\<lparr>
     http_do := (\<lambda>rq w. (if w < 2 then Inl ''connection refused'' else Inr \<lparr>status = 200, resp_body = ''x''\<rparr>, Suc w)),
     json_unmarshal := (\<lambda>s. Inr (obj [(''srv0'', obj [(''listen'', JStrs ['':443''])])]))\<rparr>"

theorem poll_server_ends_witness:
  "poll_server late_env (newAdminClient ''a'') [] 0 = Some (Some ''srv0'', 3)"
proof -
  have d: "decode_servers (obj [(''srv0'', obj [(''listen'', JStrs ['':443''])])]) = Some [(''srv0'', ['':443''])]"
    by code_simp
  have fail: "\<exists>err. resolveServerName late_env (newAdminClient ''a'') [] '':443'' w = (Inl err, Suc w)" if "w < 2" for w
    using that by (simp add: resolveServerName_def late_env_def offline_def)
  have ok: "resolveServerName late_env (newAdminClient ''a'') [] '':443'' 2 = (Inr ''srv0'', 3)"
    using d by (simp add: resolveServerName_def late_env_def offline_def find_server_def listens_on_def HasSuffix_def)
  show ?thesis
    by (rule poll_server_ends [where k = 2 and ws = "\<lambda>i. i"]) (use fail ok in \<open>auto simp: late_env_def offline_def\<close>)
qed

subsection \<open>After a restart\<close>

lemma run_startup_named:
  assumes "serverName a \<noteq> []" "httpServerName a \<noteq> []" "restore_routes e (a, w) = (a1, w1)"
  shows "\<exists>a' w'. run_startup e (a, w) = Some (Some a', w') \<and> routeIDs a' = routeIDs a1
    \<and> serverName a' = serverName a1 \<and> httpServerName a' = httpServerName a1 \<and> store a' = store a1"
  using assms
  by (auto simp: run_startup_def resolve_http_def start_access_log_def Let_def split: prod.split)

text \<open>C23: The ownership of routes survives a restart with Redis: a controller with configured server
  names that is provisioned and started owns, for every Ingress, exactly what the database
  holds under its class.\<close>

theorem startup_restores_ownership:
  assumes "pre = ''k8s_ingress:'' @ default_to ''caddy'' (IngressClass a) @ '':''"
    and r: "redis_backed e kv up pre" "up w" "RedisCfg a = Some cfg"
    and n: "ServerName a \<noteq> []" "HTTPServerName a \<noteq> []"
    and p: "Provision e hs (a, w) = (a1, w1)"
  shows "\<exists>a' w'. run_startup e (a1, w1) = Some (Some a', w')
    \<and> map_of (routeIDs a') = redis_entries e kv pre (Redis \<lparr>keyPrefix = pre\<rparr>, w)
    \<and> serverName a' = ServerName a \<and> httpServerName a' = HTTPServerName a"
proof -
  obtain v where v: "redis_ping e (Address cfg) w = (None, v)" "up v" "kv v = kv w"
    using redis_server.ping_law [OF redis_backed.axioms(1) [OF r(1)] r(2)] by blast
  have "open_store e (with_defaults a) w = (Redis \<lparr>keyPrefix = pre\<rparr>, v)"
    using r(3) v(1) assms(1) by (simp add: Provision_store newRedisStore_def)
  from Provision_record [OF this, of hs] p n
  have a1: "store a1 = Redis \<lparr>keyPrefix = pre\<rparr>" "w1 = v"
    and nm: "serverName a1 = ServerName a" "httpServerName a1 = HTTPServerName a" "routeIDs a1 = []"
    by (auto simp: provisioned_name_def with_defaults_def)
  obtain m st w2 where m: "store_loadAll e (store a1, w1) = (Inr m, st, w2)" "keys_sorted m"
      "map_of m = redis_entries e kv pre (Redis \<lparr>keyPrefix = pre\<rparr>, v)"
    using redis_backed.load_entries [OF r(1) v(2)] a1 by auto
  have e: "redis_entries e kv pre (Redis \<lparr>keyPrefix = pre\<rparr>, v) = redis_entries e kv pre (Redis \<lparr>keyPrefix = pre\<rparr>, w)"
    using v(3) by (simp add: redis_entries_def)
  have "restore_routes e (a1, w1) = (a1\<lparr>store := st, routeIDs := mcopy m []\<rparr>, w2)"
    using m(1) nm(3) by (simp add: restore_routes_def)
  with run_startup_named [of a1 e w1] nm n obtain a' w' where
      "run_startup e (a1, w1) = Some (Some a', w')" "routeIDs a' = mcopy m []"
      "serverName a' = ServerName a" "httpServerName a' = HTTPServerName a"
    by auto
  moreover have "map_of (mcopy m []) = map_of m"
    using m(2) by (auto simp: map_of_mcopy fun_eq_iff split: option.split)
  ultimately show ?thesis using m(3) e by auto
qed

theorem startup_restores_ownership_witness:
  "\<exists>a' w'. run_startup ref_redis (Provision ref_redis None
       (demo_app\<lparr>RedisCfg := Some \<lparr>Address = ''redis:6379'', RedisPassword = [], DB = 0\<rparr>\<rparr>,
        [(''k8s_ingress:caddy:shop/web'', json_text (JStrs [''r1'']))])) = Some (Some a', w')
     \<and> map_of (routeIDs a') ''shop/web'' = Some [''r1'']"
proof -
  let ?cfg = "\<lparr>Address = ''redis:6379'', RedisPassword = [], DB = 0\<rparr>"
  let ?a = "demo_app\<lparr>RedisCfg := Some ?cfg\<rparr>"
  let ?w = "[(''k8s_ingress:caddy:shop/web'', json_text (JStrs [''r1'']))]"
  have pre: "demo_prefix = ''k8s_ingress:'' @ default_to ''caddy'' (IngressClass ?a) @ '':''"
    by (simp add: demo_prefix_def default_to_def demo_app_def)
  have a: "RedisCfg ?a = Some ?cfg" "ServerName ?a \<noteq> []" "HTTPServerName ?a \<noteq> []" "keys_sorted ?w"
    by (simp_all add: demo_app_def keys_sorted_Cons)
  obtain a1 w1 where p: "Provision ref_redis None (?a, ?w) = (a1, w1)" by (meson surj_pair)
  have "redis_entries ref_redis map_of demo_prefix (Redis \<lparr>keyPrefix = demo_prefix\<rparr>, ?w) ''shop/web'' = Some [''r1'']"
    by (simp add: redis_entries_def demo_prefix_def decoded_def ref_redis_def json_parse_text del: json_text.simps)
  with startup_restores_ownership [OF pre ref_redis.redis_backed_axioms a(4) a(1-3) p] p show ?thesis by auto
qed

end
