(* ===== verification/Tls_Race.thy ===== *)
theory Tls_Race
  imports Tls
begin

section \<open>The manager under two threads (tls.go)\<close>

text \<open>
  The informer of the Ingresses and the informer of the Secrets call the manager from a goroutine
  each. A transition is one critical section of the manager's mutex, or the end of a push that
  failed. \<open>loading\<close> is the certificate \<open>LoadFromIngress\<close> has pushed and not recorded yet, \<open>reloading\<close> the one
  \<open>reloadSecret\<close> has; what the API servers answer is left open. The transitions of the two threads
  interleave in any order, those of a thread keep the order of its code.
\<close>

record tls_threads =
  mgr :: TLSManager
  loading :: "tlsCert option"
  reloading :: "tlsCert option"

datatype tls_label =
    TrackRef string string | StoreCert string | DropRef string string
  | PrepareReload string | CommitReload string | FailReload

abbreviation cert_key :: "tlsCert \<Rightarrow> string" where
  "cert_key crt \<equiv> object_key (secretNamespace crt) (certSecretName crt)"

definition idle :: "TLSManager \<Rightarrow> tls_threads" where
  "idle m = \<lparr>mgr = m, loading = None, reloading = None\<rparr>"

text \<open>The Ingress thread: \<open>LoadFromIngress\<close> tracks a reference and goes on to the next entry when the
  Secret is of no use or the push fails; otherwise it records the certificate next.
  \<open>RemoveFromIngress\<close> drops a reference.\<close>

inductive ingress_thread :: "tls_threads \<Rightarrow> tls_label \<Rightarrow> tls_threads \<Rightarrow> bool" where
  Track_skip:
    "loading st = None \<Longrightarrow> ingress_thread st (TrackRef k i) (st\<lparr>mgr := track_ref k i (mgr st)\<rparr>)"
| Track_pushed:
    "loading st = None \<Longrightarrow> crt = secret_cert ns nm hs s \<Longrightarrow> cert_pem crt \<noteq> [] \<Longrightarrow> key_pem crt \<noteq> [] \<Longrightarrow>
     ingress_thread st (TrackRef (object_key ns nm) i)
       (st\<lparr>mgr := track_ref (object_key ns nm) i (mgr st), loading := Some crt\<rparr>)"
| Store:
    "loading st = Some crt \<Longrightarrow>
     ingress_thread st (StoreCert (cert_key crt)) (st\<lparr>mgr := store_cert (cert_key crt) crt (mgr st), loading := None\<rparr>)"
| Drop:
    "loading st = None \<Longrightarrow> ingress_thread st (DropRef k i) (st\<lparr>mgr := drop_ref k i (mgr st)\<rparr>)"

text \<open>The Secret thread: \<open>reloadSecret\<close> reads the old certificate, pushes the new one, and records it
  when the push succeeded. The check in the callback of \<open>WatchSecrets\<close> comes before and is repeated by
  \<open>reload_prepare\<close>.\<close>

inductive secret_thread :: "tls_threads \<Rightarrow> tls_label \<Rightarrow> tls_threads \<Rightarrow> bool" where
  Prepare:
    "reloading st = None \<Longrightarrow> reload_prepare ns nm s (mgr st) = Some crt \<Longrightarrow>
     secret_thread st (PrepareReload (object_key ns nm)) (st\<lparr>reloading := Some crt\<rparr>)"
| Commit:
    "reloading st = Some crt \<Longrightarrow>
     secret_thread st (CommitReload (cert_key crt)) (st\<lparr>mgr := reload_commit crt (mgr st), reloading := None\<rparr>)"
| Fail:
    "reloading st = Some crt \<Longrightarrow> secret_thread st FailReload (st\<lparr>reloading := None\<rparr>)"

inductive tls_trans :: "tls_threads \<Rightarrow> tls_label \<Rightarrow> tls_threads \<Rightarrow> bool" where
  Ingress: "ingress_thread st l st' \<Longrightarrow> tls_trans st l st'"
| Secret: "secret_thread st l st' \<Longrightarrow> tls_trans st l st'"

lemmas ingress_steps = ingress_thread.intros [THEN tls_trans.Ingress]
lemmas secret_steps = secret_thread.intros [THEN tls_trans.Secret]

inductive tls_run :: "tls_threads \<Rightarrow> tls_label list \<Rightarrow> tls_threads \<Rightarrow> bool" for st0 where
  Start: "tls_run st0 [] st0"
| Step: "tls_run st0 ls st \<Longrightarrow> tls_trans st l st' \<Longrightarrow> tls_run st0 (ls @ [l]) st'"

lemma tls_run_trans: "tls_run st1 ls' st2 \<Longrightarrow> tls_run st0 ls st1 \<Longrightarrow> tls_run st0 (ls @ ls') st2"
  by (induction rule: tls_run.induct) (auto simp flip: append_assoc intro: tls_run.intros)

lemma tls_run_one: "tls_trans st l st' \<Longrightarrow> tls_run st [l] st'"
  using tls_run.Step [OF tls_run.Start] by fastforce

subsection \<open>The handlers are runs\<close>

text \<open>Each operation of \<open>Tls\<close>, run undisturbed, is a run of transitions with both threads idle at its
  ends, whatever the world answers.\<close>

definition connected :: "TLSManager \<Rightarrow> TLSManager \<Rightarrow> bool" where
  "connected m m' = (\<exists>ls. tls_run (idle m) ls (idle m'))"

lemma connected_refl [simp]: "connected m m"
  unfolding connected_def by (blast intro: tls_run.Start)

lemma connected_trans: "connected m m' \<Longrightarrow> connected m' m'' \<Longrightarrow> connected m m''"
  unfolding connected_def by (blast intro: tls_run_trans)

lemma connected_track: "connected m (track_ref k i m)"
  using tls_run_one [OF ingress_steps(1), of "idle m" k i] by (auto simp: connected_def idle_def)

lemma connected_drop: "connected m (drop_ref k i m)"
  using tls_run_one [OF ingress_steps(4), of "idle m" k i] by (auto simp: connected_def idle_def)

lemma connected_store:
  assumes "crt = secret_cert ns nm hs s" "cert_pem crt \<noteq> []" "key_pem crt \<noteq> []"
  shows "connected m (store_cert (object_key ns nm) crt (track_ref (object_key ns nm) i m))"
proof -
  let ?st = "(idle m)\<lparr>mgr := track_ref (object_key ns nm) i m, loading := Some crt\<rparr>"
  have "tls_run (idle m) [TrackRef (object_key ns nm) i] ?st"
    using tls_run_one [OF ingress_steps(2) [of "idle m", OF _ assms]] by (simp add: idle_def)
  from tls_run.Step [OF this ingress_steps(3) [of _ crt]] assms(1) show ?thesis
    by (auto simp: connected_def idle_def)
qed

lemma connected_reload:
  assumes "reload_prepare ns nm s m = Some crt"
  shows "connected m (reload_commit crt m)"
proof -
  have "tls_run (idle m) [PrepareReload (object_key ns nm)] ((idle m)\<lparr>reloading := Some crt\<rparr>)"
    using tls_run_one [OF secret_steps(1) [of "idle m"]] assms by (simp add: idle_def)
  from tls_run.Step [OF this secret_steps(2) [of _ crt]] show ?thesis
    by (auto simp: connected_def idle_def)
qed

lemma connected_fold:
  "(\<And>x s. connected (f s) (f (g x s))) \<Longrightarrow> connected (f s) (f (fold g xs s))"
  by (induction xs arbitrary: s) (auto intro: connected_trans)

lemma connected_load_entry: "connected (fst mw) (fst (load_entry e ing t mw))"
  by (cases mw)
    (auto simp: load_entry_cases Let_def connected_track intro!: connected_store split: prod.split sum.split)

lemma connected_remove_entry: "connected m (remove_entry ing t m)"
  by (simp add: remove_entry_def connected_drop)

lemma connected_step: "connected (fst mw) (fst (tls_step e ev mw))"
proof (cases ev)
  case (LoadIngress ing)
  show ?thesis
    using connected_fold [where f = fst, OF connected_load_entry] by (simp add: LoadIngress tls_step_def LoadFromIngress_def)
next
  case (RemoveIngress ing)
  show ?thesis
    using connected_fold [where f = "\<lambda>m. m", OF connected_remove_entry] by (simp add: RemoveIngress tls_step_def RemoveFromIngress_def)
next
  case (SecretUpdate ns nm s)
  then show ?thesis
    by (cases mw)
      (auto simp: tls_step_def WatchSecrets_update_def reloadSecret_def intro: connected_reload
        split: prod.split option.split)
qed

lemma handlers_are_runs: "\<exists>ls. tls_run (idle (fst mw)) ls (idle (fst (fold (tls_step e) evs mw)))"
  using connected_fold [where f = fst and g = "tls_step e", OF connected_step] by (simp add: connected_def)

subsection \<open>The reload race\<close>

text \<open>A reload has been prepared and not ended since; some reference to its Secret has been dropped
  meanwhile; such a reload was committed.\<close>

definition reload_quiet :: "tls_label list \<Rightarrow> bool" where
  "reload_quiet ls = list_all (\<lambda>l. case l of TrackRef k i \<Rightarrow> True | StoreCert k \<Rightarrow> True | DropRef k i \<Rightarrow> True | _ \<Rightarrow> False) ls"

definition preparing :: "string \<Rightarrow> tls_label list \<Rightarrow> bool" where
  "preparing k ls = (\<exists>as bs. ls = as @ PrepareReload k # bs \<and> reload_quiet bs)"

definition racing :: "string \<Rightarrow> tls_label list \<Rightarrow> bool" where
  "racing k ls = (\<exists>as bs i. ls = as @ PrepareReload k # bs \<and> reload_quiet bs \<and> DropRef k i \<in> set bs)"

definition raced :: "string \<Rightarrow> tls_label list \<Rightarrow> bool" where
  "raced k ls = (\<exists>as bs cs i. ls = as @ PrepareReload k # bs @ CommitReload k # cs \<and> reload_quiet bs \<and> DropRef k i \<in> set bs)"

lemma reload_quiet_snoc [simp]: "reload_quiet (ls @ [l]) \<longleftrightarrow> reload_quiet ls \<and> reload_quiet [l]"
  by (auto simp: reload_quiet_def)

lemma preparing_now [intro]: "preparing k (ls @ [PrepareReload k])"
  by (force simp: preparing_def reload_quiet_def)

lemma preparing_snoc: "preparing k ls \<Longrightarrow> reload_quiet [l] \<Longrightarrow> preparing k (ls @ [l])"
  unfolding preparing_def by (metis append.assoc append_Cons reload_quiet_snoc)

lemma racing_snoc: "racing k ls \<Longrightarrow> reload_quiet [l] \<Longrightarrow> racing k (ls @ [l])"
  unfolding racing_def by (metis Un_iff append.assoc append_Cons reload_quiet_snoc set_append)

lemma racing_drop: "preparing k ls \<Longrightarrow> racing k (ls @ [DropRef k i])"
  unfolding preparing_def racing_def
  by (elim exE conjE, rename_tac as bs, rule_tac x = as in exI, rule_tac x = "bs @ [DropRef k i]" in exI)
    (auto simp: reload_quiet_def)

lemma raced_snoc: "raced k ls \<Longrightarrow> raced k (ls @ [l])"
  unfolding raced_def by (metis append.assoc append_Cons)

lemma raced_commit: "racing k ls \<Longrightarrow> raced k (ls @ [CommitReload k])"
  unfolding raced_def racing_def by (metis append.assoc append_Cons)

lemmas race_intros = preparing_snoc racing_snoc racing_drop raced_snoc raced_commit

subsection \<open>What holds in every reachable state\<close>

lemma referenced_simps [simp]:
  "map_of (secretToIngress (store_cert k' crt m)) k = map_of (secretToIngress m) k"
  "map_of (secretToIngress m) k = Some refs \<Longrightarrow> \<exists>refs. map_of (secretToIngress (track_ref k' i m)) k = Some refs"
  "map_of (secretToIngress m) k = Some refs \<Longrightarrow> k \<noteq> k' \<Longrightarrow> \<exists>refs. map_of (secretToIngress (drop_ref k' i m)) k = Some refs"
  by (auto simp: store_cert_def track_ref_def drop_ref_def Let_def map_of_mput map_of_mdel split: option.split)

lemma tls_inv_but_snoc: "tls_inv_but (\<lambda>k. raced k ls) m \<Longrightarrow> tls_inv_but (\<lambda>k. raced k (ls @ [l])) m"
  by (erule tls_inv_but_mono) (rule raced_snoc)

definition reload_ok :: "tls_label list \<Rightarrow> TLSManager \<Rightarrow> tlsCert \<Rightarrow> bool" where
  "reload_ok ls m crt =
     (cert_wf (cert_key crt) crt \<and> preparing (cert_key crt) ls
      \<and> (referenced (cert_key crt) m \<or> racing (cert_key crt) ls \<or> raced (cert_key crt) ls))"

text \<open>A step of the Ingress thread keeps what is known of a pending reload; dropping its reference
  starts the race.\<close>

lemma reload_ok_snoc:
  assumes "reload_ok ls m crt" "reload_quiet [l]"
    and "referenced (cert_key crt) m \<Longrightarrow> referenced (cert_key crt) m' \<or> (\<exists>i. l = DropRef (cert_key crt) i)"
  shows "reload_ok (ls @ [l]) m' crt"
  using assms race_intros unfolding reload_ok_def by blast

definition thread_inv :: "tls_label list \<Rightarrow> tls_threads \<Rightarrow> bool" where
  "thread_inv ls st =
     (tls_inv_but (\<lambda>k. raced k ls) (mgr st)
      \<and> (\<forall>crt. loading st = Some crt \<longrightarrow> cert_wf (cert_key crt) crt \<and> referenced (cert_key crt) (mgr st))
      \<and> (\<forall>crt. reloading st = Some crt \<longrightarrow> reload_ok ls (mgr st) crt))"

lemma thread_inv_ingress: "ingress_thread st l st' \<Longrightarrow> thread_inv ls st \<Longrightarrow> thread_inv (ls @ [l]) st'"
proof (induction rule: ingress_thread.induct)
  case (Track_skip st k i)
  then show ?case
    by (auto simp: thread_inv_def reload_quiet_def intro!: tls_inv_but_track tls_inv_but_snoc elim!: reload_ok_snoc)
next
  case (Track_pushed st crt ns nm hs s i)
  then show ?case
    by (auto simp: thread_inv_def reload_quiet_def cert_wf_def intro!: tls_inv_but_track tls_inv_but_snoc elim!: reload_ok_snoc)
next
  case (Store st crt)
  then show ?case
    by (auto simp: thread_inv_def reload_quiet_def intro!: tls_inv_but_store tls_inv_but_snoc elim!: reload_ok_snoc)
next
  case (Drop st k i)
  then show ?case
    by (auto simp: thread_inv_def reload_quiet_def intro!: tls_inv_but_drop tls_inv_but_snoc elim!: reload_ok_snoc)
qed

lemma thread_inv_secret: "secret_thread st l st' \<Longrightarrow> thread_inv ls st \<Longrightarrow> thread_inv (ls @ [l]) st'"
proof (induction rule: secret_thread.induct)
  case (Prepare st ns nm s crt)
  have "map_of (managedCerts (mgr st)) (object_key ns nm) \<noteq> None" and wf: "cert_wf (object_key ns nm) crt"
    and k: "cert_key crt = object_key ns nm"
    using reload_prepare_Some [OF Prepare(2)] by auto
  then have "referenced (object_key ns nm) (mgr st) \<or> raced (object_key ns nm) (ls @ [PrepareReload (object_key ns nm)])"
    using Prepare(3) raced_snoc by (fastforce simp: thread_inv_def tls_inv_but_iff)
  with Prepare wf k show ?case
    by (auto simp: thread_inv_def reload_ok_def intro!: tls_inv_but_snoc)
next
  case (Commit st crt)
  then have "reload_ok ls (mgr st) crt" by (simp add: thread_inv_def)
  then have "referenced (cert_key crt) (mgr st) \<or> raced (cert_key crt) (ls @ [CommitReload (cert_key crt)])"
    and "cert_wf (cert_key crt) crt"
    using race_intros unfolding reload_ok_def by blast+
  then have "tls_inv_but (\<lambda>k. raced k (ls @ [CommitReload (cert_key crt)])) (reload_commit crt (mgr st))"
    using Commit(2) unfolding reload_commit_def thread_inv_def by (intro tls_inv_but_store tls_inv_but_snoc) blast+
  with Commit show ?case by (auto simp: thread_inv_def reload_commit_def)
next
  case (Fail st crt)
  then show ?case by (auto simp: thread_inv_def intro: tls_inv_but_snoc)
qed

lemma thread_inv_run: "tls_run st0 ls st \<Longrightarrow> thread_inv [] st0 \<Longrightarrow> thread_inv ls st"
  by (induction rule: tls_run.induct) (auto elim!: tls_trans.cases intro: thread_inv_ingress thread_inv_secret)

lemma thread_inv_start: "thread_inv [] (idle (newTLSManager adminAPI))"
  by (simp add: thread_inv_def idle_def tls_inv_but_def newTLSManager_def)

text \<open>C33: Whatever the two informers' threads and the API servers do, in every reachable state of the
  manager each certificate is complete, is filed under its own Secret, and is referred to by an
  Ingress unless a reload of this very Secret was prepared before the last reference was
  dropped and committed after. That is the only way in which a removed certificate comes back:
  without such a race the manager's invariant holds.\<close>

theorem only_reload_race_orphans:
  assumes "tls_run (idle (newTLSManager adminAPI)) ls st"
  shows "tls_inv_but (\<lambda>k. raced k ls) (mgr st) \<and> ((\<forall>k. \<not> raced k ls) \<longrightarrow> tls_inv (mgr st))"
proof -
  have "tls_inv_but (\<lambda>k. raced k ls) (mgr st)"
    using thread_inv_run [OF assms thread_inv_start] by (simp add: thread_inv_def)
  then show ?thesis by (auto simp: tls_inv_def elim: tls_inv_but_mono)
qed

subsection \<open>The race happens\<close>

text \<open>A Secret is loaded for an Ingress and changes; while the new certificate is being pushed, the
  Ingress is deleted.\<close>

definition race_secret :: secret where
  "race_secret = \<lparr>secret_type = ''kubernetes.io/tls'', secret_data = [(''tls.crt'', ''c''), (''tls.key'', ''k'')]\<rparr>"

definition race_cert :: tlsCert where
  "race_cert = secret_cert ''shop'' ''crt'' [] race_secret"

definition race_labels :: "tls_label list" where
  "race_labels =
     [TrackRef ''shop/crt'' ''shop/web'', StoreCert ''shop/crt'', PrepareReload ''shop/crt'',
      DropRef ''shop/crt'' ''shop/web'', CommitReload ''shop/crt'']"

definition race_end :: TLSManager where
  "race_end = reload_commit race_cert (drop_ref ''shop/crt'' ''shop/web'' (store_cert ''shop/crt'' race_cert
     (track_ref ''shop/crt'' ''shop/web'' (newTLSManager ''a''))))"

lemma race_orphan: "managedCerts race_end = [(''shop/crt'', race_cert)]" "secretToIngress race_end = []" "\<not> tls_inv race_end"
  by code_simp+

lemma race_run: "tls_run (idle (newTLSManager ''a'')) race_labels (idle race_end)"
proof -
  let ?m0 = "newTLSManager ''a''"
  let ?m1 = "track_ref ''shop/crt'' ''shop/web'' ?m0"
  let ?m2 = "store_cert ''shop/crt'' race_cert ?m1"
  let ?m3 = "drop_ref ''shop/crt'' ''shop/web'' ?m2"
  have k: "object_key ''shop'' ''crt'' = ''shop/crt''" "cert_key race_cert = ''shop/crt''"
    and pem: "cert_pem race_cert \<noteq> []" "key_pem race_cert \<noteq> []"
    and prep: "reload_prepare ''shop'' ''crt'' race_secret ?m2 = Some race_cert"
    by code_simp+
  have "tls_run (idle ?m0) ([] @ [TrackRef ''shop/crt'' ''shop/web'']) ((idle ?m1)\<lparr>loading := Some race_cert\<rparr>)"
    using tls_run.Step [OF tls_run.Start ingress_steps(2) [of "idle ?m0", OF _ race_cert_def pem]]
    by (simp add: idle_def k)
  then have "tls_run (idle ?m0) [TrackRef ''shop/crt'' ''shop/web'', StoreCert ''shop/crt''] (idle ?m2)"
    using tls_run.Step [OF _ ingress_steps(3) [of _ race_cert]] by (fastforce simp: idle_def k)
  then have "tls_run (idle ?m0) [TrackRef ''shop/crt'' ''shop/web'', StoreCert ''shop/crt'', PrepareReload ''shop/crt''] ((idle ?m2)\<lparr>reloading := Some race_cert\<rparr>)"
    using tls_run.Step [OF _ secret_steps(1) [of _ "''shop''" "''crt''" race_secret race_cert]] prep by (fastforce simp: idle_def k)
  then have "tls_run (idle ?m0) [TrackRef ''shop/crt'' ''shop/web'', StoreCert ''shop/crt'', PrepareReload ''shop/crt'',
      DropRef ''shop/crt'' ''shop/web''] ((idle ?m3)\<lparr>reloading := Some race_cert\<rparr>)"
    using tls_run.Step [OF _ ingress_steps(4) [of _ "''shop/crt''" "''shop/web''"]] by (fastforce simp: idle_def)
  then show ?thesis
    using tls_run.Step [OF _ secret_steps(2) [of _ race_cert]] by (fastforce simp: idle_def k race_labels_def race_end_def)
qed

theorem only_reload_race_orphans_witness: "raced ''shop/crt'' race_labels \<and> \<not> tls_inv race_end"
  using only_reload_race_orphans [OF race_run] race_orphan by (simp add: idle_def tls_inv_but_def)

end
