(* ===== verification/Tls_Caddy.thy ===== *)
theory Tls_Caddy
  imports Tls Admin_Props
begin

section \<open>The certificates Caddy holds (tls.go)\<close>

text \<open>
  The other side of the pushes of \<open>Tls\<close>: the value of \<open>apps/tls/certificates\<close> in Caddy's
  configuration. The contract \<open>cert_endpoint\<close> is Caddy's documentation of POST on a configuration
  path whose value is an object: the object is created or replaced. Arrays alone are appended
  to.
\<close>

definition certs_path :: string where
  "certs_path = ''/config/apps/tls/certificates''"

text \<open>\<open>certs\<close> is the value at the path, \<open>None\<close> before there is one.\<close>

locale cert_endpoint =
  fixes e :: "'w env" and c :: adminClient and certs :: "'w \<Rightarrow> json option"
  assumes codec: "canonical j \<Longrightarrow> \<exists>t. json_marshal e j = Inr t \<and> json_unmarshal e t = Inr j"
    and replace: "json_unmarshal e t = Inr (JObj m) \<Longrightarrow>
      http_do e (write_request c ''POST'' certs_path (Some t)) w = (x, w') \<Longrightarrow>
      certs w' = (if accepted x then Some (JObj m) else certs w)"
    and secrets: "get_secret e ns nm w = (y, w') \<Longrightarrow> certs w' = certs w"
begin

lemma payload_object: "canonical (cert_payload crt)" "\<exists>m. cert_payload crt = JObj m"
proof -
  show "canonical (cert_payload crt)"
    unfolding cert_payload_def by (intro canonical_obj) (simp add: canonical_obj)
  show "\<exists>m. cert_payload crt = JObj m" by (simp add: cert_payload_def obj_def)
qed

text \<open>A push that succeeds leaves this one certificate, a push that fails what there was.\<close>

lemma push_certs:
  assumes "pushCertToCaddy e c crt w = (err, w')"
  shows "certs w' = (if err = None then Some (cert_payload crt) else certs w)"
proof -
  obtain t m where t: "json_marshal e (cert_payload crt) = Inr t" "json_unmarshal e t = Inr (JObj m)"
      "cert_payload crt = JObj m"
    using codec payload_object by metis
  have d: "do_request e c ''POST'' certs_path (Some t) w = (err, w')"
    using assms t(1) by (simp add: pushCertToCaddy_def postJSON_def certs_path_def)
  show ?thesis
  proof (cases "new_request e ''POST'' (base c @ certs_path)")
    case None
    obtain x w1 where h: "http_do e (write_request c ''POST'' certs_path (Some t)) w = (x, w1)" by (meson surj_pair)
    then have "w' = w1 \<and> (err = None \<longleftrightarrow> accepted x)"
      using d None by (auto simp: do_request_def write_request_def accepted_def split: sum.splits if_splits)
    with replace [OF t(2) h] t(3) show ?thesis by simp
  qed (use d in \<open>auto simp: do_request_def\<close>)
qed

text \<open>So whatever happens, Caddy holds at most one of the manager's certificates.\<close>

definition single :: "json option \<Rightarrow> json option \<Rightarrow> bool" where
  "single v0 v = (v = v0 \<or> (\<exists>crt. v = Some (cert_payload crt)))"

lemma single_push: "pushCertToCaddy e c crt w = (err, w') \<Longrightarrow> single v0 (certs w) \<Longrightarrow> single v0 (certs w')"
  using push_certs [of crt w err w'] by (auto simp: single_def)

lemma single_push_via:
  "pushCertToCaddy e (newAdminClient x) crt w = (err, w') \<Longrightarrow> c = newAdminClient x \<Longrightarrow> single v0 (certs w) \<Longrightarrow> single v0 (certs w')"
  using single_push by blast

definition talks :: "json option \<Rightarrow> TLSManager \<times> 'w \<Rightarrow> bool" where
  "talks v0 mw = (newAdminClient (tls_adminAPI (fst mw)) = c \<and> single v0 (certs (snd mw)))"

lemma talks_load_entry: "talks v0 mw \<Longrightarrow> talks v0 (load_entry e ing t mw)"
proof -
  assume k: "talks v0 mw"
  obtain m w where mw: "mw = (m, w)" by (cases mw)
  obtain y w1 where y: "get_secret e (ing_namespace ing) (secretName t) w = (y, w1)" by (meson surj_pair)
  then have "single v0 (certs w1)" using k mw secrets [OF y] by (simp add: talks_def)
  moreover have "newAdminClient (tls_adminAPI m) = c" using k mw by (simp add: talks_def)
  ultimately show ?thesis
    using k unfolding mw load_entry_def Let_def
    by (auto simp: talks_def y track_ref_def store_cert_def split: prod.split sum.split option.split dest: single_push_via)
qed

lemma talks_reload: "talks v0 mw \<Longrightarrow> talks v0 (reloadSecret e ns nm s mw)"
  by (cases mw)
    (auto simp: talks_def reloadSecret_def reload_commit_def store_cert_def split: prod.split option.split dest: single_push_via)

lemma talks_remove: "tls_adminAPI (RemoveFromIngress ing m) = tls_adminAPI m"
proof -
  have "tls_adminAPI (fold (remove_entry ing) ts m) = tls_adminAPI m" for ts
    by (induction ts arbitrary: m) (auto simp: remove_entry_def drop_ref_def Let_def split: option.splits)
  then show ?thesis by (simp add: RemoveFromIngress_def)
qed

lemma talks_step: "talks v0 mw \<Longrightarrow> talks v0 (tls_step e ev mw)"
proof (cases ev)
  case (LoadIngress ing)
  have "talks v0 mw \<Longrightarrow> talks v0 (fold (load_entry e ing) ts mw)" for ts
    by (induction ts arbitrary: mw) (simp_all add: talks_load_entry)
  then show "talks v0 mw \<Longrightarrow> ?thesis" by (simp add: LoadIngress tls_step_def LoadFromIngress_def)
next
  case (SecretUpdate ns nm s)
  then show "talks v0 mw \<Longrightarrow> ?thesis"
    by (cases mw) (auto simp: tls_step_def WatchSecrets_update_def talks_reload)
qed (simp add: tls_step_def talks_def talks_remove)

lemma talks_run: "talks v0 mw \<Longrightarrow> talks v0 (fold (tls_step e) evs mw)"
  by (induction evs arbitrary: mw) (simp_all add: talks_step)

end

text \<open>C34: Certificates replace each other. Under Caddy's documented POST, after any sequence of Ingress
  loads and removals and Secret updates, whatever the servers answer, Caddy's certificate object is
  either the one from before or consists of a single certificate of the manager, however many the
  manager has loaded and believes to be live.\<close>

theorem certificates_replace_each_other:
  assumes "cert_endpoint e c certs" "newAdminClient adminAPI = c"
    and "fold (tls_step e) evs (newTLSManager adminAPI, w) = (m', w')"
  shows "certs w' = certs w \<or> (\<exists>crt. certs w' = Some (cert_payload crt))"
proof -
  have "cert_endpoint.talks c certs (certs w) (newTLSManager adminAPI, w)"
    using assms(2) by (simp add: cert_endpoint.talks_def [OF assms(1)] cert_endpoint.single_def [OF assms(1)] newTLSManager_def)
  from cert_endpoint.talks_run [OF assms(1) this, of evs] assms(3) show ?thesis
    by (simp add: cert_endpoint.talks_def [OF assms(1)] cert_endpoint.single_def [OF assms(1)])
qed

subsection \<open>A server that keeps the object\<close>

text \<open>Every Secret holds its own name as certificate and key.\<close>

definition cert_http :: "string \<Rightarrow> request \<Rightarrow> json option \<Rightarrow> (go_error + response) \<times> json option" where
  "cert_http b rq v =
     (if rq_method rq = ''POST'' \<and> rq_url rq = b @ certs_path
      then (case rq_body rq of
              None \<Rightarrow> (Inr \<lparr>status = 400, resp_body = []\<rparr>, v)
            | Some t \<Rightarrow>
                (case json_parse t of
                   None \<Rightarrow> (Inr \<lparr>status = 400, resp_body = []\<rparr>, v)
                 | Some j \<Rightarrow> (Inr \<lparr>status = 200, resp_body = []\<rparr>, Some j)))
      else (Inr \<lparr>status = 404, resp_body = []\<rparr>, v))"

definition cert_env :: "string \<Rightarrow> (json option) env" where
  "cert_env b = (offline :: (json option) env)\<lparr>http_do := cert_http b,
     json_marshal := (\<lambda>j. Inr (json_text j)),
     json_unmarshal := (\<lambda>s. case json_parse s of None \<Rightarrow> Inl ''invalid JSON'' | Some j \<Rightarrow> Inr j),
     get_secret := (\<lambda>ns nm w. (Inr \<lparr>secret_type = ''kubernetes.io/tls'', secret_data = [(''tls.crt'', nm), (''tls.key'', nm)]\<rparr>, w))\<rparr>"

interpretation cert_server: cert_endpoint "cert_env (base c)" c "\<lambda>v. v" for c
proof unfold_locales
  fix t m w x w'
  assume "json_unmarshal (cert_env (base c)) t = Inr (JObj m)"
    and "http_do (cert_env (base c)) (write_request c ''POST'' certs_path (Some t)) w = (x, w')"
  then show "w' = (if accepted x then Some (JObj m) else w)"
    by (auto simp: cert_env_def cert_http_def write_request_def accepted_def split: option.splits)
qed (auto simp: cert_env_def json_parse_text)

text \<open>An Ingress with two Secrets: the manager has both certificates, Caddy one, the second.\<close>

definition two_secrets :: "TLSManager \<times> json option" where
  "two_secrets = fold (tls_step (cert_env ''http://a'')) [LoadIngress (tls_ingress [''one'', ''two''])] (newTLSManager ''a'', None)"

lemma two_secrets_loaded:
  "map fst (managedCerts (fst two_secrets)) = [''shop/one'', ''shop/two'']"
  "snd two_secrets = Some (cert_payload (secret_cert ''shop'' ''two'' [''shop.example'']
     \<lparr>secret_type = ''kubernetes.io/tls'', secret_data = [(''tls.crt'', ''two''), (''tls.key'', ''two'')]\<rparr>))"
  by code_simp+

theorem certificates_replace_each_other_witness:
  "length (managedCerts (fst two_secrets)) = 2 \<and> (\<exists>crt. snd two_secrets = Some (cert_payload crt))"
proof -
  have "base (newAdminClient ''a'') = ''http://a''" by (simp add: newAdminClient_def)
  then have e: "cert_endpoint (cert_env ''http://a'') (newAdminClient ''a'') (\<lambda>v. v)"
    using cert_server.cert_endpoint_axioms [of "newAdminClient ''a''"] by simp
  obtain m v where r: "two_secrets = (m, v)" by (meson surj_pair)
  from certificates_replace_each_other [OF e refl r [unfolded two_secrets_def]]
  have "snd two_secrets = None \<or> (\<exists>crt. snd two_secrets = Some (cert_payload crt))" unfolding r snd_conv .
  moreover have "snd two_secrets \<noteq> None" by code_simp
  moreover have "length (managedCerts (fst two_secrets)) = 2"
    using arg_cong [OF two_secrets_loaded(1), of length] by simp
  ultimately show ?thesis by blast
qed

section \<open>The informer of the Secrets\<close>

text \<open>\<open>WatchSecrets\<close> lists and watches with the field selector \<open>type=kubernetes.io/tls\<close> and registers a
  callback for updates only. An object of another type does not pass the API server's selection.\<close>

datatype secret_event = SecretAdded string string secret | SecretModified string string secret | SecretDeleted string string secret

fun event_secret :: "secret_event \<Rightarrow> secret" where
  "event_secret (SecretAdded ns nm s) = s"
| "event_secret (SecretModified ns nm s) = s"
| "event_secret (SecretDeleted ns nm s) = s"

definition secret_selected :: "secret \<Rightarrow> bool" where
  "secret_selected s = (secret_type s = ''kubernetes.io/tls'')"

definition WatchSecrets :: "'w env \<Rightarrow> secret_event \<Rightarrow> TLSManager \<times> 'w \<Rightarrow> TLSManager \<times> 'w" where
  "WatchSecrets e ev mw =
     (if \<not> secret_selected (event_secret ev) then mw
      else (case ev of
              SecretModified ns nm s \<Rightarrow> WatchSecrets_update e ns nm s mw
            | _ \<Rightarrow> mw))"

lemma dom_mput: "map_of m k \<noteq> None \<Longrightarrow> dom (map_of (mput k v m)) = dom (map_of m)"
  by (auto simp: dom_def map_of_mput)

text \<open>The informer replaces what is managed and never adds or removes: a Secret that did not exist when
  its Ingress was synced is not picked up by it, and the certificate of a deleted Secret stays.\<close>

lemma WatchSecrets_keys:
  assumes "fold (WatchSecrets e) evs (m, w) = (m', w')"
  shows "dom (map_of (managedCerts m')) = dom (map_of (managedCerts m))" "secretToIngress m' = secretToIngress m"
proof -
  have step: "dom (map_of (managedCerts (fst (WatchSecrets e ev mw)))) = dom (map_of (managedCerts (fst mw)))
      \<and> secretToIngress (fst (WatchSecrets e ev mw)) = secretToIngress (fst mw)" for ev mw
    by (cases mw)
      (auto simp: WatchSecrets_def WatchSecrets_update_def reloadSecret_def reload_prepare_def reload_commit_def
         store_cert_def secret_cert_def Let_def dom_mput split: secret_event.split option.split prod.split)
  have "dom (map_of (managedCerts (fst (fold (WatchSecrets e) evs mw)))) = dom (map_of (managedCerts (fst mw)))
      \<and> secretToIngress (fst (fold (WatchSecrets e) evs mw)) = secretToIngress (fst mw)" for mw
    by (induction evs arbitrary: mw) (simp_all add: step)
  from this [of "(m, w)"] assms show "dom (map_of (managedCerts m')) = dom (map_of (managedCerts m))"
      "secretToIngress m' = secretToIngress m"
    by simp_all
qed

end
