(* ===== verification/Reloader.thy ===== *)
theory Reloader
  imports Admin_Props
begin

section \<open>The config reloader (reloader.go)\<close>

text \<open>
  The module that posts a ConfigMap's Caddyfile to Caddy whenever its content changes: its state,
  the informer callbacks and the request. SHA-256 is a parameter: the code only compares
  digests. The errors of a reload are values of their own; the source prints them and logs the
  text.
\<close>

type_synonym digest = "256 word"

record ConfigReloader =
  Namespace :: string
  ConfigMap :: string
  Key :: string
  rl_adminAPI :: string
  lastHash :: digest

definition newReloader :: ConfigReloader where
  "newReloader = \<lparr>Namespace = [], ConfigMap = [], Key = [], rl_adminAPI = [], lastHash = 0\<rparr>"

text \<open>\<open>reloaderPodNamespace\<close>: \<open>None\<close> when the service-account file cannot be read.\<close>

definition reloaderPodNamespace :: "string option \<Rightarrow> string" where
  "reloaderPodNamespace file = (case file of None \<Rightarrow> ''default'' | Some b \<Rightarrow> TrimSpace b)"

definition reloader_Provision :: "string option \<Rightarrow> ConfigReloader \<Rightarrow> ConfigReloader" where
  "reloader_Provision file r =
     (let r = (if Key r = [] then r\<lparr>Key := ''Caddyfile''\<rparr> else r);
          r = (if rl_adminAPI r = [] then r\<lparr>rl_adminAPI := ''localhost:2019''\<rparr> else r)
      in if Namespace r = [] then r\<lparr>Namespace := reloaderPodNamespace file\<rparr> else r)"

datatype reload_error = BadRequest go_error | PostFailed go_error | BadStatus int

definition load_request :: "ConfigReloader \<Rightarrow> string \<Rightarrow> request" where
  "load_request r content =
     \<lparr>rq_method = ''POST'', rq_url = ''http://'' @ rl_adminAPI r @ ''/load'', rq_body = Some content,
      rq_ctype = Some ''text/caddyfile''\<rparr>"

definition reload :: "'w env \<Rightarrow> ConfigReloader \<Rightarrow> string \<Rightarrow> 'w \<Rightarrow> reload_error option \<times> 'w" where
  "reload e r content w =
     (case new_request e ''POST'' (''http://'' @ rl_adminAPI r @ ''/load'') of
        Some err \<Rightarrow> (Some (BadRequest err), w)
      | None \<Rightarrow>
          (case http_do e (load_request r content) w of
             (Inl err, w) \<Rightarrow> (Some (PostFailed err), w)
           | (Inr resp, w) \<Rightarrow> (if status resp \<noteq> 200 then Some (BadStatus (status resp)) else None, w)))"

text \<open>The callback for every event: an object of another type or name, or without the key, is
  ignored; the digest is replaced before the reload, and a failed reload is only logged.\<close>

definition handle ::
    "'w env \<Rightarrow> (string \<Rightarrow> digest) \<Rightarrow> informer_object \<Rightarrow> bool \<Rightarrow> ConfigReloader \<times> 'w \<Rightarrow> ConfigReloader \<times> 'w" where
  "handle e Sum256 ob isUpdate = (\<lambda>(r, w).
     (case ob of
        ConfigMapObject cm \<Rightarrow>
          if cm_name cm \<noteq> ConfigMap r then (r, w)
          else
            (case map_of (cm_data cm) (Key r) of
               None \<Rightarrow> (r, w)
             | Some content \<Rightarrow>
                 (let h = Sum256 content;
                      unchanged = (h = lastHash r);
                      r = r\<lparr>lastHash := h\<rparr>
                  in if \<not> isUpdate then (r, w)
                     else if unchanged then (r, w)
                     else (r, snd (reload e r content w))))
      | _ \<Rightarrow> (r, w)))"

text \<open>The registered callbacks. Deletions have none.\<close>

datatype cm_event = CmAdd informer_object | CmUpdate informer_object | CmDelete informer_object

definition reloader_step ::
    "'w env \<Rightarrow> (string \<Rightarrow> digest) \<Rightarrow> cm_event \<Rightarrow> ConfigReloader \<times> 'w \<Rightarrow> ConfigReloader \<times> 'w" where
  "reloader_step e Sum256 ev rw =
     (case ev of
        CmAdd ob \<Rightarrow> handle e Sum256 ob False rw
      | CmUpdate ob \<Rightarrow> handle e Sum256 ob True rw
      | CmDelete ob \<Rightarrow> rw)"

section \<open>Which contents are loaded\<close>

text \<open>The specification speaks of contents: the content an object offers to the reloader, and the
  updates that differ from the content seen last.\<close>

definition watched :: "ConfigReloader \<Rightarrow> informer_object \<Rightarrow> string option" where
  "watched r ob =
     (case ob of
        ConfigMapObject cm \<Rightarrow> if cm_name cm = ConfigMap r then map_of (cm_data cm) (Key r) else None
      | _ \<Rightarrow> None)"

fun changes :: "ConfigReloader \<Rightarrow> string option \<Rightarrow> cm_event list \<Rightarrow> string list" where
  "changes r seen [] = []"
| "changes r seen (CmDelete ob # evs) = changes r seen evs"
| "changes r seen (CmAdd ob # evs) =
     (case watched r ob of None \<Rightarrow> changes r seen evs | Some t \<Rightarrow> changes r (Some t) evs)"
| "changes r seen (CmUpdate ob # evs) =
     (case watched r ob of
        None \<Rightarrow> changes r seen evs
      | Some t \<Rightarrow> (if seen = Some t then [] else [t]) @ changes r (Some t) evs)"

fun event_object :: "cm_event \<Rightarrow> informer_object" where
  "event_object (CmAdd ob) = ob"
| "event_object (CmUpdate ob) = ob"
| "event_object (CmDelete ob) = ob"

definition contents :: "ConfigReloader \<Rightarrow> cm_event list \<Rightarrow> string list" where
  "contents r evs = List.map_filter (watched r) (map event_object evs)"

lemma contents_Cons:
  "contents r (ev # evs) = (case watched r (event_object ev) of None \<Rightarrow> [] | Some t \<Rightarrow> [t]) @ contents r evs"
  by (simp add: contents_def List.map_filter_def split: option.split)

text \<open>The fields an event does not change.\<close>

definition same_target :: "ConfigReloader \<Rightarrow> ConfigReloader \<Rightarrow> bool" where
  "same_target r r' = (ConfigMap r' = ConfigMap r \<and> Key r' = Key r \<and> rl_adminAPI r' = rl_adminAPI r)"

lemma same_target_simps:
  assumes "same_target r r'"
  shows "watched r' = watched r" "load_request r' = load_request r"
  using assms by (auto simp: same_target_def watched_def load_request_def fun_eq_iff split: informer_object.split)

text \<open>One event, in terms of the content: \<open>seen\<close> is what the digest stands for.\<close>

definition stands_for :: "(string \<Rightarrow> digest) \<Rightarrow> string option \<Rightarrow> ConfigReloader \<Rightarrow> bool" where
  "stands_for Sum256 seen r = (lastHash r = (case seen of None \<Rightarrow> 0 | Some t \<Rightarrow> Sum256 t))"

lemma handle_other: "watched r ob = None \<Longrightarrow> handle e Sum256 ob upd (r, w) = (r, w)"
  by (auto simp: handle_def watched_def split: informer_object.splits option.splits)

lemma reload_lastHash [simp]: "reload e (r\<lparr>lastHash := h\<rparr>) t w = reload e r t w"
  by (simp add: reload_def load_request_def cong: option.case_cong)

lemma handle_content:
  "watched r ob = Some t \<Longrightarrow>
   handle e Sum256 ob upd (r, w) =
     (r\<lparr>lastHash := Sum256 t\<rparr>, if upd \<and> lastHash r \<noteq> Sum256 t then snd (reload e r t w) else w)"
  by (auto simp: handle_def watched_def Let_def split: informer_object.splits if_splits)

lemma reload_log:
  "new_request e ''POST'' (''http://'' @ rl_adminAPI r @ ''/load'') = None \<Longrightarrow>
   \<exists>w'. snd (reload (logging e) r t (w, l)) = (w', l @ [load_request r t])"
  by (auto simp: reload_def logging_def split: prod.splits sum.splits)

lemma reloader_log:
  assumes "stands_for Sum256 seen r" "same_target r0 r"
    and u: "new_request e ''POST'' (''http://'' @ rl_adminAPI r0 @ ''/load'') = None"
    and inj: "inj_on Sum256 (set_option seen \<union> set (contents r0 evs))"
    and nz: "\<forall>t \<in> set_option seen \<union> set (contents r0 evs). Sum256 t \<noteq> 0"
  shows "\<exists>r' w'. fold (reloader_step (logging e) Sum256) evs (r, (w, l)) =
     (r', (w', l @ map (load_request r0) (changes r0 seen evs)))"
  using assms
proof (induction evs arbitrary: seen r w l)
  case Nil
  then show ?case by simp
next
  case (Cons ev evs)
  note W = same_target_simps [OF Cons.prems(2)]
  have sub: "inj_on Sum256 (set_option s \<union> set (contents r0 evs))"
    "\<forall>t \<in> set_option s \<union> set (contents r0 evs). Sum256 t \<noteq> 0"
    if "s = seen \<or> s = watched r0 (event_object ev)" for s
    using Cons.prems(4,5) that
    by (auto simp: contents_Cons split: option.splits elim: inj_on_subset)
  show ?case
  proof (cases "ev = CmDelete (event_object ev) \<or> watched r0 (event_object ev) = None")
    case True
    then have "reloader_step (logging e) Sum256 ev (r, (w, l)) = (r, (w, l))"
      "changes r0 seen (ev # evs) = changes r0 seen evs"
      using W(1) by (cases ev; auto simp: reloader_step_def handle_other)+
    with Cons.IH [OF Cons.prems(1-3) sub, of w l] show ?thesis by simp
  next
    case False
    then obtain t where t: "watched r0 (event_object ev) = Some t" by auto
    let ?r = "r\<lparr>lastHash := Sum256 t\<rparr>"
    have st: "stands_for Sum256 (Some t) ?r" "same_target r0 ?r"
      using Cons.prems(2) by (simp_all add: stands_for_def same_target_def)
    have same: "lastHash r = Sum256 t \<longleftrightarrow> seen = Some t"
      using Cons.prems(1,4,5) t
      by (auto simp: stands_for_def contents_Cons inj_on_def split: option.splits)
    note IH = Cons.IH [OF st Cons.prems(3) sub, OF disjI2 disjI2, OF t [symmetric] t [symmetric]]
    show ?thesis
    proof (cases "(\<exists>ob. ev = CmUpdate ob) \<and> seen \<noteq> Some t")
      case True
      then obtain ob where ev: "ev = CmUpdate ob" by auto
      have "new_request e ''POST'' (''http://'' @ rl_adminAPI r @ ''/load'') = None"
        using Cons.prems(2,3) by (simp add: same_target_def)
      then obtain w1 where w1: "snd (reload (logging e) r t (w, l)) = (w1, l @ [load_request r0 t])"
        using reload_log [of e r t w l] W(2) by auto
      have "reloader_step (logging e) Sum256 ev (r, (w, l)) = (?r, (w1, l @ [load_request r0 t]))"
        using True t W(1) same w1 ev by (simp add: reloader_step_def handle_content)
      moreover have "changes r0 seen (ev # evs) = t # changes r0 (Some t) evs"
        using True t ev by simp
      ultimately show ?thesis using IH [of w1 "l @ [load_request r0 t]"] by simp
    next
      case other: False
      then have "reloader_step (logging e) Sum256 ev (r, (w, l)) = (?r, (w, l))"
        using False t W(1) same by (cases ev) (auto simp: reloader_step_def handle_content)
      moreover have "changes r0 seen (ev # evs) = changes r0 (Some t) evs"
        using False other t by (cases ev) auto
      ultimately show ?thesis using IH [of w l] by simp
    qed
  qed
qed

text \<open>C27: Over any sequence of informer events, and whatever Caddy answers, the reloader posts exactly
  the contents of those updates whose content differs from the one seen just before: none for
  the initial list or a periodic re-sync, and none again for a content whose reload failed. The
  digests of the contents in play must differ from each other and from the initial zero.\<close>

theorem reloads_every_change:
  assumes "lastHash r = 0"
    and "new_request e ''POST'' (''http://'' @ rl_adminAPI r @ ''/load'') = None"
    and "inj_on Sum256 (set (contents r evs))" "\<forall>t \<in> set (contents r evs). Sum256 t \<noteq> 0"
  shows "\<exists>r' w'. fold (reloader_step (logging e) Sum256) evs (r, (w, [])) =
     (r', (w', map (load_request r) (changes r None evs)))"
  using reloader_log [of Sum256 None r r e evs w "[]"] assms
  by (simp add: stands_for_def same_target_def)

definition caddyfile_object :: "string \<Rightarrow> informer_object" where
  "caddyfile_object t = ConfigMapObject
     \<lparr>cm_name = ''caddy-config'', cm_namespace = ''caddy'', cm_labels = [], cm_owners = [], cm_data = [(''Caddyfile'', t)]\<rparr>"

definition demo_reloader :: ConfigReloader where
  "demo_reloader = reloader_Provision None (newReloader\<lparr>ConfigMap := ''caddy-config''\<rparr>)"

definition demo_sum :: "string \<Rightarrow> digest" where
  "demo_sum t = of_nat (length t + 1)"

text \<open>The first reload fails, the re-sync does not try again, the next change does.\<close>

theorem reloads_every_change_witness:
  "snd (snd (fold (reloader_step (logging (offline :: unit env)) demo_sum)
      [CmAdd (caddyfile_object ''a''), CmUpdate (caddyfile_object ''a''), CmUpdate (caddyfile_object ''bb''),
       CmUpdate (caddyfile_object ''bb''), CmUpdate (caddyfile_object ''a'')] (demo_reloader, ((), []))))
   = [load_request demo_reloader ''bb'', load_request demo_reloader ''a'']"
proof -
  let ?evs = "[CmAdd (caddyfile_object ''a''), CmUpdate (caddyfile_object ''a''), CmUpdate (caddyfile_object ''bb''),
       CmUpdate (caddyfile_object ''bb''), CmUpdate (caddyfile_object ''a'')]"
  have c: "contents demo_reloader ?evs = [''a'', ''a'', ''bb'', ''bb'', ''a'']"
    "changes demo_reloader None ?evs = [''bb'', ''a'']" "lastHash demo_reloader = 0"
    by code_simp+
  have s: "demo_sum ''a'' = 2" "demo_sum ''bb'' = 3"
    by (simp_all add: demo_sum_def)
  have h: "inj_on demo_sum (set (contents demo_reloader ?evs))" "\<forall>t \<in> set (contents demo_reloader ?evs). demo_sum t \<noteq> 0"
    using c s by (simp_all add: inj_on_def)
  have "new_request (offline :: unit env) ''POST'' (''http://'' @ rl_adminAPI demo_reloader @ ''/load'') = None"
    by (simp add: offline_def)
  from reloads_every_change [OF c(3) this h] c show ?thesis by auto
qed

end
