(* ===== verification/Lifecycle.thy ===== *)
theory Lifecycle
  imports App_Props Reloader
begin

section \<open>The modules' life (app.go, reloader.go)\<close>

text \<open>
  Starting and stopping the two modules: the Kubernetes configuration they look for, their stop
  channels and contexts, and the goroutine \<open>run\<close> of the controller, which \<open>Stop\<close> may meet at any
  point. What client-go does with a configuration is a parameter. A close of a channel that is nil
  or closed already panics.
\<close>

subsection \<open>The Kubernetes client\<close>

record 'c kube_access =
  InClusterConfig :: "go_error + 'c"
  Getenv :: "string \<Rightarrow> string"
  BuildConfigFromFlags :: "string \<Rightarrow> string \<Rightarrow> go_error + 'c"
  NewForConfig :: "'c \<Rightarrow> go_error option"

definition kubeconfig_path :: "'c kube_access \<Rightarrow> string" where
  "kubeconfig_path k =
     (let kubeconfig = Getenv k ''KUBECONFIG''
      in if kubeconfig = [] then Getenv k ''HOME'' @ ''/.kube/config'' else kubeconfig)"

text \<open>The client both modules create, with the module's name in the error.\<close>

definition kube_client :: "string \<Rightarrow> 'c kube_access \<Rightarrow> go_error + 'c" where
  "kube_client name k =
     (case (case InClusterConfig k of
              Inr cfg \<Rightarrow> Inr cfg
            | Inl err \<Rightarrow> BuildConfigFromFlags k [] (kubeconfig_path k)) of
        Inl err \<Rightarrow> Inl (name @ '': build kube config: '' @ err)
      | Inr cfg \<Rightarrow>
          (case NewForConfig k cfg of
             Some err \<Rightarrow> Inl (name @ '': create k8s client: '' @ err)
           | None \<Rightarrow> Inr cfg))"

datatype chan = NilChan | OpenChan | ClosedChan

text \<open>Closing, as the \<open>Stop\<close> methods do it.\<close>

fun close_chan :: "chan \<Rightarrow> chan option" where
  "close_chan OpenChan = Some ClosedChan"
| "close_chan _ = None"

subsection \<open>The reloader as a module\<close>

text \<open>\<open>Start\<close> registers the callbacks of \<open>Reloader\<close> and waits in the caller's thread for the first list.
  \<open>synced\<close> is what client-go's \<open>WaitForCacheSync\<close> returns, \<open>None\<close> while it does not; then \<open>Start\<close> has no
  result yet either.\<close>

record reloader_module =
  reloader :: ConfigReloader
  rl_stopCh :: chan
  rl_watching :: bool

definition reloader_provisioned :: "string option \<Rightarrow> ConfigReloader \<Rightarrow> reloader_module" where
  "reloader_provisioned file r = \<lparr>reloader = reloader_Provision file r, rl_stopCh = OpenChan, rl_watching = False\<rparr>"

definition reloader_Start ::
    "'c kube_access \<Rightarrow> bool option \<Rightarrow> reloader_module \<Rightarrow> go_error option option \<times> reloader_module" where
  "reloader_Start k synced m =
     (case kube_client ''k8s_config_reloader'' k of
        Inl err \<Rightarrow> (Some (Some err), m)
      | Inr client \<Rightarrow>
          (let m = m\<lparr>rl_watching := True\<rparr>
           in case synced of
                None \<Rightarrow> (None, m)
              | Some ok \<Rightarrow> (Some (if \<not> ok then Some ''k8s_config_reloader: cache sync timed out'' else None), m)))"

definition reloader_Stop :: "reloader_module \<Rightarrow> reloader_module option" where
  "reloader_Stop m = map_option (\<lambda>ch. m\<lparr>rl_stopCh := ch\<rparr>) (close_chan (rl_stopCh m))"

text \<open>The reloader watches exactly when the client could be created, also while \<open>Start\<close> still waits and
  when it reports that the sync failed; the first \<open>Stop\<close> works, a second panics.\<close>

lemma reloader_Start_watching:
  assumes "reloader_Start k synced (reloader_provisioned file r) = (res, m)"
  shows "rl_watching m \<longleftrightarrow> (\<exists>c. kube_client ''k8s_config_reloader'' k = Inr c)"
    and "res = Some None \<longleftrightarrow> rl_watching m \<and> synced = Some True"
    and "\<exists>m'. reloader_Stop m = Some m' \<and> reloader_Stop m' = None"
  using assms
  by (auto simp: reloader_Start_def reloader_provisioned_def reloader_Stop_def Let_def split: sum.splits option.splits if_splits)

datatype ctx_state = NoCtx | Live | Cancelled

subsection \<open>The controller as a module\<close>

text \<open>\<open>run_at\<close> is where the goroutine is, \<open>stop_at\<close> how far \<open>Stop\<close> is; \<open>tls_stop\<close> is the stop
  channel of the TLS manager, \<open>None\<close> while the field is nil. \<open>watching\<close> says that the informer of
  the Ingresses was started on \<open>stopCh\<close>.\<close>

datatype run_pc = NotRunning | Polling | Waiting | Resolved | Restored | TlsReady | Logged | Syncing | Returned

datatype stop_pc = Up | Signalled | TlsStopped | Down

record module_state =
  module_app :: App
  stopCh :: chan
  ctx :: ctx_state
  tls_stop :: "chan option"
  watching :: bool
  store_open :: bool
  run_at :: run_pc
  stop_at :: stop_pc

text \<open>What \<open>Provision\<close> leaves.\<close>

definition provisioned :: "App \<Rightarrow> module_state" where
  "provisioned a =
     \<lparr>module_app = a, stopCh = OpenChan, ctx = NoCtx, tls_stop = None, watching = False, store_open = True,
      run_at = NotRunning, stop_at = Up\<rparr>"

definition Start :: "'c kube_access \<Rightarrow> module_state \<Rightarrow> go_error option \<times> module_state" where
  "Start k m =
     (let m = m\<lparr>ctx := Live\<rparr>
      in case kube_client ''k8s_ingress'' k of
           Inl err \<Rightarrow> (Some err, m)
         | Inr client \<Rightarrow> (None, m\<lparr>run_at := Polling\<rparr>))"

text \<open>The three parts of \<open>Stop\<close>; \<open>None\<close> is a panic.\<close>

definition stop_signal :: "module_state \<Rightarrow> module_state option" where
  "stop_signal m =
     (let m = (if ctx m = NoCtx then m else m\<lparr>ctx := Cancelled\<rparr>)
      in map_option (\<lambda>ch. m\<lparr>stopCh := ch, stop_at := Signalled\<rparr>) (close_chan (stopCh m)))"

definition TLSManager_Stop :: "chan \<Rightarrow> chan option" where
  "TLSManager_Stop ch = close_chan ch"

definition stop_tls :: "module_state \<Rightarrow> module_state option" where
  "stop_tls m =
     (case tls_stop m of
        None \<Rightarrow> Some (m\<lparr>stop_at := TlsStopped\<rparr>)
      | Some ch \<Rightarrow> map_option (\<lambda>ch. m\<lparr>tls_stop := Some ch, stop_at := TlsStopped\<rparr>) (TLSManager_Stop ch))"

definition stop_store :: "module_state \<Rightarrow> module_state" where
  "stop_store m = m\<lparr>store_open := False, stop_at := Down\<rparr>"

definition Stop :: "module_state \<Rightarrow> module_state option" where
  "Stop m = Option.bind (stop_signal m) (\<lambda>m. Option.bind (stop_tls m) (\<lambda>m. Some (stop_store m)))"

subsection \<open>The goroutine\<close>

text \<open>The phases of \<open>run\<close> after the poll.\<close>

definition restore_phase :: "'w env \<Rightarrow> App \<times> 'w \<Rightarrow> App \<times> 'w" where
  "restore_phase e aw = restore_routes e (resolve_http e aw)"

definition tls_phase :: "App \<Rightarrow> App" where
  "tls_phase a = a\<lparr>tlsManager := newTLSManager (AdminAPI a), tlsPolicyMgr := newTLSPolicyManager (AdminAPI a)\<rparr>"

definition log_phase :: "'w env \<Rightarrow> App \<times> 'w \<Rightarrow> App \<times> 'w" where
  "log_phase e aw = (let (a, w) = start_access_log e aw in (a, configureDefaultLogger e a w))"

text \<open>They are what \<open>run_startup\<close> does in one piece.\<close>

lemma run_startup_phases:
  "serverName a \<noteq> [] \<Longrightarrow>
   run_startup e (a, w) =
     (let (a, w) = restore_phase e (a, w); (a, w) = log_phase e (tls_phase a, w) in Some (Some a, w))"
  by (simp add: run_startup_def restore_phase_def tls_phase_def log_phase_def Let_def split: prod.split)

text \<open>The name of the server to inject into: a poll of the admin API while it is not known.\<close>

definition poll_once :: "'w env \<Rightarrow> App \<Rightarrow> 'w \<Rightarrow> (go_error + string) \<times> 'w" where
  "poll_once e a w =
     (if serverName a \<noteq> [] then (Inr (serverName a), w)
      else resolveServerName e (newAdminClient (AdminAPI a)) (ServerName a) '':443'' w)"

text \<open>A failed poll is followed by a wait of two seconds, which a closed stop channel ends; the timer
  wins only when the channel is still open at its tick.\<close>

datatype life_label = PollFailed | PollAgain | PollStopped | PollFound | Restore | TlsCreated | LogsSet | InformersStarted | CacheSynced | SyncAborted
  | StopSignal | StopTls | StopStore

inductive life_step :: "'w env \<Rightarrow> module_state \<times> 'w \<Rightarrow> life_label \<Rightarrow> module_state \<times> 'w \<Rightarrow> bool" for e where
  PollFailed:
    "run_at m = Polling \<Longrightarrow> poll_once e (module_app m) w = (Inl err, w') \<Longrightarrow>
     life_step e (m, w) PollFailed (m\<lparr>run_at := Waiting\<rparr>, w')"
| PollAgain:
    "run_at m = Waiting \<Longrightarrow> stopCh m \<noteq> ClosedChan \<Longrightarrow> life_step e (m, w) PollAgain (m\<lparr>run_at := Polling\<rparr>, w)"
| PollStopped:
    "run_at m = Waiting \<Longrightarrow> stopCh m = ClosedChan \<Longrightarrow> life_step e (m, w) PollStopped (m\<lparr>run_at := Returned\<rparr>, w)"
| PollFound:
    "run_at m = Polling \<Longrightarrow> poll_once e (module_app m) w = (Inr name, w') \<Longrightarrow>
     life_step e (m, w) PollFound (m\<lparr>module_app := (module_app m)\<lparr>serverName := name\<rparr>, run_at := Resolved\<rparr>, w')"
| Restore:
    "run_at m = Resolved \<Longrightarrow> restore_phase e (module_app m, w) = (a, w') \<Longrightarrow>
     life_step e (m, w) Restore (m\<lparr>module_app := a, run_at := Restored\<rparr>, w')"
| TlsCreated:
    "run_at m = Restored \<Longrightarrow>
     life_step e (m, w) TlsCreated (m\<lparr>module_app := tls_phase (module_app m), tls_stop := Some OpenChan, run_at := TlsReady\<rparr>, w)"
| LogsSet:
    "run_at m = TlsReady \<Longrightarrow> log_phase e (module_app m, w) = (a, w') \<Longrightarrow>
     life_step e (m, w) LogsSet (m\<lparr>module_app := a, run_at := Logged\<rparr>, w')"
| InformersStarted:
    "run_at m = Logged \<Longrightarrow> life_step e (m, w) InformersStarted (m\<lparr>watching := True, run_at := Syncing\<rparr>, w)"
| CacheSynced:
    "run_at m = Syncing \<Longrightarrow> life_step e (m, w) CacheSynced (m\<lparr>run_at := Returned\<rparr>, w)"
| SyncAborted:
    "run_at m = Syncing \<Longrightarrow> stopCh m = ClosedChan \<Longrightarrow> life_step e (m, w) SyncAborted (m\<lparr>run_at := Returned\<rparr>, w)"
| StopSignal:
    "stop_at m = Up \<Longrightarrow> stop_signal m = Some m' \<Longrightarrow> life_step e (m, w) StopSignal (m', w)"
| StopTls:
    "stop_at m = Signalled \<Longrightarrow> stop_tls m = Some m' \<Longrightarrow> life_step e (m, w) StopTls (m', w)"
| StopStore:
    "stop_at m = TlsStopped \<Longrightarrow> life_step e (m, w) StopStore (stop_store m, w)"

text \<open>The same as a function of the label.\<close>

definition life_exec :: "'w env \<Rightarrow> life_label \<Rightarrow> module_state \<times> 'w \<Rightarrow> (module_state \<times> 'w) option" where
  "life_exec e l = (\<lambda>(m, w).
     (let poll = poll_once e (module_app m) w; restored = restore_phase e (module_app m, w);
          logged = log_phase e (module_app m, w)
      in case l of
        PollFailed \<Rightarrow>
          (case fst poll of
             Inl err \<Rightarrow> if run_at m = Polling then Some (m\<lparr>run_at := Waiting\<rparr>, snd poll) else None
           | Inr name \<Rightarrow> None)
      | PollAgain \<Rightarrow> if run_at m = Waiting \<and> stopCh m \<noteq> ClosedChan then Some (m\<lparr>run_at := Polling\<rparr>, w) else None
      | PollStopped \<Rightarrow> if run_at m = Waiting \<and> stopCh m = ClosedChan then Some (m\<lparr>run_at := Returned\<rparr>, w) else None
      | PollFound \<Rightarrow>
          (case fst poll of
             Inl err \<Rightarrow> None
           | Inr name \<Rightarrow>
               if run_at m = Polling
               then Some (m\<lparr>module_app := (module_app m)\<lparr>serverName := name\<rparr>, run_at := Resolved\<rparr>, snd poll) else None)
      | Restore \<Rightarrow>
          if run_at m = Resolved then Some (m\<lparr>module_app := fst restored, run_at := Restored\<rparr>, snd restored) else None
      | TlsCreated \<Rightarrow>
          if run_at m = Restored
          then Some (m\<lparr>module_app := tls_phase (module_app m), tls_stop := Some OpenChan, run_at := TlsReady\<rparr>, w) else None
      | LogsSet \<Rightarrow>
          if run_at m = TlsReady then Some (m\<lparr>module_app := fst logged, run_at := Logged\<rparr>, snd logged) else None
      | InformersStarted \<Rightarrow> if run_at m = Logged then Some (m\<lparr>watching := True, run_at := Syncing\<rparr>, w) else None
      | CacheSynced \<Rightarrow> if run_at m = Syncing then Some (m\<lparr>run_at := Returned\<rparr>, w) else None
      | SyncAborted \<Rightarrow> if run_at m = Syncing \<and> stopCh m = ClosedChan then Some (m\<lparr>run_at := Returned\<rparr>, w) else None
      | StopSignal \<Rightarrow> if stop_at m = Up then map_option (\<lambda>m. (m, w)) (stop_signal m) else None
      | StopTls \<Rightarrow> if stop_at m = Signalled then map_option (\<lambda>m. (m, w)) (stop_tls m) else None
      | StopStore \<Rightarrow> if stop_at m = TlsStopped then Some (stop_store m, w) else None))"

lemma life_step_iff: "life_step e s l s' \<longleftrightarrow> life_exec e l s = Some s'"
proof
  assume "life_step e s l s'"
  then show "life_exec e l s = Some s'"
    by (induction rule: life_step.induct) (simp_all add: life_exec_def)
next
  assume x: "life_exec e l s = Some s'"
  obtain m w where s: "s = (m, w)" by (cases s)
  obtain y w1 where p: "poll_once e (module_app m) w = (y, w1)" by (meson surj_pair)
  show "life_step e s l s'"
    using x p unfolding s life_exec_def
    by (cases l) (auto simp: Let_def split: if_splits sum.splits intro: life_step.intros)
qed

inductive life_run :: "'w env \<Rightarrow> module_state \<times> 'w \<Rightarrow> life_label list \<Rightarrow> module_state \<times> 'w \<Rightarrow> bool" for e s0 where
  Begin: "life_run e s0 [] s0"
| Step: "life_run e s0 ls s \<Longrightarrow> life_step e s l s' \<Longrightarrow> life_run e s0 (ls @ [l]) s'"

section \<open>Stopping at any moment\<close>

definition is_run :: "life_label \<Rightarrow> bool" where
  "is_run l = (l \<notin> {StopSignal, StopTls, StopStore})"

text \<open>The TLS manager was set up after \<open>Stop\<close> had looked for it.\<close>

definition tls_late :: "life_label list \<Rightarrow> bool" where
  "tls_late ls = (\<exists>as bs cs. ls = as @ StopTls # bs @ TlsCreated # cs)"

lemma tls_late_Nil [simp]: "\<not> tls_late []"
  by (simp add: tls_late_def)

lemma tls_late_snoc: "tls_late (ls @ [l]) \<longleftrightarrow> tls_late ls \<or> l = TlsCreated \<and> StopTls \<in> set ls"
proof
  assume "tls_late (ls @ [l])"
  then obtain as bs cs where s: "ls @ [l] = as @ StopTls # bs @ TlsCreated # cs" by (auto simp: tls_late_def)
  show "tls_late ls \<or> l = TlsCreated \<and> StopTls \<in> set ls"
  proof (cases cs rule: rev_cases)
    case (snoc cs' l')
    with s have "ls = as @ StopTls # bs @ TlsCreated # cs'" by simp
    then show ?thesis unfolding tls_late_def by blast
  qed (use s in simp)
next
  assume "tls_late ls \<or> l = TlsCreated \<and> StopTls \<in> set ls"
  then show "tls_late (ls @ [l])"
    unfolding tls_late_def by (metis append.assoc append_Cons split_list)
qed

fun run_rank :: "run_pc \<Rightarrow> nat" where
  "run_rank Polling = 6"
| "run_rank Resolved = 5"
| "run_rank Restored = 4"
| "run_rank TlsReady = 3"
| "run_rank Logged = 2"
| "run_rank Syncing = 1"
| "run_rank Waiting = 1"
| "run_rank _ = 0"

text \<open>What relates the state of a started module to its history.\<close>

definition life_inv :: "life_label list \<Rightarrow> module_state \<Rightarrow> bool" where
  "life_inv ls m =
     (run_at m \<noteq> NotRunning
      \<and> ctx m = (if stop_at m = Up then Live else Cancelled)
      \<and> stopCh m = (if stop_at m = Up then OpenChan else ClosedChan)
      \<and> (store_open m \<longleftrightarrow> stop_at m \<noteq> Down)
      \<and> (StopSignal \<in> set ls \<longleftrightarrow> stop_at m \<noteq> Up)
      \<and> (StopTls \<in> set ls \<longleftrightarrow> stop_at m \<in> {TlsStopped, Down})
      \<and> (run_at m \<in> {Polling, Waiting, Resolved, Restored} \<longrightarrow> tls_stop m = None)
      \<and> tls_stop m \<in> {None, Some OpenChan, Some ClosedChan}
      \<and> (stop_at m \<in> {Up, Signalled} \<longrightarrow> tls_stop m \<noteq> Some ClosedChan)
      \<and> (tls_late ls \<longleftrightarrow> stop_at m \<in> {TlsStopped, Down} \<and> tls_stop m = Some OpenChan))"

lemma life_inv_start: "Start k (provisioned a) = (None, m) \<Longrightarrow> life_inv [] m"
  by (auto simp: Start_def provisioned_def life_inv_def Let_def split: sum.splits)

lemma life_inv_step:
  assumes "life_step e s l s'" "life_inv ls (fst s)"
  shows "life_inv (ls @ [l]) (fst s')"
  using assms
proof (induction rule: life_step.induct)
  case (StopTls m m' w)
  then have "tls_stop m = None \<or> tls_stop m = Some OpenChan" by (auto simp: life_inv_def)
  then show ?case
  proof
    assume n: "tls_stop m = None"
    then have "m' = m\<lparr>stop_at := TlsStopped\<rparr>" using StopTls by (simp add: stop_tls_def TLSManager_Stop_def)
    then show ?case using StopTls n by (simp add: life_inv_def tls_late_snoc)
  next
    assume o: "tls_stop m = Some OpenChan"
    then have "m' = m\<lparr>tls_stop := Some ClosedChan, stop_at := TlsStopped\<rparr>" using StopTls by (simp add: stop_tls_def TLSManager_Stop_def)
    then show ?case using StopTls o by (simp add: life_inv_def tls_late_snoc)
  qed
next
  case (StopSignal m m' w)
  then have "m' = m\<lparr>ctx := Cancelled, stopCh := ClosedChan, stop_at := Signalled\<rparr>" by (auto simp: stop_signal_def life_inv_def)
  moreover have "tls_stop m = None \<or> tls_stop m = Some OpenChan" using StopSignal by (auto simp: life_inv_def)
  ultimately show ?case using StopSignal by (simp add: life_inv_def tls_late_snoc)
qed (simp_all add: life_inv_def tls_late_snoc stop_store_def)

lemma life_inv_run: "life_run e s0 ls s \<Longrightarrow> life_inv [] (fst s0) \<Longrightarrow> life_inv ls (fst s)"
  by (induction rule: life_run.induct) (auto intro: life_inv_step)

text \<open>Each thread can always take its next step, and after the signal the goroutine has at most six.\<close>

lemma stop_enabled:
  assumes "life_inv ls m" "stop_at m \<noteq> Down"
  shows "\<exists>l s'. \<not> is_run l \<and> life_step e (m, w) l s'"
proof (cases "stop_at m")
  case Up
  then obtain m' where "stop_signal m = Some m'" using assms(1) by (simp add: stop_signal_def life_inv_def)
  then show ?thesis using life_step.StopSignal [OF Up] by (fastforce simp: is_run_def)
next
  case Signalled
  then obtain m' where "stop_tls m = Some m'" using assms(1) by (auto simp: stop_tls_def TLSManager_Stop_def life_inv_def)
  then show ?thesis using life_step.StopTls [OF Signalled] by (fastforce simp: is_run_def)
next
  case TlsStopped
  then show ?thesis using life_step.StopStore [OF TlsStopped] by (fastforce simp: is_run_def)
qed (use assms(2) in simp)

lemma run_enabled:
  assumes "life_inv ls m" "run_at m \<noteq> Returned"
  shows "\<exists>l s'. is_run l \<and> (l = CacheSynced \<longrightarrow> stop_at m = Up) \<and> life_step e (m, w) l s'"
proof -
  have hit: ?thesis if "life_step e (m, w) l s'" "is_run l \<and> (l = CacheSynced \<longrightarrow> stop_at m = Up)" for l s'
    using that by blast
  show ?thesis
  proof (cases "run_at m")
    case Polling
    obtain x w' where p: "poll_once e (module_app m) w = (x, w')" by (meson surj_pair)
    show ?thesis
    proof (cases x)
      case (Inl err)
      with hit [OF life_step.PollFailed [OF Polling, of e w err w']] p show ?thesis by (simp add: is_run_def)
    next
      case (Inr name)
      with hit [OF life_step.PollFound [OF Polling, of e w name w']] p show ?thesis by (simp add: is_run_def)
    qed
  next
    case Waiting
    from hit [OF life_step.PollAgain [OF Waiting]] hit [OF life_step.PollStopped [OF Waiting]] show ?thesis
      by (cases "stopCh m = ClosedChan") (simp_all add: is_run_def)
  next
    case Resolved
    obtain a w' where "restore_phase e (module_app m, w) = (a, w')" by (meson surj_pair)
    from hit [OF life_step.Restore [OF Resolved this]] show ?thesis by (simp add: is_run_def)
  next
    case Restored
    from hit [OF life_step.TlsCreated [OF Restored]] show ?thesis by (simp add: is_run_def)
  next
    case TlsReady
    obtain a w' where "log_phase e (module_app m, w) = (a, w')" by (meson surj_pair)
    from hit [OF life_step.LogsSet [OF TlsReady this]] show ?thesis by (simp add: is_run_def)
  next
    case Logged
    from hit [OF life_step.InformersStarted [OF Logged]] show ?thesis by (simp add: is_run_def)
  next
    case Syncing
    from hit [OF life_step.CacheSynced [OF Syncing]] hit [OF life_step.SyncAborted [OF Syncing]] assms(1) show ?thesis
      by (cases "stop_at m = Up") (simp_all add: is_run_def life_inv_def)
  qed (use assms in \<open>simp_all add: life_inv_def\<close>)
qed

text \<open>The steps of the goroutine after the signal.\<close>

definition late_runs :: "life_label list \<Rightarrow> life_label list" where
  "late_runs ls = filter is_run (dropWhile (\<lambda>l. l \<noteq> StopSignal) ls)"

lemma late_runs_Nil [simp]: "late_runs [] = []"
  by (simp add: late_runs_def)

lemma late_runs_early: "StopSignal \<notin> set ls \<Longrightarrow> late_runs ls = []"
  unfolding late_runs_def by (induction ls) auto

lemma late_runs_snoc:
  "late_runs (ls @ [l]) = (if StopSignal \<in> set ls \<and> is_run l then late_runs ls @ [l] else late_runs ls)"
proof (cases "StopSignal \<in> set ls")
  case False
  then have "dropWhile (\<lambda>l. l \<noteq> StopSignal) ls = []" by (auto simp: dropWhile_eq_Nil_conv)
  with False show ?thesis by (auto simp: late_runs_def dropWhile_append is_run_def simp del: dropWhile_eq_Nil_conv)
qed (auto simp: late_runs_def dropWhile_append)

lemma late_runs_step:
  assumes "life_step e s l s'" "life_inv ls (fst s)" "length (late_runs ls) + run_rank (run_at (fst s)) \<le> 6"
  shows "length (late_runs (ls @ [l])) + run_rank (run_at (fst s')) \<le> 6"
  using assms
  by (induction rule: life_step.induct)
    (auto simp: late_runs_snoc late_runs_early is_run_def life_inv_def stop_signal_def stop_tls_def TLSManager_Stop_def stop_store_def Let_def split: if_splits option.splits)

lemma late_runs_bound:
  assumes "life_run e s0 ls s" "life_inv [] (fst s0)" "run_rank (run_at (fst s0)) \<le> 6"
  shows "length (late_runs ls) + run_rank (run_at (fst s)) \<le> 6"
  using assms(1)
proof induction
  case (Step ls s l s')
  then show ?case using late_runs_step life_inv_run [OF Step.hyps(1) assms(2)] by blast
qed (use assms(3) in simp)

text \<open>C25: \<open>Stop\<close> always completes and takes the goroutine with it. Whenever \<open>Stop\<close> is called on a started
  module, and wherever the goroutine is, its next part can run: no channel is closed twice and
  nothing blocks. The goroutine can run as well, after the signal without the arrival of the first list,
  and returns at the latest with the sixth of its steps after the signal, also while it polls for a
  server that never appears or waits for a list that never comes. Once both are done the channel is closed, the context cancelled and the store released.\<close>

theorem Stop_completes:
  assumes "Start k (provisioned a) = (None, m0)" "life_run e (m0, w0) ls (m, w)"
  shows "(stop_at m \<noteq> Down \<longrightarrow> (\<exists>l s'. \<not> is_run l \<and> life_step e (m, w) l s'))
      \<and> (run_at m \<noteq> Returned \<longrightarrow> (\<exists>l s'. is_run l \<and> (l = CacheSynced \<longrightarrow> stop_at m = Up) \<and> life_step e (m, w) l s'))
      \<and> length (late_runs ls) \<le> 6 \<and> (length (late_runs ls) = 6 \<longrightarrow> run_at m = Returned)
      \<and> (stop_at m = Down \<longrightarrow> stopCh m = ClosedChan \<and> ctx m = Cancelled \<and> \<not> store_open m)"
proof -
  have i0: "life_inv [] (fst (m0, w0))" using life_inv_start [OF assms(1)] by simp
  have inv: "life_inv ls m" using life_inv_run [OF assms(2) i0] by simp
  have "run_rank (run_at m0) \<le> 6" by (cases "run_at m0") simp_all
  then have b: "length (late_runs ls) + run_rank (run_at m) \<le> 6"
    using late_runs_bound [OF assms(2) i0] by simp
  have "length (late_runs ls) = 6 \<longrightarrow> run_at m = Returned"
    using b inv by (cases "run_at m") (simp_all add: life_inv_def)
  moreover have "stop_at m = Down \<longrightarrow> stopCh m = ClosedChan \<and> ctx m = Cancelled \<and> \<not> store_open m"
    using inv by (simp add: life_inv_def)
  ultimately show ?thesis
    using stop_enabled [OF inv, of e w] run_enabled [OF inv, of e w] b by simp
qed

text \<open>C26: What a stopped module leaves running. When \<open>Stop\<close> has completed and the goroutine has returned,
  the informer of the Secrets is still running exactly when the goroutine set up the TLS manager
  after \<open>Stop\<close> had looked for it; in every other interleaving it has been stopped or never
  existed.\<close>

theorem Secret_informer_leak:
  assumes "Start k (provisioned a) = (None, m0)" "life_run e (m0, w0) ls (m, w)"
    and "stop_at m = Down" "run_at m = Returned"
  shows "tls_stop m = Some OpenChan \<longleftrightarrow> (\<exists>as bs cs. ls = as @ StopTls # bs @ TlsCreated # cs)"
proof -
  have "life_inv [] (fst (m0, w0))" using life_inv_start [OF assms(1)] by simp
  from life_inv_run [OF assms(2) this] have "life_inv ls m" by simp
  then show ?thesis using assms(3) by (simp add: life_inv_def tls_late_def)
qed

text \<open>An instance: \<open>Stop\<close> comes while the goroutine restores the routes.\<close>

definition outside :: "unit kube_access" where
  "outside = \<lparr>InClusterConfig = Inl ''not in a cluster'', Getenv = (\<lambda>x. if x = ''HOME'' then ''/root'' else []),
     BuildConfigFromFlags = (\<lambda>u p. if p = ''/root/.kube/config'' then Inr () else Inl ''no such file''),
     NewForConfig = (\<lambda>c. None)\<rparr>"

definition started_module :: module_state where
  "started_module = (provisioned (demo_app\<lparr>serverName := ''srv0''\<rparr>))\<lparr>ctx := Live, run_at := Polling\<rparr>"

lemma outside_start: "Start outside (provisioned (demo_app\<lparr>serverName := ''srv0''\<rparr>)) = (None, started_module)"
  by (simp add: Start_def outside_def kube_client_def kubeconfig_path_def started_module_def Let_def)

definition leak_labels :: "life_label list" where
  "leak_labels = [PollFound, Restore, StopSignal, StopTls, TlsCreated, StopStore, LogsSet, InformersStarted, SyncAborted]"

fun life_execs :: "'w env \<Rightarrow> life_label list \<Rightarrow> module_state \<times> 'w \<Rightarrow> (module_state \<times> 'w) option" where
  "life_execs e [] s = Some s"
| "life_execs e (l # ls) s = Option.bind (life_exec e l s) (life_execs e ls)"

lemma life_execs_run: "life_execs e ls s = Some s' \<Longrightarrow> life_run e s0 ls0 s \<Longrightarrow> life_run e s0 (ls0 @ ls) s'"
proof (induction ls arbitrary: s ls0)
  case (Cons l ls)
  then obtain s1 where "life_exec e l s = Some s1" "life_execs e ls s1 = Some s'"
    by (auto split: Option.bind_splits)
  then show ?case
    using Cons.IH [OF _ life_run.Step [OF Cons.prems(2)], of s1 l] by (simp add: life_step_iff)
qed simp

definition leak_end :: module_state where
  "leak_end = (case life_execs (offline :: unit env) leak_labels (started_module, ()) of
     None \<Rightarrow> started_module | Some (m, w) \<Rightarrow> m)"

lemma leak_run:
  "life_run (offline :: unit env) (started_module, ()) leak_labels (leak_end, ())"
  "stop_at leak_end = Down" "run_at leak_end = Returned"
proof -
  have "life_execs (offline :: unit env) leak_labels (started_module, ()) = Some (leak_end, ())" by code_simp
  from life_execs_run [OF this life_run.Begin] show "life_run (offline :: unit env) (started_module, ()) leak_labels (leak_end, ())"
    by simp
  show "stop_at leak_end = Down" "run_at leak_end = Returned" by code_simp+
qed

theorem Secret_informer_leak_witness: "tls_stop leak_end = Some OpenChan"
proof -
  have "leak_labels = [PollFound, Restore, StopSignal] @ StopTls # [] @ TlsCreated # [StopStore, LogsSet, InformersStarted, SyncAborted]"
    by (simp add: leak_labels_def)
  with Secret_informer_leak [OF outside_start leak_run] show ?thesis by blast
qed

theorem Stop_completes_witness: "stopCh leak_end = ClosedChan \<and> ctx leak_end = Cancelled \<and> length (late_runs leak_labels) \<le> 6"
  using Stop_completes [OF outside_start leak_run(1)] leak_run(2) by simp

end
