(* ===== verification/Dispenser.thy ===== *)
theory Dispenser
  imports Kube
begin

section \<open>Reading a Caddyfile block\<close>

text \<open>
  The module reads its configuration through Caddy's \<open>caddyfile.Dispenser\<close>, which is not part of
  the repository: \<open>dispenser\<close> is the record of the methods it calls, over an abstract cursor
  \<open>'d\<close>. The \<open>for\<close> loops over \<open>Next\<close> and \<open>NextBlock\<close> need not end for an arbitrary dispenser, so
  they are partial functions; the locale \<open>token_stream\<close> states the law under which they end, that
  a method which finds something has consumed a token.
\<close>

record 'd dispenser =
  Next :: "'d \<Rightarrow> bool \<times> 'd"
  NextBlock :: "nat \<Rightarrow> 'd \<Rightarrow> bool \<times> 'd"
  NextArg :: "'d \<Rightarrow> bool \<times> 'd"
  Val :: "'d \<Rightarrow> string"
  ArgErr :: "'d \<Rightarrow> go_error"
  Err :: "string \<Rightarrow> 'd \<Rightarrow> go_error"

text \<open>\<open>for advance() { body }\<close>, where the body may return an error.\<close>

partial_function (option) for_loop ::
    "('d \<Rightarrow> bool \<times> 'd) \<Rightarrow> ('a \<times> 'd \<Rightarrow> (go_error + 'a \<times> 'd) option) \<Rightarrow> 'a \<times> 'd \<Rightarrow> (go_error + 'a \<times> 'd) option" where
  "for_loop advance body s =
     (case advance (snd s) of
        (found, d) \<Rightarrow>
          if found
          then (case body (fst s, d) of
                  None \<Rightarrow> None
                | Some (Inl err) \<Rightarrow> Some (Inl err)
                | Some (Inr s') \<Rightarrow> for_loop advance body s')
          else Some (Inr (fst s, d)))"

text \<open>\<open>if !d.NextArg() { return d.ArgErr() }\<close> followed by a use of \<open>d.Val()\<close>.\<close>

definition with_arg ::
    "'d dispenser \<Rightarrow> (string \<Rightarrow> 'a \<Rightarrow> 'a) \<Rightarrow> 'a \<times> 'd \<Rightarrow> go_error + 'a \<times> 'd" where
  "with_arg D f s =
     (case NextArg D (snd s) of
        (found, d) \<Rightarrow> if found then Inr (f (Val D d) (fst s), d) else Inl (ArgErr D d))"

text \<open>A step that returns, and leaves no more tokens than it found.\<close>

definition returns :: "('d \<Rightarrow> nat) \<Rightarrow> ('a \<times> 'd \<Rightarrow> (go_error + 'a \<times> 'd) option) \<Rightarrow> bool" where
  "returns left f =
     (\<forall>s. \<exists>r. f s = Some r \<and> (case r of Inl err \<Rightarrow> True | Inr s' \<Rightarrow> left (snd s') \<le> left (snd s)))"

lemma returnsD:
  assumes "returns left f"
  obtains err where "f s = Some (Inl err)" | s' where "f s = Some (Inr s')" "left (snd s') \<le> left (snd s)"
proof -
  obtain r where r: "f s = Some r" "case r of Inl err \<Rightarrow> True | Inr s' \<Rightarrow> left (snd s') \<le> left (snd s)"
    using assms unfolding returns_def by blast
  with that show thesis by (cases r) auto
qed

lemma returnsI:
  "(\<And>s. (\<exists>err. f s = Some (Inl err)) \<or> (\<exists>s'. f s = Some (Inr s') \<and> left (snd s') \<le> left (snd s))) \<Longrightarrow> returns left f"
  unfolding returns_def by (metis (mono_tags, lifting) old.sum.simps(5) old.sum.simps(6))

lemma for_loop_returns:
  assumes m: "\<And>d found d'. advance d = (found, d') \<Longrightarrow> left d' \<le> left d \<and> (found \<longrightarrow> left d' < left d)"
    and b: "returns left body"
  shows "returns left (for_loop advance body)"
proof (rule returnsI)
  fix s
  show "(\<exists>err. for_loop advance body s = Some (Inl err))
      \<or> (\<exists>s'. for_loop advance body s = Some (Inr s') \<and> left (snd s') \<le> left (snd s))"
  proof (induction "left (snd s)" arbitrary: s rule: less_induct)
    case less
    obtain found d where d: "advance (snd s) = (found, d)" by (meson surj_pair)
    note step = for_loop.simps [of advance body s]
    show ?case
    proof (cases found)
      case True
      from b show ?thesis
      proof (rule returnsD [of left body "(fst s, d)"])
        fix err
        assume "body (fst s, d) = Some (Inl err)"
        with d True step show ?thesis by simp
      next
        fix s'
        assume s': "body (fst s, d) = Some (Inr s')" "left (snd s') \<le> left (snd (fst s, d))"
        have "left (snd s') < left (snd s)" using s'(2) m [OF d] True by simp
        from less [OF this] d True step s'(1) \<open>left (snd s') < left (snd s)\<close> show ?thesis by force
      qed
    next
      case False
      with d step m [OF d] show ?thesis by simp
    qed
  qed
qed

locale token_stream =
  fixes D :: "'d dispenser" and left :: "'d \<Rightarrow> nat"
  assumes next_token: "Next D d = (found, d') \<Longrightarrow> left d' \<le> left d \<and> (found \<longrightarrow> left d' < left d)"
    and next_block: "NextBlock D n d = (found, d') \<Longrightarrow> left d' \<le> left d \<and> (found \<longrightarrow> left d' < left d)"
    and next_arg: "NextArg D d = (found, d') \<Longrightarrow> left d' \<le> left d"
begin

lemma with_arg_returns: "returns left (\<lambda>s. Some (with_arg D f s))"
  by (rule returnsI) (auto simp: with_arg_def split: prod.splits dest: next_arg)

lemma block_returns: "returns left body \<Longrightarrow> returns left (for_loop (NextBlock D n) body)"
  by (rule for_loop_returns) (auto dest: next_block)

lemma blocks_return: "returns left body \<Longrightarrow> returns left (for_loop (Next D) body)"
  by (rule for_loop_returns) (auto dest: next_token)

lemma error_returns: "returns left (\<lambda>s. Some (Inl (err s)))"
  by (rule returnsI) simp

lemma unchanged_returns: "(\<And>s. snd (f s) = snd s) \<Longrightarrow> returns left (\<lambda>s. Some (Inr (f s)))"
  by (rule returnsI) simp

lemma if_returns:
  "returns left f \<Longrightarrow> returns left g \<Longrightarrow> returns left (\<lambda>s. if P s then f s else g s)"
  unfolding returns_def by metis

end

subsection \<open>A dispenser over a token list\<close>

text \<open>The behaviour Caddy documents, for tokens with their line numbers: an argument is a token on the
  line of the current one that opens no block, a block opens with a brace on the line of its name,
  and a closing brace ends the innermost block. The state is the current token, those to come, and
  the number of open blocks.\<close>

type_synonym cursor = "(nat \<times> string) option \<times> (nat \<times> string) list \<times> nat"

definition same_line :: "(nat \<times> string) option \<Rightarrow> nat \<times> string \<Rightarrow> bool" where
  "same_line cur t = (case cur of None \<Rightarrow> True | Some c \<Rightarrow> fst c = fst t)"

fun ref_next :: "cursor \<Rightarrow> bool \<times> cursor" where
  "ref_next (cur, [], n) = (False, (cur, [], n))"
| "ref_next (cur, t # ts, n) = (True, (Some t, ts, n))"

fun ref_arg :: "cursor \<Rightarrow> bool \<times> cursor" where
  "ref_arg (cur, [], n) = (False, (cur, [], n))"
| "ref_arg (cur, t # ts, n) =
     (if same_line cur t \<and> snd t \<noteq> ''{'' then (True, (Some t, ts, n)) else (False, (cur, t # ts, n)))"

fun ref_block :: "nat \<Rightarrow> cursor \<Rightarrow> bool \<times> cursor" where
  "ref_block lim (cur, ts, n) =
     (if lim < n
      then (case ts of
              [] \<Rightarrow> (False, (cur, ts, n))
            | t # ts' \<Rightarrow> let n' = (if snd t = ''}'' then n - 1 else n) in (lim < n', (Some t, ts', n')))
      else (case ts of
              t # t' # ts' \<Rightarrow>
                if same_line cur t \<and> snd t = ''{''
                then (if snd t' = ''}'' then (False, (Some t', ts', n)) else (True, (Some t', ts', Suc n)))
                else (False, (cur, ts, n))
            | _ \<Rightarrow> (False, (cur, ts, n))))"

definition ref_dispenser :: "cursor dispenser" where
  "ref_dispenser =
     \<lparr>Next = ref_next, NextBlock = ref_block, NextArg = ref_arg,
      Val = (\<lambda>(cur, ts, n). case cur of None \<Rightarrow> [] | Some t \<Rightarrow> snd t),
      ArgErr = (\<lambda>d. ''wrong argument count''), Err = (\<lambda>m d. m)\<rparr>"

definition tokens_left :: "cursor \<Rightarrow> nat" where
  "tokens_left = (\<lambda>(cur, ts, n). length ts)"

interpretation ref_tokens: token_stream ref_dispenser tokens_left
proof unfold_locales
  fix d d' :: cursor and found n
  obtain cur ts k where d: "d = (cur, ts, k)" by (cases d) auto
  show "Next ref_dispenser d = (found, d') \<Longrightarrow> tokens_left d' \<le> tokens_left d \<and> (found \<longrightarrow> tokens_left d' < tokens_left d)"
    unfolding d by (cases ts) (auto simp: ref_dispenser_def tokens_left_def)
  show "NextArg ref_dispenser d = (found, d') \<Longrightarrow> tokens_left d' \<le> tokens_left d"
    unfolding d by (cases ts) (auto simp: ref_dispenser_def tokens_left_def split: if_splits)
  show "NextBlock ref_dispenser n d = (found, d') \<Longrightarrow> tokens_left d' \<le> tokens_left d \<and> (found \<longrightarrow> tokens_left d' < tokens_left d)"
    unfolding d by (auto simp: ref_dispenser_def tokens_left_def Let_def split: if_splits list.splits)
qed

end
