(* ===== verification/Caddyfile.thy ===== *)
theory Caddyfile
  imports Dispenser App Reloader
begin

section \<open>Parsing the options (caddyfile.go, reloader.go)\<close>

text \<open>
  The parsers of the two global options over an arbitrary dispenser. \<open>None\<close> is a loop that does not
  end; an error ends the parse, and the half-filled module is dropped with it. A module that is parsed is
  returned as its JSON, which \<open>caddyconfig.JSON\<close> takes from \<open>encoding/json\<close> by the tags of its fields.
\<close>

subsection \<open>Scanning a number\<close>

text \<open>\<open>fmt.Sscanf\<close> with \<open>%d\<close>: spaces but no newline, a sign, the longest run of digits; what
  follows is left unread.\<close>

definition Sscanf_d :: "string \<Rightarrow> int option" where
  "Sscanf_d text =
     (let s = strip (filter (\<lambda>p. p \<noteq> [CHR 0x0A]) space_runes) text;
          (sgn, s) = (case s of [] \<Rightarrow> ([], []) | c # r \<Rightarrow> if c \<in> {CHR ''+'', CHR ''-''} then ([c], r) else ([], s));
          ds = takeWhile is_digit s
      in if ds = [] then None
         else (case ParseInt (sgn @ ds) of Inl err \<Rightarrow> None | Inr i \<Rightarrow> Some i))"

subsection \<open>The options of the Ingress controller\<close>

definition set_Security :: "(SecurityConfig \<Rightarrow> SecurityConfig) \<Rightarrow> App \<Rightarrow> App" where
  "set_Security f a = a\<lparr>Security := f (Security a)\<rparr>"

definition set_Redis :: "(RedisConfig \<Rightarrow> RedisConfig) \<Rightarrow> App \<Rightarrow> App" where
  "set_Redis f a = a\<lparr>RedisCfg := map_option f (RedisCfg a)\<rparr>"

text \<open>The body of the loop of \<open>parseSecurityBlock\<close>.\<close>

definition security_option :: "'d dispenser \<Rightarrow> App \<times> 'd \<Rightarrow> go_error + App \<times> 'd" where
  "security_option D s =
     (let k = Val D (snd s) in
      if k = ''waf'' then with_arg D (\<lambda>v. set_Security (\<lambda>c. c\<lparr>WAF := (v = ''on'')\<rparr>)) s
      else if k = ''waf_mode'' then with_arg D (\<lambda>v. set_Security (\<lambda>c. c\<lparr>WAFMode := v\<rparr>)) s
      else if k = ''security_headers'' then with_arg D (\<lambda>v. set_Security (\<lambda>c. c\<lparr>SecurityHeaders := (v = ''on'')\<rparr>)) s
      else if k = ''inject_real_ip'' then with_arg D (\<lambda>v. set_Security (\<lambda>c. c\<lparr>InjectRealIP := (v = ''on'')\<rparr>)) s
      else Inl (Err D (''unknown security option: '' @ k) (snd s)))"

definition parseSecurityBlock :: "'d dispenser \<Rightarrow> App \<times> 'd \<Rightarrow> (go_error + App \<times> 'd) option" where
  "parseSecurityBlock D = for_loop (NextBlock D 1) (\<lambda>s. Some (security_option D s))"

text \<open>The body of the loop of \<open>parseRedisBlock\<close>.\<close>

definition redis_db :: "'d dispenser \<Rightarrow> App \<times> 'd \<Rightarrow> go_error + App \<times> 'd" where
  "redis_db D s =
     (case NextArg D (snd s) of
        (found, d) \<Rightarrow>
          if \<not> found then Inl (ArgErr D d)
          else (case Sscanf_d (Val D d) of
                  None \<Rightarrow> Inl (Err D (''redis db must be an integer: '' @ Val D d) d)
                | Some n \<Rightarrow> Inr (set_Redis (\<lambda>r. r\<lparr>DB := n\<rparr>) (fst s), d)))"

definition redis_option :: "'d dispenser \<Rightarrow> App \<times> 'd \<Rightarrow> go_error + App \<times> 'd" where
  "redis_option D s =
     (let k = Val D (snd s) in
      if k = ''address'' then with_arg D (\<lambda>v. set_Redis (\<lambda>r. r\<lparr>Address := v\<rparr>)) s
      else if k = ''password'' then with_arg D (\<lambda>v. set_Redis (\<lambda>r. r\<lparr>RedisPassword := v\<rparr>)) s
      else if k = ''db'' then redis_db D s
      else Inl (Err D (''unknown redis option: '' @ k) (snd s)))"

definition no_redis :: RedisConfig where
  "no_redis = \<lparr>Address = [], RedisPassword = [], DB = 0\<rparr>"

definition parseRedisBlock :: "'d dispenser \<Rightarrow> App \<times> 'd \<Rightarrow> (go_error + App \<times> 'd) option" where
  "parseRedisBlock D s =
     (case for_loop (NextBlock D 1) (\<lambda>s. Some (redis_option D s)) ((fst s)\<lparr>RedisCfg := Some no_redis\<rparr>, snd s) of
        None \<Rightarrow> None
      | Some (Inl err) \<Rightarrow> Some (Inl err)
      | Some (Inr s) \<Rightarrow>
          (case RedisCfg (fst s) of
             None \<Rightarrow> Some (Inr s)
           | Some r \<Rightarrow>
               if Address r = [] then Some (Inl (Err D ''redis block requires an address'' (snd s)))
               else Some (Inr s)))"

text \<open>The \<open>switch\<close> of \<open>UnmarshalCaddyfile\<close>.\<close>

definition ingress_option :: "'d dispenser \<Rightarrow> App \<times> 'd \<Rightarrow> (go_error + App \<times> 'd) option" where
  "ingress_option D s =
     (let k = Val D (snd s) in
      if k = ''ingress_class'' then Some (with_arg D (\<lambda>v a. a\<lparr>IngressClass := v\<rparr>) s)
      else if k = ''server_name'' then Some (with_arg D (\<lambda>v a. a\<lparr>ServerName := v\<rparr>) s)
      else if k = ''http_server_name'' then Some (with_arg D (\<lambda>v a. a\<lparr>HTTPServerName := v\<rparr>) s)
      else if k = ''admin_api'' then Some (with_arg D (\<lambda>v a. a\<lparr>AdminAPI := v\<rparr>) s)
      else if k = ''security'' then parseSecurityBlock D s
      else if k = ''redis'' then parseRedisBlock D s
      else if k = ''access_log'' then Some (with_arg D (\<lambda>v a. a\<lparr>AccessLog := (v = ''on'')\<rparr>) s)
      else if k = ''verbose_logs'' then Some (with_arg D (\<lambda>v a. a\<lparr>VerboseLogs := (v = ''on'')\<rparr>) s)
      else Some (Inl (Err D (''unknown k8s_ingress option: '' @ k) (snd s))))"

definition UnmarshalCaddyfile :: "'d dispenser \<Rightarrow> App \<times> 'd \<Rightarrow> (go_error + App \<times> 'd) option" where
  "UnmarshalCaddyfile D = for_loop (Next D) (for_loop (NextBlock D 0) (ingress_option D))"

text \<open>\<open>new(App)\<close>. The fields that are nil until provisioning, and that the parser does not touch, have
  the empty values of their types.\<close>

definition zero_app :: App where
  "zero_app = \<lparr>IngressClass = [], ServerName = [], HTTPServerName = [], AdminAPI = [],
     Security = \<lparr>WAF = False, WAFMode = [], SecurityHeaders = False, InjectRealIP = False\<rparr>, RedisCfg = None,
     AccessLog = False, VerboseLogs = False, store = Memory [], routeIDs = [], serverName = [], httpServerName = [],
     tlsManager = newTLSManager [], tlsPolicyMgr = newTLSPolicyManager [], accessLogMgr = None\<rparr>"

text \<open>The JSON of a module: an empty field is left out, but for \<open>security\<close>, which is a struct, and the
  address of a Redis section.\<close>

definition text_field :: "string \<Rightarrow> string \<Rightarrow> (string \<times> json) list" where
  "text_field k v = unless (v = []) k (JStr v)"

definition flag_field :: "string \<Rightarrow> bool \<Rightarrow> (string \<times> json) list" where
  "flag_field k b = unless (\<not> b) k (JBool True)"

definition security_json :: "SecurityConfig \<Rightarrow> json" where
  "security_json c =
     obj (flag_field ''waf'' (WAF c) @ text_field ''waf_mode'' (WAFMode c)
       @ flag_field ''security_headers'' (SecurityHeaders c) @ flag_field ''inject_real_ip'' (InjectRealIP c))"

definition redis_json :: "RedisConfig \<Rightarrow> json" where
  "redis_json r =
     obj ((''address'', JStr (Address r)) # text_field ''password'' (RedisPassword r)
       @ unless (DB r = 0) ''db'' (JNum (DB r)))"

definition app_json :: "App \<Rightarrow> json" where
  "app_json a =
     obj (text_field ''ingress_class'' (IngressClass a) @ text_field ''server_name'' (ServerName a)
       @ text_field ''http_server_name'' (HTTPServerName a) @ text_field ''admin_api'' (AdminAPI a)
       @ (''security'', security_json (Security a))
       # (case RedisCfg a of None \<Rightarrow> [] | Some r \<Rightarrow> [(''redis'', redis_json r)])
       @ flag_field ''access_log'' (AccessLog a) @ flag_field ''verbose_logs'' (VerboseLogs a))"

definition parseGlobalOption :: "'d dispenser \<Rightarrow> 'd \<Rightarrow> (go_error + string \<times> json) option" where
  "parseGlobalOption D d =
     (case UnmarshalCaddyfile D (zero_app, d) of
        None \<Rightarrow> None
      | Some (Inl err) \<Rightarrow> Some (Inl err)
      | Some (Inr (a, d)) \<Rightarrow> Some (Inr (''k8s_ingress'', app_json a)))"

subsection \<open>The options of the reloader\<close>

definition reloader_option :: "'d dispenser \<Rightarrow> ConfigReloader \<times> 'd \<Rightarrow> go_error + ConfigReloader \<times> 'd" where
  "reloader_option D s =
     (let k = Val D (snd s) in
      if k = ''namespace'' then with_arg D (\<lambda>v r. r\<lparr>Namespace := v\<rparr>) s
      else if k = ''configmap'' then with_arg D (\<lambda>v r. r\<lparr>ConfigMap := v\<rparr>) s
      else if k = ''key'' then with_arg D (\<lambda>v r. r\<lparr>Key := v\<rparr>) s
      else if k = ''admin_api'' then with_arg D (\<lambda>v r. r\<lparr>rl_adminAPI := v\<rparr>) s
      else Inl (Err D (''unknown k8s_config_reloader option: '' @ k) (snd s)))"

definition reloader_UnmarshalCaddyfile ::
    "'d dispenser \<Rightarrow> ConfigReloader \<times> 'd \<Rightarrow> (go_error + ConfigReloader \<times> 'd) option" where
  "reloader_UnmarshalCaddyfile D s =
     (case for_loop (Next D) (for_loop (NextBlock D 0) (\<lambda>s. Some (reloader_option D s))) s of
        None \<Rightarrow> None
      | Some (Inl err) \<Rightarrow> Some (Inl err)
      | Some (Inr s) \<Rightarrow>
          if ConfigMap (fst s) = []
          then Some (Inl (Err D ''k8s_config_reloader: configmap name is required'' (snd s)))
          else Some (Inr s))"

definition reloader_json :: "ConfigReloader \<Rightarrow> json" where
  "reloader_json r =
     obj (text_field ''namespace'' (Namespace r) @ text_field ''configmap'' (ConfigMap r)
       @ text_field ''key'' (Key r) @ text_field ''admin_api'' (rl_adminAPI r))"

definition parseReloaderOption :: "'d dispenser \<Rightarrow> 'd \<Rightarrow> (go_error + string \<times> json) option" where
  "parseReloaderOption D d =
     (case reloader_UnmarshalCaddyfile D (newReloader, d) of
        None \<Rightarrow> None
      | Some (Inl err) \<Rightarrow> Some (Inl err)
      | Some (Inr (r, d)) \<Rightarrow> Some (Inr (''k8s_config_reloader'', reloader_json r)))"

section \<open>Parsing ends\<close>

context token_stream begin

text \<open>A step that reads at most one argument.\<close>

lemma arg_returns:
  fixes f :: "'a \<times> 'd \<Rightarrow> go_error + 'a \<times> 'd"
  assumes "\<And>s found d. NextArg D (snd s) = (found, d) \<Longrightarrow>
    (\<exists>err. f s = Inl err) \<or> (\<exists>a. f s = Inr (a, d))"
  shows "returns left (\<lambda>s. Some (f s))"
proof (rule returnsI)
  fix s :: "'a \<times> 'd"
  obtain found d where n: "NextArg D (snd s) = (found, d)" by (meson surj_pair)
  from assms [OF n] next_arg [OF n]
  show "(\<exists>err. Some (f s) = Some (Inl err)) \<or> (\<exists>s'. Some (f s) = Some (Inr s') \<and> left (snd s') \<le> left (snd s))"
    by auto
qed

lemma security_returns: "returns left (parseSecurityBlock D)"
  unfolding parseSecurityBlock_def
  by (intro block_returns arg_returns) (auto simp: security_option_def with_arg_def Let_def)

lemma redis_returns: "returns left (parseRedisBlock D)"
proof -
  have "returns left (\<lambda>s. Some (redis_option D s))"
    by (rule arg_returns) (auto simp: redis_option_def redis_db_def with_arg_def Let_def split: option.split)
  then have l: "returns left (for_loop (NextBlock D 1) (\<lambda>s. Some (redis_option D s)))"
    by (rule block_returns)
  show ?thesis
  proof (rule returnsI)
    fix s
    from l show "(\<exists>err. parseRedisBlock D s = Some (Inl err))
        \<or> (\<exists>s'. parseRedisBlock D s = Some (Inr s') \<and> left (snd s') \<le> left (snd s))"
      by (rule returnsD [where s = "((fst s)\<lparr>RedisCfg := Some no_redis\<rparr>, snd s)"])
        (auto simp: parseRedisBlock_def split: option.splits)
  qed
qed

lemma ingress_option_returns: "returns left (ingress_option D)"
proof (rule returnsI)
  fix s :: "App \<times> 'd"
  obtain found d where n: "NextArg D (snd s) = (found, d)" by (meson surj_pair)
  from next_arg [OF n]
  show "(\<exists>err. ingress_option D s = Some (Inl err))
      \<or> (\<exists>s'. ingress_option D s = Some (Inr s') \<and> left (snd s') \<le> left (snd s))"
    by (cases rule: returnsD [OF security_returns, of s]; cases rule: returnsD [OF redis_returns, of s])
      (auto simp: ingress_option_def Let_def with_arg_def n)
qed

lemma UnmarshalCaddyfile_ends: "\<exists>r. UnmarshalCaddyfile D s = Some r"
  using blocks_return [OF block_returns [OF ingress_option_returns]]
  unfolding UnmarshalCaddyfile_def returns_def by blast

lemma reloader_ends: "\<exists>r. reloader_UnmarshalCaddyfile D s = Some r"
proof -
  have "returns left (\<lambda>s. Some (reloader_option D s))"
    by (rule arg_returns) (auto simp: reloader_option_def with_arg_def Let_def)
  from blocks_return [OF block_returns [OF this, of 0]] show ?thesis
    by (cases rule: returnsD [where s = s]) (simp_all add: reloader_UnmarshalCaddyfile_def)
qed

end

end
