(* ===== verification/Caddyfile_Props.thy ===== *)
theory Caddyfile_Props
  imports Caddyfile
begin

section \<open>What a block means\<close>

text \<open>
  A block as a list of entries, an option with its argument, if any, or a section, and its meaning
  as a function on the configuration. The parser computes this meaning for every dispenser that
  presents the entries; printing a configuration as entries and reading it back gives it again.
\<close>

type_synonym opt = "string \<times> string option"

datatype entry = Opt opt | Sec string "opt list"

text \<open>\<open>None\<close> stands for an error.\<close>

definition on :: "string \<Rightarrow> bool" where
  "on v = (v = ''on'')"

definition security_meaning :: "string \<Rightarrow> string \<Rightarrow> SecurityConfig \<Rightarrow> SecurityConfig option" where
  "security_meaning k v c =
     map_of [(''waf'', c\<lparr>WAF := on v\<rparr>), (''waf_mode'', c\<lparr>WAFMode := v\<rparr>),
             (''security_headers'', c\<lparr>SecurityHeaders := on v\<rparr>), (''inject_real_ip'', c\<lparr>InjectRealIP := on v\<rparr>)] k"

definition redis_meaning :: "string \<Rightarrow> string \<Rightarrow> RedisConfig \<Rightarrow> RedisConfig option" where
  "redis_meaning k v r =
     (if k = ''db'' then map_option (\<lambda>n. r\<lparr>DB := n\<rparr>) (Sscanf_d v)
      else map_of [(''address'', r\<lparr>Address := v\<rparr>), (''password'', r\<lparr>RedisPassword := v\<rparr>)] k)"

definition option_meaning :: "string \<Rightarrow> string \<Rightarrow> App \<Rightarrow> App option" where
  "option_meaning k v a =
     map_of [(''ingress_class'', a\<lparr>IngressClass := v\<rparr>), (''server_name'', a\<lparr>ServerName := v\<rparr>),
             (''http_server_name'', a\<lparr>HTTPServerName := v\<rparr>), (''admin_api'', a\<lparr>AdminAPI := v\<rparr>),
             (''access_log'', a\<lparr>AccessLog := on v\<rparr>), (''verbose_logs'', a\<lparr>VerboseLogs := on v\<rparr>)] k"

text \<open>One option after the other; a missing argument is an error.\<close>

fun meanings :: "(string \<Rightarrow> string \<Rightarrow> 'c \<Rightarrow> 'c option) \<Rightarrow> opt list \<Rightarrow> 'c \<Rightarrow> 'c option" where
  "meanings m [] c = Some c"
| "meanings m ((k, None) # os) c = None"
| "meanings m ((k, Some v) # os) c = (case m k v c of None \<Rightarrow> None | Some c \<Rightarrow> meanings m os c)"

fun entry_meaning :: "entry \<Rightarrow> App \<Rightarrow> App option" where
  "entry_meaning (Opt (k, None)) a = None"
| "entry_meaning (Opt (k, Some v)) a = option_meaning k v a"
| "entry_meaning (Sec k os) a =
     (if k = ''security'' then map_option (\<lambda>c. a\<lparr>Security := c\<rparr>) (meanings security_meaning os (Security a))
      else if k = ''redis'' then
        (case meanings redis_meaning os no_redis of
           None \<Rightarrow> None
         | Some r \<Rightarrow> if Address r = [] then None else Some (a\<lparr>RedisCfg := Some r\<rparr>))
      else None)"

fun block_meaning :: "entry list \<Rightarrow> App \<Rightarrow> App option" where
  "block_meaning [] a = Some a"
| "block_meaning (x # xs) a = (case entry_meaning x a of None \<Rightarrow> None | Some a \<Rightarrow> block_meaning xs a)"

section \<open>Presenting a block\<close>

text \<open>When a dispenser presents a list of options at a nesting level: each \<open>NextBlock\<close> finds the next
  key and \<open>NextArg\<close> its argument, and the last \<open>NextBlock\<close> finds the end. After a missing argument
  nothing more is promised. The names of sections are no options.\<close>

inductive opts :: "'d dispenser \<Rightarrow> nat \<Rightarrow> 'd \<Rightarrow> opt list \<Rightarrow> 'd \<Rightarrow> bool" for D n where
  opts_end: "NextBlock D n d = (False, d') \<Longrightarrow> opts D n d [] d'"
| opts_missing: "NextBlock D n d = (True, d1) \<Longrightarrow> NextArg D d1 = (False, d2) \<Longrightarrow> opts D n d ((Val D d1, None) # os) d'"
| opts_arg: "NextBlock D n d = (True, d1) \<Longrightarrow> NextArg D d1 = (True, d2) \<Longrightarrow> opts D n d2 os d' \<Longrightarrow>
    opts D n d ((Val D d1, Some (Val D d2)) # os) d'"

inductive entries :: "'d dispenser \<Rightarrow> 'd \<Rightarrow> entry list \<Rightarrow> 'd \<Rightarrow> bool" for D where
  entries_end: "NextBlock D 0 d = (False, d') \<Longrightarrow> entries D d [] d'"
| entries_missing: "NextBlock D 0 d = (True, d1) \<Longrightarrow> Val D d1 \<notin> {''security'', ''redis''} \<Longrightarrow>
    NextArg D d1 = (False, d2) \<Longrightarrow> entries D d (Opt (Val D d1, None) # xs) d'"
| entries_arg: "NextBlock D 0 d = (True, d1) \<Longrightarrow> Val D d1 \<notin> {''security'', ''redis''} \<Longrightarrow>
    NextArg D d1 = (True, d2) \<Longrightarrow> entries D d2 xs d' \<Longrightarrow> entries D d (Opt (Val D d1, Some (Val D d2)) # xs) d'"
| entries_sec: "NextBlock D 0 d = (True, d1) \<Longrightarrow> Val D d1 \<in> {''security'', ''redis''} \<Longrightarrow>
    opts D 1 d1 os d2 \<Longrightarrow> entries D d2 xs d' \<Longrightarrow> entries D d (Sec (Val D d1) os # xs) d'"

text \<open>A parser step agrees with a meaning: an error for an error, the value for a value.\<close>

definition agrees :: "(go_error + 'a \<times> 'd) option \<Rightarrow> 'a option \<Rightarrow> 'd \<Rightarrow> bool" where
  "agrees r m d = (case m of None \<Rightarrow> (\<exists>err. r = Some (Inl err)) | Some a \<Rightarrow> r = Some (Inr (a, d)))"

lemma for_loop_end: "advance d = (False, d') \<Longrightarrow> for_loop advance body (a, d) = Some (Inr (a, d'))"
  by (simp add: for_loop.simps)

lemma for_loop_step:
  "advance d = (True, d') \<Longrightarrow> for_loop advance body (a, d) =
     (case body (a, d') of None \<Rightarrow> None | Some (Inl err) \<Rightarrow> Some (Inl err) | Some (Inr s') \<Rightarrow> for_loop advance body s')"
  by (simp add: for_loop.simps)

text \<open>A loop over options that reads one argument each computes the meanings.\<close>

lemma opts_loop:
  assumes "opts D n d os d'"
    and miss: "\<And>a d1 d2. NextArg D d1 = (False, d2) \<Longrightarrow> \<exists>err. body (a, d1) = Inl err"
    and arg: "\<And>a d1 d2. NextArg D d1 = (True, d2) \<Longrightarrow>
      agrees (Some (body (a, d1))) (m (Val D d1) (Val D d2) a) d2"
  shows "agrees (for_loop (NextBlock D n) (\<lambda>s. Some (body s)) (a, d)) (meanings m os a) d'"
  using assms(1)
proof (induction arbitrary: a)
  case (opts_end d d')
  then show ?case by (simp add: agrees_def for_loop_end)
next
  case (opts_missing d d1 d2 os d')
  then show ?case using miss [of d1 d2 a] by (auto simp: agrees_def for_loop_step)
next
  case (opts_arg d d1 d2 os d')
  show ?case
  proof (cases "m (Val D d1) (Val D d2) a")
    case None
    with arg [OF opts_arg(2), of a] opts_arg(1) show ?thesis by (auto simp: agrees_def for_loop_step)
  next
    case (Some a')
    with arg [OF opts_arg(2), of a] opts_arg(1) opts_arg.IH [of a'] show ?thesis
      by (simp add: agrees_def for_loop_step)
  qed
qed

text \<open>The meaning of a section, seen on the whole state.\<close>

lemma meanings_lift:
  assumes "\<And>k v c. m' k v (put c) = map_option put (m k v c)"
  shows "meanings m' os (put c) = map_option put (meanings m os c)"
proof (induction os arbitrary: c)
  case (Cons o' os)
  then show ?case
    by (cases "(m, o' # os, c)" rule: meanings.cases) (auto simp: assms split: option.split)
qed simp

section \<open>The parsers compute the meaning\<close>

definition put_security :: "App \<Rightarrow> SecurityConfig \<Rightarrow> App" where
  "put_security a c = a\<lparr>Security := c\<rparr>"

definition put_redis :: "App \<Rightarrow> RedisConfig \<Rightarrow> App" where
  "put_redis a r = a\<lparr>RedisCfg := Some r\<rparr>"

definition security_on :: "string \<Rightarrow> string \<Rightarrow> App \<Rightarrow> App option" where
  "security_on k v a = map_option (put_security a) (security_meaning k v (Security a))"

definition redis_on :: "string \<Rightarrow> string \<Rightarrow> App \<Rightarrow> App option" where
  "redis_on k v a =
    (case RedisCfg a of
       None \<Rightarrow> map_option (\<lambda>r. a) (redis_meaning k v no_redis)
     | Some r \<Rightarrow> map_option (put_redis a) (redis_meaning k v r))"

lemma put_twice [simp]:
  "put_security (put_security a c) = put_security a"
  "put_redis (put_redis a r) = put_redis a"
  by (simp_all add: fun_eq_iff put_security_def put_redis_def)

lemma put_reads [simp]:
  "Security (put_security a c) = c"
  "RedisCfg (put_redis a r) = Some r"
  by (simp_all add: put_security_def put_redis_def)

lemma security_agrees:
  assumes "opts D 1 d os d'"
  shows "agrees (parseSecurityBlock D (a, d)) (map_option (put_security a) (meanings security_meaning os (Security a))) d'"
proof -
  have "agrees (for_loop (NextBlock D 1) (\<lambda>s. Some (security_option D s)) (a, d)) (meanings security_on os a) d'"
  proof (rule opts_loop [OF assms])
    show "NextArg D d1 = (False, d2) \<Longrightarrow> \<exists>err. security_option D (a, d1) = Inl err" for a d1 d2
      by (simp add: security_option_def with_arg_def Let_def)
    show "NextArg D d1 = (True, d2) \<Longrightarrow>
        agrees (Some (security_option D (a, d1))) (security_on (Val D d1) (Val D d2) a) d2" for a d1 d2
      by (simp add: security_option_def with_arg_def Let_def agrees_def security_on_def security_meaning_def
          set_Security_def put_security_def on_def)
  qed
  moreover have "meanings security_on os (put_security a c) = map_option (put_security a) (meanings security_meaning os c)" for c
    by (rule meanings_lift) (simp add: security_on_def)
  from this [of "Security a"] have "meanings security_on os a = map_option (put_security a) (meanings security_meaning os (Security a))"
    by (simp add: put_security_def)
  ultimately show ?thesis by (simp add: parseSecurityBlock_def)
qed

lemma redis_agrees:
  assumes "opts D 1 d os d'"
  shows "agrees (parseRedisBlock D (a, d)) (entry_meaning (Sec ''redis'' os) a) d'"
proof -
  let ?a = "put_redis a no_redis"
  have "agrees (for_loop (NextBlock D 1) (\<lambda>s. Some (redis_option D s)) (?a, d)) (meanings redis_on os ?a) d'"
  proof (rule opts_loop [OF assms])
    show "NextArg D d1 = (False, d2) \<Longrightarrow> \<exists>err. redis_option D (a, d1) = Inl err" for a d1 d2
      by (simp add: redis_option_def redis_db_def with_arg_def Let_def)
    show "NextArg D d1 = (True, d2) \<Longrightarrow>
        agrees (Some (redis_option D (a, d1))) (redis_on (Val D d1) (Val D d2) a) d2" for a d1 d2
      by (cases "RedisCfg a")
        (auto simp: redis_option_def redis_db_def with_arg_def Let_def agrees_def redis_on_def redis_meaning_def
          set_Redis_def put_redis_def split: option.split)
  qed
  moreover have "meanings redis_on os ?a = map_option (put_redis a) (meanings redis_meaning os no_redis)"
    by (rule meanings_lift) (simp add: redis_on_def)
  ultimately show ?thesis
    by (cases "meanings redis_meaning os no_redis")
      (auto simp: parseRedisBlock_def agrees_def put_redis_def)
qed

lemma option_agrees:
  assumes "NextArg D d1 = (found, d2)" "Val D d1 \<notin> {''security'', ''redis''}"
  shows "if found then agrees (ingress_option D (a, d1)) (option_meaning (Val D d1) (Val D d2) a) d2
         else \<exists>err. ingress_option D (a, d1) = Some (Inl err)"
  using assms by (simp add: ingress_option_def with_arg_def Let_def agrees_def option_meaning_def on_def)

lemma section_agrees:
  assumes "opts D 1 d1 os d2" "Val D d1 \<in> {''security'', ''redis''}"
  shows "agrees (ingress_option D (a, d1)) (entry_meaning (Sec (Val D d1) os) a) d2"
  using security_agrees [OF assms(1), of a] redis_agrees [OF assms(1), of a] assms(2)
  by (auto simp: ingress_option_def Let_def put_security_def [abs_def])

lemma entries_loop:
  assumes "entries D d xs d'"
  shows "agrees (for_loop (NextBlock D 0) (ingress_option D) (a, d)) (block_meaning xs a) d'"
  using assms
proof (induction arbitrary: a)
  case (entries_end d d')
  then show ?case by (simp add: agrees_def for_loop_end)
next
  case (entries_missing d d1 d2 xs d')
  with option_agrees [OF entries_missing(3,2), of a] show ?case by (auto simp: agrees_def for_loop_step)
next
  case (entries_arg d d1 d2 xs d')
  show ?case
  proof (cases "option_meaning (Val D d1) (Val D d2) a")
    case None
    with option_agrees [OF entries_arg(3,2), of a] entries_arg(1) show ?thesis
      by (auto simp: agrees_def for_loop_step)
  next
    case (Some a')
    with option_agrees [OF entries_arg(3,2), of a] entries_arg(1) entries_arg.IH [of a'] show ?thesis
      by (simp add: agrees_def for_loop_step)
  qed
next
  case (entries_sec d d1 os d2 xs d')
  note sec = section_agrees [OF entries_sec(3,2), of a]
  show ?case
  proof (cases "entry_meaning (Sec (Val D d1) os) a")
    case None
    with sec entries_sec(1) show ?thesis by (auto simp: agrees_def for_loop_step simp del: entry_meaning.simps)
  next
    case (Some a')
    with sec entries_sec(1) entries_sec.IH [of a'] show ?thesis
      by (simp add: agrees_def for_loop_step del: entry_meaning.simps)
  qed
qed

text \<open>C28: For every dispenser that presents one block of entries, \<open>UnmarshalCaddyfile\<close> computes the
  meaning of the block: each option sets its own field, the last one wins, a section \<open>security\<close>
  changes the fields it names, a section \<open>redis\<close> starts from an empty configuration and needs an
  address, and an unknown option, a missing argument or a database that is no number is an error.\<close>

theorem UnmarshalCaddyfile_meaning:
  assumes "Next D d = (True, d0)" "entries D d0 xs d1" "Next D d1 = (False, d2)"
  shows "case block_meaning xs a of
           None \<Rightarrow> \<exists>err. UnmarshalCaddyfile D (a, d) = Some (Inl err)
         | Some a' \<Rightarrow> UnmarshalCaddyfile D (a, d) = Some (Inr (a', d2))"
  using entries_loop [OF assms(2), of a] for_loop_end [of "Next D", OF assms(3)]
  by (auto simp: UnmarshalCaddyfile_def agrees_def for_loop_step [of "Next D", OF assms(1)] split: option.splits)

section \<open>Printing a configuration\<close>

definition on_off :: "bool \<Rightarrow> string" where
  "on_off b = (if b then ''on'' else ''off'')"

definition config_entries :: "App \<Rightarrow> entry list" where
  "config_entries a =
     [Opt (''ingress_class'', Some (IngressClass a)), Opt (''server_name'', Some (ServerName a)),
      Opt (''http_server_name'', Some (HTTPServerName a)), Opt (''admin_api'', Some (AdminAPI a)),
      Sec ''security''
        [(''waf'', Some (on_off (WAF (Security a)))), (''waf_mode'', Some (WAFMode (Security a))),
         (''security_headers'', Some (on_off (SecurityHeaders (Security a)))),
         (''inject_real_ip'', Some (on_off (InjectRealIP (Security a))))]]
     @ (case RedisCfg a of
          None \<Rightarrow> []
        | Some r \<Rightarrow>
            [Sec ''redis'' [(''address'', Some (Address r)), (''password'', Some (RedisPassword r)), (''db'', Some (Itoa (DB r)))]])
     @ [Opt (''access_log'', Some (on_off (AccessLog a))), Opt (''verbose_logs'', Some (on_off (VerboseLogs a)))]"

text \<open>A configuration that can be written down.\<close>

definition writable :: "App \<Rightarrow> bool" where
  "writable a = (case RedisCfg a of None \<Rightarrow> True | Some r \<Rightarrow> Address r \<noteq> [] \<and> - two63 \<le> DB r \<and> DB r < two63)"

lemma on_off [simp]: "on (on_off b) = b"
  by (simp add: on_def on_off_def)

text \<open>The number printed by \<open>Itoa\<close> is scanned back, whatever follows it.\<close>

lemma digits_takeWhile: "0 \<le> n \<Longrightarrow> (\<And>c r. t = c # r \<Longrightarrow> \<not> is_digit c) \<Longrightarrow> takeWhile is_digit (digits n @ t) = digits n"
proof -
  assume n: "0 \<le> n" and t: "\<And>c r. t = c # r \<Longrightarrow> \<not> is_digit c"
  have "takeWhile is_digit t = []" using t by (cases t) auto
  moreover have "\<forall>c \<in> set (digits n). is_digit c" using digits_are_digits [OF n] by (simp add: list_all_iff)
  ultimately show ?thesis by simp
qed

lemma strip_number: "c = CHR ''-'' \<or> is_digit c \<Longrightarrow> strip (filter P space_runes) (c # s) = c # s"
proof (rule strip_id)
  fix p
  assume c: "c = CHR ''-'' \<or> is_digit c" and p: "p \<in> set (filter P space_runes)" "p \<noteq> []"
  have "printable c" using c by (auto simp: printable_def is_digit_def Let_def)
  moreover have "list_all (\<lambda>c. \<not> printable c) p" using p space_runes_unprintable by simp
  ultimately show "\<not> prefix p (c # s)" using p(2) by (cases p) auto
qed

lemma Sscanf_Itoa:
  assumes "- two63 \<le> n" "n < two63" "\<And>c r. t = c # r \<Longrightarrow> \<not> is_digit c"
  shows "Sscanf_d (Itoa n @ t) = Some n"
proof (cases "n < 0")
  case True
  then have "takeWhile is_digit (digits (- n) @ t) = digits (- n)"
    using digits_takeWhile assms(3) by simp
  with True ParseInt_Itoa [OF assms(1,2)] show ?thesis
    by (simp add: Sscanf_d_def Itoa_def strip_number Let_def)
next
  case False
  obtain c s where cs: "digits n = c # s" by (cases "digits n") auto
  then have c: "is_digit c" using digits_head [of n] False by simp
  have "takeWhile is_digit (digits n @ t) = digits n" using digits_takeWhile assms(3) False by simp
  with False cs c not_sign_digit [OF c] ParseInt_Itoa [OF assms(1,2)] show ?thesis
    by (simp add: Sscanf_d_def Itoa_def strip_number Let_def)
qed

text \<open>The fields the options set.\<close>

definition options :: "App \<Rightarrow> string \<times> string \<times> string \<times> string \<times> SecurityConfig \<times> RedisConfig option \<times> bool \<times> bool" where
  "options a = (IngressClass a, ServerName a, HTTPServerName a, AdminAPI a, Security a, RedisCfg a, AccessLog a, VerboseLogs a)"

lemma config_meaning:
  assumes "writable a" "RedisCfg z = None"
  shows "\<exists>a'. block_meaning (config_entries a) z = Some a' \<and> options a' = options a"
proof -
  have db: "RedisCfg a = Some r \<Longrightarrow> Sscanf_d (Itoa (DB r)) = Some (DB r)" for r
    using Sscanf_Itoa [of "DB r" "[]"] assms(1) by (simp add: writable_def)
  show ?thesis
    using assms db
    by (cases "RedisCfg a")
      (simp_all add: config_entries_def option_meaning_def security_meaning_def redis_meaning_def options_def
        no_redis_def writable_def)
qed

text \<open>The options that are decoded from the JSON of a module by the tags of the fields: a field that is
  absent has its zero value.\<close>

definition text_of :: "string \<Rightarrow> json \<Rightarrow> string" where
  "text_of k j = (case jget k j of Some (JStr s) \<Rightarrow> s | _ \<Rightarrow> [])"

definition flag_of :: "string \<Rightarrow> json \<Rightarrow> bool" where
  "flag_of k j = (case jget k j of Some (JBool b) \<Rightarrow> b | _ \<Rightarrow> False)"

definition number_of :: "string \<Rightarrow> json \<Rightarrow> int" where
  "number_of k j = (case jget k j of Some (JNum n) \<Rightarrow> n | _ \<Rightarrow> 0)"

definition security_of :: "json \<Rightarrow> SecurityConfig" where
  "security_of j = \<lparr>WAF = flag_of ''waf'' j, WAFMode = text_of ''waf_mode'' j,
     SecurityHeaders = flag_of ''security_headers'' j, InjectRealIP = flag_of ''inject_real_ip'' j\<rparr>"

definition redis_of :: "json \<Rightarrow> RedisConfig" where
  "redis_of j = \<lparr>Address = text_of ''address'' j, RedisPassword = text_of ''password'' j, DB = number_of ''db'' j\<rparr>"

definition decoded_options :: "json \<Rightarrow> string \<times> string \<times> string \<times> string \<times> SecurityConfig \<times> RedisConfig option \<times> bool \<times> bool" where
  "decoded_options j =
     (text_of ''ingress_class'' j, text_of ''server_name'' j, text_of ''http_server_name'' j, text_of ''admin_api'' j,
      security_of (case jget ''security'' j of Some k \<Rightarrow> k | None \<Rightarrow> JNull), map_option redis_of (jget ''redis'' j),
      flag_of ''access_log'' j, flag_of ''verbose_logs'' j)"

text \<open>Looking up a field behind others.\<close>

lemma jget_fields:
  "jget x (obj (text_field k v @ fs)) =
     (case jget x (obj fs) of Some j \<Rightarrow> Some j | None \<Rightarrow> if x = k \<and> v \<noteq> [] then Some (JStr v) else None)"
  "jget x (obj (flag_field k b @ fs)) =
     (case jget x (obj fs) of Some j \<Rightarrow> Some j | None \<Rightarrow> if x = k \<and> b then Some (JBool True) else None)"
  "jget x (obj (text_field k v)) = (if x = k \<and> v \<noteq> [] then Some (JStr v) else None)"
  "jget x (obj (flag_field k b)) = (if x = k \<and> b then Some (JBool True) else None)"
  "jget x (obj ((k, j) # fs)) = (case jget x (obj fs) of Some i \<Rightarrow> Some i | None \<Rightarrow> if x = k then Some j else None)"
  "jget x (obj (unless z k j)) = (if x = k \<and> \<not> z then Some j else None)"
  "jget x (obj ((case ro of None \<Rightarrow> [] | Some r \<Rightarrow> [(k, f r)]) @ fs)) =
     (case jget x (obj fs) of Some j \<Rightarrow> Some j | None \<Rightarrow> if x = k then map_option f ro else None)"
  by (auto simp: text_field_def flag_field_def unless_def map_add_def split: option.split)

lemma decoded_app_json: "decoded_options (app_json a) = options a"
proof -
  have "security_of (security_json c) = c" for c
    by (simp add: security_of_def security_json_def text_of_def flag_of_def jget_fields del: jget_obj)
  moreover have "redis_of (redis_json r) = r" for r
    by (simp add: redis_of_def redis_json_def text_of_def number_of_def jget_fields del: jget_obj)
  ultimately show ?thesis
    by (cases "RedisCfg a")
      (simp_all add: decoded_options_def app_json_def options_def text_of_def flag_of_def jget_fields del: jget_obj)
qed

text \<open>C29: A configuration printed as a \<open>k8s_ingress\<close> block is parsed back with the same value in every
  option, the Redis database number included, from any dispenser that presents the block; and the
  JSON document the parser returns for the module holds these values under the tags of the fields, so
  decoding it, as Caddy does when it loads the module, gives the same options again.\<close>

theorem parseGlobalOption_roundtrip:
  assumes "writable a"
    and "Next D d = (True, d0)" "entries D d0 (config_entries a) d1" "Next D d1 = (False, d2)"
  shows "\<exists>a'. parseGlobalOption D d = Some (Inr (''k8s_ingress'', app_json a'))
      \<and> options a' = options a \<and> decoded_options (app_json a') = options a"
proof -
  obtain a' where a': "block_meaning (config_entries a) zero_app = Some a'" "options a' = options a"
    using config_meaning [OF assms(1), of zero_app] by (auto simp: zero_app_def)
  have "UnmarshalCaddyfile D (zero_app, d) = Some (Inr (a', d2))"
    using entries_loop [OF assms(3), of zero_app] for_loop_end [of "Next D", OF assms(4)] a'(1)
    by (simp add: UnmarshalCaddyfile_def agrees_def for_loop_step [of "Next D", OF assms(2)])
  with a'(2) show ?thesis by (auto simp: parseGlobalOption_def decoded_app_json)
qed

text \<open>C30: Parsing ends: for every dispenser whose successful calls consume a token, both option parsers
  return a module or an error.\<close>

theorem parsing_ends:
  assumes "token_stream D left"
  shows "parseGlobalOption D d \<noteq> None \<and> parseReloaderOption D d \<noteq> None"
proof -
  obtain r r' where "UnmarshalCaddyfile D (zero_app, d) = Some r" "reloader_UnmarshalCaddyfile D (newReloader, d) = Some r'"
    using token_stream.UnmarshalCaddyfile_ends [OF assms] token_stream.reloader_ends [OF assms] by blast
  then show ?thesis
    by (auto simp: parseGlobalOption_def parseReloaderOption_def split: sum.split)
qed

section \<open>Blocks as text\<close>

text \<open>The tokens of a block, each entry on lines of its own from line \<open>l\<close> on.\<close>

fun opt_tokens :: "nat \<Rightarrow> opt list \<Rightarrow> (nat \<times> string) list" where
  "opt_tokens l [] = []"
| "opt_tokens l ((k, None) # os) = (l, k) # opt_tokens (Suc l) os"
| "opt_tokens l ((k, Some v) # os) = (l, k) # (l, v) # opt_tokens (Suc l) os"

fun entry_lines :: "entry \<Rightarrow> nat" where
  "entry_lines (Opt x) = 1"
| "entry_lines (Sec k os) = length os + 2"

fun entry_tokens :: "nat \<Rightarrow> entry list \<Rightarrow> (nat \<times> string) list" where
  "entry_tokens l [] = []"
| "entry_tokens l (Opt x # xs) = opt_tokens l [x] @ entry_tokens (Suc l) xs"
| "entry_tokens l (Sec k os # xs) =
     (l, k) # (l, ''{'') # opt_tokens (Suc l) os @ (l + length os + 1, ''}'') # entry_tokens (l + length os + 2) xs"

text \<open>Entries that survive as text: every option has an argument, and no key or argument is a brace.\<close>

fun opt_text :: "opt \<Rightarrow> bool" where
  "opt_text (k, None) = False"
| "opt_text (k, Some v) = (k \<noteq> ''}'' \<and> v \<noteq> ''{'')"

fun entry_text :: "entry \<Rightarrow> bool" where
  "entry_text (Opt x) = (opt_text x \<and> fst x \<notin> {''security'', ''redis''})"
| "entry_text (Sec k os) = (k \<in> {''security'', ''redis''} \<and> list_all opt_text os)"

lemma opts_argI:
  "NextBlock D n d = (True, d1) \<Longrightarrow> Val D d1 = k \<Longrightarrow> NextArg D d1 = (True, d2) \<Longrightarrow> Val D d2 = v \<Longrightarrow>
   opts D n d2 os d' \<Longrightarrow> opts D n d ((k, Some v) # os) d'"
  using opts_arg by metis

lemma entries_argI:
  "NextBlock D 0 d = (True, d1) \<Longrightarrow> Val D d1 = k \<Longrightarrow> k \<notin> {''security'', ''redis''} \<Longrightarrow>
   NextArg D d1 = (True, d2) \<Longrightarrow> Val D d2 = v \<Longrightarrow> entries D d2 xs d' \<Longrightarrow> entries D d (Opt (k, Some v) # xs) d'"
  using entries_arg by metis

lemma entries_secI:
  "NextBlock D 0 d = (True, d1) \<Longrightarrow> Val D d1 = k \<Longrightarrow> k \<in> {''security'', ''redis''} \<Longrightarrow>
   opts D 1 d1 os d2 \<Longrightarrow> entries D d2 xs d' \<Longrightarrow> entries D d (Sec k os # xs) d'"
  using entries_sec by metis

lemma ref_fields [simp]:
  "NextBlock ref_dispenser = ref_block" "NextArg ref_dispenser = ref_arg" "Next ref_dispenser = ref_next"
  "Val ref_dispenser (Some t, ts, n) = snd t"
  by (simp_all add: ref_dispenser_def)

text \<open>Inside the block, whatever the current token is.\<close>

lemma ref_opts_inside:
  assumes "list_all opt_text os"
  shows "opts ref_dispenser n (cur, opt_tokens l os @ (m, ''}'') # ts, Suc n) os (Some (m, ''}''), ts, n)"
  using assms
proof (induction os arbitrary: cur l)
  case Nil
  show ?case by (rule opts_end) simp
next
  case (Cons x os)
  then obtain k v where x: "x = (k, Some v)" "k \<noteq> ''}''" "v \<noteq> ''{''"
    by (cases x rule: opt_text.cases) auto
  show ?case
    unfolding x(1)
    by (rule opts_argI [where ?d1.0 = "(Some (l, k), (l, v) # opt_tokens (Suc l) os @ (m, ''}'') # ts, Suc n)"
          and ?d2.0 = "(Some (l, v), opt_tokens (Suc l) os @ (m, ''}'') # ts, Suc n)"])
      (use x Cons in \<open>simp_all add: Let_def same_line_def\<close>)
qed

text \<open>Opening the block reads its first token as if it were open already.\<close>

lemma ref_block_open: "ts \<noteq> [] \<Longrightarrow> ref_block n (Some (l, nm), (l, ''{'') # ts, n) = ref_block n (cur, ts, Suc n)"
  by (cases ts) (simp_all add: same_line_def Let_def)

lemma opts_cong: "NextBlock D n d = NextBlock D n e \<Longrightarrow> opts D n e os d' \<Longrightarrow> opts D n d os d'"
  by (erule opts.cases) (auto intro: opts.intros)

lemma entries_cong: "NextBlock D 0 d = NextBlock D 0 e \<Longrightarrow> entries D e xs d' \<Longrightarrow> entries D d xs d'"
  by (erule entries.cases) (auto intro: entries.intros)

lemma ref_opts:
  assumes "list_all opt_text os"
  shows "opts ref_dispenser n (Some (l, nm), (l, ''{'') # opt_tokens l' os @ (m, ''}'') # ts, n) os (Some (m, ''}''), ts, n)"
  by (rule opts_cong [OF _ ref_opts_inside [OF assms, where cur = None and l = l']]) (simp add: ref_block_open [where cur = None] del: ref_block.simps)

lemma ref_entries_inside:
  assumes "list_all entry_text xs"
  shows "entries ref_dispenser (cur, entry_tokens l xs @ (m, ''}'') # ts, 1) xs (Some (m, ''}''), ts, 0)"
  using assms
proof (induction xs arbitrary: cur l)
  case Nil
  show ?case by (rule entries_end) simp
next
  case (Cons x xs)
  show ?case
  proof (cases x)
    case (Opt o')
    then obtain k v where x: "x = Opt (k, Some v)" "k \<noteq> ''}''" "v \<noteq> ''{''" "k \<notin> {''security'', ''redis''}"
      using Cons.prems by (cases o' rule: opt_text.cases) auto
    let ?ts = "entry_tokens (Suc l) xs @ (m, ''}'') # ts"
    show ?thesis
      unfolding x(1)
      by (rule entries_argI [where ?d1.0 = "(Some (l, k), (l, v) # ?ts, 1)" and ?d2.0 = "(Some (l, v), ?ts, 1)"])
        (use x Cons in \<open>simp_all add: same_line_def\<close>)
  next
    case (Sec k os)
    let ?m = "l + length os + 1"
    let ?ts = "entry_tokens (l + length os + 2) xs @ (m, ''}'') # ts"
    have k: "k \<in> {''security'', ''redis''}" "list_all opt_text os" using Cons.prems Sec by auto
    show ?thesis
      unfolding Sec
      by (rule entries_secI [where ?d1.0 = "(Some (l, k), (l, ''{'') # opt_tokens (Suc l) os @ (?m, ''}'') # ?ts, 1)"
            and ?d2.0 = "(Some (?m, ''}''), ?ts, 1)"])
        (use k Cons ref_opts [OF k(2), of 1 l k "Suc l" ?m ?ts] in auto)
  qed
qed

text \<open>The tokens of a whole global option, and that the dispenser presents its entries.\<close>

definition option_tokens :: "string \<Rightarrow> entry list \<Rightarrow> (nat \<times> string) list" where
  "option_tokens nm xs = (0, nm) # (0, ''{'') # entry_tokens 1 xs @ [(Suc (sum_list (map entry_lines xs)), ''}'')]"

lemma ref_entries:
  assumes "list_all entry_text xs"
  shows "\<exists>d0 d1 d2. Next ref_dispenser (None, option_tokens nm xs, 0) = (True, d0)
    \<and> entries ref_dispenser d0 xs d1 \<and> Next ref_dispenser d1 = (False, d2)"
proof -
  let ?m = "Suc (sum_list (map entry_lines xs))"
  let ?d0 = "(Some (0, nm), (0, ''{'') # entry_tokens 1 xs @ [(?m, ''}'')], 0)"
  have "entries ref_dispenser ?d0 xs (Some (?m, ''}''), [], 0)"
    by (rule entries_cong [OF _ ref_entries_inside [OF assms, where cur = None and l = 1]]) (simp add: ref_block_open [where cur = None] del: ref_block.simps)
  then show ?thesis
    by (intro exI [of _ ?d0] exI [of _ "(Some (?m, ''}''), [], 0)"] conjI) (simp_all add: option_tokens_def)
qed

section \<open>Instances\<close>

definition demo_config :: App where
  "demo_config = zero_app\<lparr>IngressClass := ''caddy'', ServerName := ''https'', AdminAPI := ''localhost:2019'',
     Security := \<lparr>WAF = True, WAFMode = ''On'', SecurityHeaders = True, InjectRealIP = False\<rparr>,
     RedisCfg := Some \<lparr>Address = ''redis:6379'', RedisPassword = [], DB = 3\<rparr>, AccessLog := True\<rparr>"

lemma demo_config_ok: "writable demo_config" "list_all entry_text (config_entries demo_config)"
  by (code_simp, code_simp)

theorem parseGlobalOption_roundtrip_witness:
  "\<exists>a'. parseGlobalOption ref_dispenser (None, option_tokens ''k8s_ingress'' (config_entries demo_config), 0)
     = Some (Inr (''k8s_ingress'', app_json a')) \<and> options a' = options demo_config
       \<and> decoded_options (app_json a') = options demo_config"
proof -
  obtain d0 d1 d2 where d: "Next ref_dispenser (None, option_tokens ''k8s_ingress'' (config_entries demo_config), 0) = (True, d0)"
      "entries ref_dispenser d0 (config_entries demo_config) d1" "Next ref_dispenser d1 = (False, d2)"
    using ref_entries [OF demo_config_ok(2)] by blast
  show ?thesis by (rule parseGlobalOption_roundtrip [OF demo_config_ok(1) d])
qed

text \<open>A block whose Redis section has no address is an error.\<close>

theorem UnmarshalCaddyfile_meaning_witness:
  "\<exists>err. UnmarshalCaddyfile ref_dispenser
     (zero_app, (None, option_tokens ''k8s_ingress'' [Sec ''redis'' [(''db'', Some ''1'')]], 0)) = Some (Inl err)"
proof -
  have t: "list_all entry_text [Sec ''redis'' [(''db'', Some ''1'')]]" by simp
  have m: "block_meaning [Sec ''redis'' [(''db'', Some ''1'')]] zero_app = None" by code_simp
  obtain d0 d1 d2 where d: "Next ref_dispenser (None, option_tokens ''k8s_ingress'' [Sec ''redis'' [(''db'', Some ''1'')]], 0) = (True, d0)"
      "entries ref_dispenser d0 [Sec ''redis'' [(''db'', Some ''1'')]] d1" "Next ref_dispenser d1 = (False, d2)"
    using ref_entries [OF t] by blast
  from UnmarshalCaddyfile_meaning [OF d, of zero_app] m show ?thesis by simp
qed

theorem parsing_ends_witness:
  "parseGlobalOption ref_dispenser (None, [(0, ''k8s_ingress''), (0, ''{'')], 0) \<noteq> None"
  using parsing_ends [OF ref_tokens.token_stream_axioms] by blast

text \<open>A database number is read up to the first character that is no digit.\<close>

lemma db_with_rest: "Sscanf_d ''5abc'' = Some 5"
  by code_simp

end
