(* ===== verification/Annotation_Log.thy ===== *)
theory Annotation_Log
  imports Annotations
begin

section \<open>The annotations in the log (annotationFields)\<close>

text \<open>
  The structured log fields of a resolved record, in the order the code appends them, with the
  field constructors of \<open>zap\<close> as a datatype, and what of the record they reveal.
\<close>

datatype zap_field =
    ZString string string | ZStrings string "string list" | ZBool string bool | ZInt string int

definition field_if :: "bool \<Rightarrow> zap_field \<Rightarrow> zap_field list" where
  "field_if b f = (if b then [f] else [])"

text \<open>The names of the headers set, in the order \<open>range\<close> visits them, and of those deleted.\<close>

definition header_fields :: "'w env \<Rightarrow> string \<Rightarrow> headerConfig \<Rightarrow> 'w \<Rightarrow> zap_field list \<times> 'w" where
  "header_fields e name h w =
     (if headerConfig_empty h then ([], w)
      else (let (keys, w) = range_keys e (map fst (hdr_set h)) w in ([ZStrings name (keys @ hdr_delete h)], w)))"

definition access_fields :: "ingressAnnotations \<Rightarrow> zap_field list" where
  "access_fields ann =
     field_if (whitelist ann \<noteq> []) (ZStrings ''whitelist'' (whitelist ann))
     @ field_if (blocklist ann \<noteq> []) (ZStrings ''blocklist'' (blocklist ann))
     @ field_if (sslRedirect ann) (ZBool ''ssl-redirect'' True)
     @ field_if (permanentRedirect ann \<noteq> []) (ZString ''permanent-redirect'' (permanentRedirect ann))
     @ field_if (temporalRedirect ann \<noteq> []) (ZString ''temporal-redirect'' (temporalRedirect ann))
     @ field_if (rewriteTarget ann \<noteq> []) (ZString ''rewrite-target'' (rewriteTarget ann))
     @ field_if (serverAliases ann \<noteq> []) (ZStrings ''server-aliases'' (serverAliases ann))
     @ field_if (0 < limitRPS ann) (ZInt ''limit-rps'' (limitRPS ann))
     @ (case cors ann of None \<Rightarrow> [] | Some c \<Rightarrow> [ZStrings ''cors-origins'' (origins c)])
     @ field_if (accessLogDisabled ann) (ZBool ''access-log-disabled'' True)"

definition tls_waf_fields :: "ingressAnnotations \<Rightarrow> zap_field list" where
  "tls_waf_fields ann =
     field_if (tlsHandler ann \<noteq> []) (ZString ''tls'' (tlsHandler ann))
     @ field_if (tlsOnDemand ann) (ZBool ''tls-ondemand'' True)
     @ field_if (tlsCA ann \<noteq> []) (ZString ''tls-ca'' (tlsCA ann))
     @ (case wafOverride ann of
          None \<Rightarrow> []
        | Some b \<Rightarrow>
            [ZString ''waf'' (if wafModeOverride ann = [] then (if b then ''on'' else ''off'') else wafModeOverride ann)])
     @ field_if (wafDirectives ann \<noteq> []) (ZInt ''waf-extra-directives'' (int (length (wafDirectives ann))))"

definition proxy_fields :: "proxyConfig \<Rightarrow> zap_field list" where
  "proxy_fields p =
     field_if (0 < sint (maxBodySize p)) (ZInt ''proxy-body-size'' (sint (maxBodySize p)))
     @ field_if (readTimeout p \<noteq> []) (ZString ''proxy-read-timeout'' (readTimeout p))
     @ field_if (connectTimeout p \<noteq> []) (ZString ''proxy-connect-timeout'' (connectTimeout p))
     @ field_if (backendTLS p) (ZBool ''backend-protocol-https'' True)
     @ field_if (upstreamVhost p \<noteq> []) (ZString ''upstream-vhost'' (upstreamVhost p))
     @ field_if (0 < retries p) (ZInt ''proxy-retries'' (retries p))"

definition auth_fields :: "ingressAnnotations \<Rightarrow> zap_field list" where
  "auth_fields ann =
     (case basicAuth ann of None \<Rightarrow> [] | Some ba \<Rightarrow> [ZString ''basic-auth-realm'' (realm ba)])
     @ field_if (authPolicyHandler ann \<noteq> JNull) (ZBool ''auth-policy'' True)"

definition annotationFields :: "'w env \<Rightarrow> ingressAnnotations \<Rightarrow> 'w \<Rightarrow> zap_field list \<times> 'w" where
  "annotationFields e ann w =
     (let (req, w) = header_fields e ''request-headers'' (requestHeaders ann) w;
          (resp, w) = header_fields e ''response-headers'' (responseHeaders ann) w
      in (access_fields ann @ req @ resp @ tls_waf_fields ann @ proxy_fields (proxy ann) @ auth_fields ann, w))"

section \<open>What the log reveals\<close>

text \<open>The record without its confidential parts: header values, WAF directives, user names and password
  hashes, the authorization handler, the EAB secret's name.\<close>

definition redact_headers :: "headerConfig \<Rightarrow> headerConfig" where
  "redact_headers h = h\<lparr>hdr_set := map (apsnd (\<lambda>v. [])) (hdr_set h)\<rparr>"

definition redact :: "ingressAnnotations \<Rightarrow> ingressAnnotations" where
  "redact ann =
     ann\<lparr>requestHeaders := redact_headers (requestHeaders ann), responseHeaders := redact_headers (responseHeaders ann),
         wafDirectives := map (\<lambda>d. []) (wafDirectives ann),
         basicAuth := map_option (\<lambda>ba. ba\<lparr>accounts := []\<rparr>) (basicAuth ann),
         authPolicyHandler := (if authPolicyHandler ann = JNull then JNull else JBool True),
         tlsCASecret := []\<rparr>"

lemma header_fields_redact [simp]: "header_fields e nm (redact_headers h) w = header_fields e nm h w"
  by (simp add: header_fields_def headerConfig_empty_def redact_headers_def)

text \<open>C31: The log of a sync reveals no secret: the fields are the same for the record with every header
  value, WAF directive, user name, password hash, authorization handler and EAB secret name taken
  out.\<close>

theorem annotationFields_confidential:
  "annotationFields e ann w = annotationFields e (redact ann) w"
proof -
  have "access_fields (redact ann) = access_fields ann" "tls_waf_fields (redact ann) = tls_waf_fields ann"
      "auth_fields (redact ann) = auth_fields ann"
    by (simp_all add: redact_def access_fields_def tls_waf_fields_def auth_fields_def field_if_def split: option.split)
  moreover have "proxy (redact ann) = proxy ann" "requestHeaders (redact ann) = redact_headers (requestHeaders ann)"
      "responseHeaders (redact ann) = redact_headers (responseHeaders ann)"
    by (simp_all add: redact_def)
  ultimately show ?thesis by (simp add: annotationFields_def)
qed

text \<open>An Ingress without annotations logs nothing.\<close>

lemma annotationFields_none: "annotationFields e (new_annotations ing) w = ([], w)"
  by (simp add: annotationFields_def new_annotations_def header_fields_def headerConfig_empty_def access_fields_def
      tls_waf_fields_def proxy_fields_def auth_fields_def field_if_def zero_headers_def zero_proxy_def)

end
